(* ===== verification/Py_Base.thy ===== *)
theory Py_Base
  imports "HOL-Library.Word"
begin

text \<open>
  Prelude of the development: the Python values every component shares and the
  generic facts on lists and options they need.

  \<^item> A Python \<open>str\<close> is a sequence of Unicode code points, so \<open>pstr\<close> is a list
    of naturals; \<open>asc\<close> turns an ASCII literal of the logic into one.  Messages that the
    source writes in Chinese are given by their code points.
  \<^item> A \<open>UUID\<close> is a 128-bit value.  Times are integers counting microseconds.
  \<^item> A call that may raise returns \<open>exn + 'a\<close>: \<open>Inl\<close> is the exception raised.
  \<^item> \<open>json\<close> is what \<open>json.loads\<close> builds and \<open>json.dumps\<close> prints (a JSONB
    column holds one).  A float is kept by the text of its literal, which is all the
    program ever does with one.
\<close>

section \<open>Collections of facts\<close>

named_theorems dao_defs \<open>the statements of the DAOs, down to tables\<close>
named_theorems row_defs \<open>guards and assignments of the UPDATE statements\<close>
named_theorems msg_defs \<open>message constants\<close>

section \<open>Values\<close>

type_synonym pstr = "nat list"
type_synonym uuid = "128 word"
type_synonym time = int

definition asc :: "string \<Rightarrow> pstr" where
  "asc s = map of_char s"

lemma length_asc [simp]: "length (asc s) = length s"
  by (simp add: asc_def)

lemma asc_eq_Nil_iff [simp]: "asc s = [] \<longleftrightarrow> s = []"
  by (simp add: asc_def)

lemma asc_inj: "asc s = asc t \<longleftrightarrow> s = t"
  unfolding asc_def by (rule inj_map_eq_map) (simp add: inj_def)

datatype json =
    JNull
  | JBool bool
  | JInt int
  | JFloat pstr
  | JStr pstr
  | JList "json list"
  | JDict "(pstr \<times> json) list"

text \<open>The truth value of a value: empty texts, lists and objects and zeros are false.\<close>

definition json_truthy :: "json \<Rightarrow> bool" where
  "json_truthy v \<longleftrightarrow> v \<notin> {JNull, JBool False, JInt 0, JFloat (asc ''0.0''), JFloat (asc ''-0.0''),
     JStr [], JList [], JDict []}"

text \<open>
  The exceptions the modelled code raises or lets through.  The first six are
  \<open>api/domain/exceptions.py\<close>; \<open>IntegrityError\<close> and \<open>DataError\<close> are what
  the database driver raises for a violated constraint and for a value that does not fit
  its column; \<open>OtherError\<close> is any other exception, with the text of \<open>str(e)\<close>.
\<close>

datatype exn =
    InvalidRequestError pstr
  | InvalidUploadError pstr
  | RecordingNotFoundError pstr
  | TaskNotFoundError pstr
  | TaskNotRetryableError pstr
  | ServiceUnavailableError pstr
  | IntegrityError pstr
  | DataError pstr
  | RuntimeError pstr
  | ValueError pstr
  | OSError pstr
  | OtherError pstr

section \<open>Generic functions and facts\<close>

text \<open>\<open>.first()\<close> of a result: the first row, or \<open>None\<close>.\<close>

definition first :: "'a list \<Rightarrow> 'a option" where
  "first xs = (case xs of [] \<Rightarrow> None | x # _ \<Rightarrow> Some x)"

lemma first_simps [simp]:
  "first [] = None"
  "first (x # xs) = Some x"
  by (simp_all add: first_def)

lemma first_eq_None_iff [simp]: "first xs = None \<longleftrightarrow> xs = []"
  by (simp add: first_def split: list.splits)

lemma first_SomeD: "first xs = Some x \<Longrightarrow> x \<in> set xs"
  by (auto simp: first_def split: list.splits)

text \<open>Python's \<open>x or y\<close> on an optional string: the empty string is falsy.\<close>

definition or_str :: "pstr option \<Rightarrow> pstr \<Rightarrow> pstr" where
  "or_str x y = (case x of None \<Rightarrow> y | Some s \<Rightarrow> if s = [] then y else s)"

lemma distinct_map_filter: "distinct (map f xs) \<Longrightarrow> distinct (map f (filter P xs))"
  by (induction xs) auto

lemma map_eq_on_keys:
  assumes "\<And>x. x \<in> set xs \<Longrightarrow> f (g x) = f x"
  shows "map f (map g xs) = map f xs"
  using assms by simp

lemma distinct_key_eq:
  "distinct (map k xs) \<Longrightarrow> x \<in> set xs \<Longrightarrow> y \<in> set xs \<Longrightarrow> k x = k y \<Longrightarrow> x = y"
  by (simp add: distinct_map inj_on_def)

section \<open>Slices\<close>

text \<open>\<open>[s[i : i + n] for i in range(0, len(s), n)]\<close>\<close>

definition chunks_of :: "nat \<Rightarrow> 'a list \<Rightarrow> 'a list list" where
  "chunks_of n s = map (\<lambda>i. take n (drop (i * n) s)) [0..<(length s + n - 1) div n]"

lemma concat_slices:
  "concat (map (\<lambda>p. take n (drop (p * n) xs)) [0..<k]) = take (k * n) xs"
  by (induction k) (simp_all add: take_add [symmetric] add.commute)

lemma concat_chunks: "0 < n \<Longrightarrow> concat (chunks_of n s) = s"
proof -
  assume n: "0 < n"
  have "length s \<le> (length s + n - 1) div n * n"
    using n dividend_less_div_times [OF n, of "length s + n - 1"] by linarith
  then show ?thesis by (simp add: chunks_of_def concat_slices)
qed

lemma chunks_of_length:
  assumes "0 < n" and "c \<in> set (chunks_of n s)"
  shows "c \<noteq> [] \<and> length c \<le> n"
proof -
  obtain i where i: "i < (length s + n - 1) div n" "c = take n (drop (i * n) s)"
    using assms(2) by (auto simp: chunks_of_def)
  have "Suc i * n \<le> length s + n - 1"
    using i(1) assms(1) by (meson Suc_leI div_times_less_eq_dividend le_trans mult_le_mono1)
  then have "i * n < length s" using assms(1) by simp
  with assms(1) show ?thesis by (simp add: i(2))
qed

section \<open>Dictionaries\<close>

text \<open>A \<open>dict\<close> keeps the order in which its keys were first set: \<open>d[k] = v\<close>,
  \<open>d.get(k)\<close> (that is \<open>map_of\<close>) and \<open>d.pop(k, None)\<close>.\<close>

fun dict_set :: "'k \<Rightarrow> 'v \<Rightarrow> ('k \<times> 'v) list \<Rightarrow> ('k \<times> 'v) list" where
  "dict_set k v [] = [(k, v)]"
| "dict_set k v ((a, b) # d) = (if a = k then (a, v) # d else (a, b) # dict_set k v d)"

definition dict_pop :: "'k \<Rightarrow> ('k \<times> 'v) list \<Rightarrow> ('k \<times> 'v) list" where
  "dict_pop k d = filter (\<lambda>p. fst p \<noteq> k) d"

lemma map_of_dict_set: "map_of (dict_set k v d) = (map_of d)(k \<mapsto> v)"
  by (induction d) auto

lemma keys_dict_set: "map fst (dict_set k v d) = map fst d @ (if k \<in> fst ` set d then [] else [k])"
  by (induction d) (auto simp: rev_image_eqI)

lemma length_dict_set:
  "length (dict_set k v d) = length d + (if k \<in> fst ` set d then 0 else 1)"
  using arg_cong [OF keys_dict_set, of length k v d] by simp

lemma distinct_dict_set: "distinct (map fst d) \<Longrightarrow> distinct (map fst (dict_set k v d))"
  by (auto simp: keys_dict_set)

lemma length_dict_pop: "length (dict_pop k d) \<le> length d"
  by (simp add: dict_pop_def)

lemma map_of_dict_pop: "map_of (dict_pop k d) = (map_of d)(k := None)"
  by (induction d) (auto simp: dict_pop_def fun_eq_iff)

lemma distinct_dict_pop: "distinct (map fst d) \<Longrightarrow> distinct (map fst (dict_pop k d))"
  by (simp add: dict_pop_def distinct_map_filter)

end
