(* ===== verification/Sql_Table.thy ===== *)
theory Sql_Table
  imports Py_Base "HOL-Library.Multiset"
begin

text \<open>
  The part of SQL the DAOs are written in.  A table is the list of its rows in physical
  order (an order nothing is known about); a statement is a function on that list.
  \<open>WHERE\<close> is a predicate that is true only where SQL's condition is true (a comparison
  with \<open>NULL\<close> is not), \<open>SET\<close> is a function on rows that reads the old row.
  \<open>rowcount\<close> and \<open>RETURNING\<close> are what the driver reports for the rows that matched.

  The locale \<open>keyed_update\<close> is the contract of an \<open>UPDATE\<close> that keeps the primary
  key, \<open>guarded_update\<close> of one that also keeps a row predicate on the rows it matches.
\<close>

definition sql_where :: "('r \<Rightarrow> bool) \<Rightarrow> 'r list \<Rightarrow> 'r list" where
  "sql_where G rs = filter G rs"

definition sql_update :: "('r \<Rightarrow> bool) \<Rightarrow> ('r \<Rightarrow> 'r) \<Rightarrow> 'r list \<Rightarrow> 'r list" where
  "sql_update G S rs = map (\<lambda>r. if G r then S r else r) rs"

definition sql_rowcount :: "('r \<Rightarrow> bool) \<Rightarrow> 'r list \<Rightarrow> int" where
  "sql_rowcount G rs = int (length (filter G rs))"

definition sql_returning :: "('r \<Rightarrow> bool) \<Rightarrow> ('r \<Rightarrow> 'r) \<Rightarrow> ('r \<Rightarrow> 'a) \<Rightarrow> 'r list \<Rightarrow> 'a list" where
  "sql_returning G S f rs = map (\<lambda>r. f (S r)) (filter G rs)"

definition sql_delete :: "('r \<Rightarrow> bool) \<Rightarrow> 'r list \<Rightarrow> 'r list" where
  "sql_delete G rs = filter (\<lambda>r. \<not> G r) rs"

text \<open>\<open>ORDER BY key ASC LIMIT n\<close>: ties keep the physical order.\<close>

definition sql_order_limit :: "('r \<Rightarrow> 'k::linorder) \<Rightarrow> int \<Rightarrow> 'r list \<Rightarrow> 'r list" where
  "sql_order_limit key n rs = take (nat n) (sort_key key rs)"

text \<open>The row a primary key selects.\<close>

definition by_key :: "('r \<Rightarrow> 'k) \<Rightarrow> 'k \<Rightarrow> 'r list \<Rightarrow> 'r option" where
  "by_key key k rs = first (sql_where (\<lambda>r. key r = k) rs)"

section \<open>Facts on single statements\<close>

lemma length_sql_update [simp]: "length (sql_update G S rs) = length rs"
  by (simp add: sql_update_def)

lemma sql_update_Nil [simp]: "sql_update G S [] = []"
  by (simp add: sql_update_def)

lemma sql_update_Cons [simp]:
  "sql_update G S (r # rs) = (if G r then S r else r) # sql_update G S rs"
  by (simp add: sql_update_def)

lemma in_sql_updateD:
  "r \<in> set (sql_update G S rs) \<Longrightarrow> \<exists>q \<in> set rs. r = (if G q then S q else q)"
  by (auto simp: sql_update_def)

lemma sql_update_none: "\<forall>r \<in> set rs. \<not> G r \<Longrightarrow> sql_update G S rs = rs"
  by (induction rs) auto

lemma sql_rowcount_nonneg [simp]: "0 \<le> sql_rowcount G rs"
  by (simp add: sql_rowcount_def)

lemma sql_rowcount_pos_iff: "0 < sql_rowcount G rs \<longleftrightarrow> (\<exists>r \<in> set rs. G r)"
  by (auto simp: sql_rowcount_def filter_empty_conv)

lemma sql_rowcount_zero_iff: "sql_rowcount G rs = 0 \<longleftrightarrow> (\<forall>r \<in> set rs. \<not> G r)"
  by (auto simp: sql_rowcount_def filter_empty_conv)

lemma set_sql_where [simp]: "set (sql_where G rs) = {r \<in> set rs. G r}"
  by (auto simp: sql_where_def)

lemma set_sql_delete [simp]: "set (sql_delete G rs) = {r \<in> set rs. \<not> G r}"
  by (auto simp: sql_delete_def)

lemma distinct_key_delete: "distinct (map k rs) \<Longrightarrow> distinct (map k (sql_delete G rs))"
  by (simp add: sql_delete_def distinct_map_filter)

lemma by_key_Nil [simp]: "by_key key k [] = None"
  by (simp add: by_key_def sql_where_def)

lemma by_key_Cons [simp]:
  "by_key key k (r # rs) = (if key r = k then Some r else by_key key k rs)"
  by (simp add: by_key_def sql_where_def)

lemma by_key_SomeD: "by_key key k rs = Some r \<Longrightarrow> r \<in> set rs \<and> key r = k"
  by (induction rs) (auto split: if_splits)

lemma by_key_None_iff: "by_key key k rs = None \<longleftrightarrow> k \<notin> key ` set rs"
  by (induction rs) auto

lemma by_key_append:
  "by_key key k (rs @ qs) = (case by_key key k rs of None \<Rightarrow> by_key key k qs | Some r \<Rightarrow> Some r)"
  by (induction rs) auto

lemma by_key_in:
  "distinct (map key rs) \<Longrightarrow> r \<in> set rs \<Longrightarrow> by_key key (key r) rs = Some r"
  by (induction rs) force+

lemma by_key_Some_iff:
  "distinct (map key rs) \<Longrightarrow> by_key key k rs = Some r \<longleftrightarrow> r \<in> set rs \<and> key r = k"
  using by_key_SomeD by_key_in by metis

lemma by_key_delete:
  "by_key key k (sql_delete (\<lambda>r. key r = d) rs) = (if k = d then None else by_key key k rs)"
  by (induction rs) (auto simp: sql_delete_def)

text \<open>At most one row has a given key.\<close>

lemma filter_key_cases:
  assumes "distinct (map key rs)"
  shows "filter (\<lambda>r. key r = k \<and> P r) rs =
    (case by_key key k rs of None \<Rightarrow> [] | Some r \<Rightarrow> if P r then [r] else [])"
  using assms
proof (induction rs)
  case (Cons a rs)
  have "by_key key (key a) rs = None"
    using Cons.prems by (simp add: by_key_None_iff)
  with Cons show ?case by auto
qed simp

lemma set_sql_order_limit: "set (sql_order_limit key n rs) \<subseteq> set rs"
  unfolding sql_order_limit_def by (metis set_sort set_take_subset)

lemma length_sql_order_limit: "length (sql_order_limit key n rs) \<le> nat n"
  by (simp add: sql_order_limit_def)

text \<open>What the limit keeps is no later in the order than what it leaves out.\<close>

lemma sql_order_limit_least:
  assumes x: "x \<in> set (sql_order_limit key n rs)"
    and y: "y \<in> set rs" "y \<notin> set (sql_order_limit key n rs)"
  shows "key x \<le> key y"
proof -
  let ?s = "sort_key key rs"
  have "y \<in> set ?s" using y(1) by simp
  then have "y \<in> set (drop (nat n) ?s)"
    using y(2) unfolding sql_order_limit_def
    by (metis append_take_drop_id Un_iff set_append)
  moreover have "sorted (map key (take (nat n) ?s @ drop (nat n) ?s))"
    by simp
  ultimately show ?thesis
    using x unfolding sql_order_limit_def map_append sorted_append by auto
qed

lemma length_sql_order_limit_eq:
  "length (sql_order_limit key n rs) = min (nat n) (length rs)"
  by (simp add: sql_order_limit_def min_def)

lemma distinct_sql_order_limit:
  assumes "distinct (map k rs)"
  shows "distinct (map k (sql_order_limit key n rs))"
proof -
  have "mset (map k (sort_key key rs)) = mset (map k rs)"
    by simp
  then have "distinct (map k (sort_key key rs))"
    using assms by (metis mset_eq_imp_distinct_iff)
  then show ?thesis
    unfolding sql_order_limit_def by (simp add: take_map [symmetric])
qed

section \<open>The contract of an UPDATE\<close>

locale keyed_update =
  fixes key :: "'r \<Rightarrow> 'k"
    and G :: "'r \<Rightarrow> bool"
    and S :: "'r \<Rightarrow> 'r"
  assumes key_kept: "key (S r) = key r"
begin

lemma keys_update [simp]: "map key (sql_update G S rs) = map key rs"
  by (induction rs) (auto simp: key_kept)

lemma by_key_update:
  "by_key key k (sql_update G S rs) = map_option (\<lambda>r. if G r then S r else r) (by_key key k rs)"
  by (induction rs) (auto simp: key_kept)

lemma frame_update: "r \<in> set rs \<Longrightarrow> \<not> G r \<Longrightarrow> r \<in> set (sql_update G S rs)"
  by (force simp: sql_update_def)

end

locale guarded_update = keyed_update key G S
  for key :: "'r \<Rightarrow> 'k" and ok :: "'r \<Rightarrow> bool"
    and G :: "'r \<Rightarrow> bool" and S :: "'r \<Rightarrow> 'r" +
  assumes ok_kept: "ok r \<Longrightarrow> G r \<Longrightarrow> ok (S r)"
begin

lemma all_ok_update: "list_all ok rs \<Longrightarrow> list_all ok (sql_update G S rs)"
  by (induction rs) (auto simp: ok_kept)

end

end
