(* ===== verification/Task_Types.thy ===== *)
theory Task_Types
  imports Sql_Table
begin

text \<open>
  The data model: \<open>api/repository/dao/task_types.py\<close> (the status enumeration and its
  sets), the SQLModel classes \<open>Task\<close> and \<open>Recording\<close>, and the database that holds
  the two tables.  A \<open>status\<close> column only ever receives the \<open>.value\<close> of a
  \<open>TaskStatus\<close>, so the row keeps the member; \<open>status_value\<close> is its text and
  \<open>TaskStatus_of\<close> the constructor \<open>TaskStatus(text)\<close>, which raises on any other text.
\<close>

section \<open>Statuses\<close>

datatype TaskStatus = PENDING | TRANSCRIBING | SUMMARIZING | DONE | FAILED

fun status_value :: "TaskStatus \<Rightarrow> pstr" where
  "status_value PENDING = asc ''pending''"
| "status_value TRANSCRIBING = asc ''transcribing''"
| "status_value SUMMARIZING = asc ''summarizing''"
| "status_value DONE = asc ''done''"
| "status_value FAILED = asc ''failed''"

text \<open>The members in the order of the class, which is how Python goes through an \<open>Enum\<close>.\<close>

instantiation TaskStatus :: enum
begin

definition enum_TaskStatus :: "TaskStatus list" where
  "enum_TaskStatus = [PENDING, TRANSCRIBING, SUMMARIZING, DONE, FAILED]"

definition enum_all_TaskStatus :: "(TaskStatus \<Rightarrow> bool) \<Rightarrow> bool" where
  "enum_all_TaskStatus P \<longleftrightarrow> list_all P enum_class.enum"

definition enum_ex_TaskStatus :: "(TaskStatus \<Rightarrow> bool) \<Rightarrow> bool" where
  "enum_ex_TaskStatus P \<longleftrightarrow> list_ex P enum_class.enum"

instance
proof
  have all: "s \<in> set enum_class.enum" for s :: TaskStatus
    by (cases s) (simp_all add: enum_TaskStatus_def)
  then show "(UNIV :: TaskStatus set) = set enum_class.enum" by blast
  show "distinct (enum_class.enum :: TaskStatus list)" by (simp add: enum_TaskStatus_def)
  show "enum_class.enum_all P \<longleftrightarrow> Ball UNIV P" for P :: "TaskStatus \<Rightarrow> bool"
    using all by (auto simp: enum_all_TaskStatus_def list_all_iff)
  show "enum_class.enum_ex P \<longleftrightarrow> Bex UNIV P" for P :: "TaskStatus \<Rightarrow> bool"
    using all by (auto simp: enum_ex_TaskStatus_def list_ex_iff)
qed

end

definition TaskStatus_of :: "pstr \<Rightarrow> exn + TaskStatus" where
  "TaskStatus_of s =
     (case first (filter (\<lambda>m. status_value m = s) enum_class.enum) of
        Some m \<Rightarrow> Inr m
      | None \<Rightarrow> Inl (ValueError s))"

definition IN_FLIGHT_STATUSES :: "TaskStatus list" where
  "IN_FLIGHT_STATUSES = [TRANSCRIBING, SUMMARIZING]"

definition RECOVERABLE_STATUSES :: "TaskStatus list" where
  "RECOVERABLE_STATUSES = [PENDING] @ IN_FLIGHT_STATUSES"

definition TERMINAL_STATUSES :: "TaskStatus list" where
  "TERMINAL_STATUSES = [DONE, FAILED]"

lemma in_flight_iff [simp]:
  "s \<in> set IN_FLIGHT_STATUSES \<longleftrightarrow> s = TRANSCRIBING \<or> s = SUMMARIZING"
  by (auto simp: IN_FLIGHT_STATUSES_def)

lemma recoverable_iff [simp]:
  "s \<in> set RECOVERABLE_STATUSES \<longleftrightarrow> s = PENDING \<or> s = TRANSCRIBING \<or> s = SUMMARIZING"
  by (auto simp: RECOVERABLE_STATUSES_def)

lemma terminal_iff: "s \<in> set TERMINAL_STATUSES \<longleftrightarrow> s \<notin> set RECOVERABLE_STATUSES"
  by (cases s) (auto simp: TERMINAL_STATUSES_def)

lemma status_value_inj: "status_value s = status_value s' \<Longrightarrow> s = s'"
  by (cases s; cases s') (simp_all add: asc_def)

lemma TaskStatus_of_value: "TaskStatus_of (status_value s) = Inr s"
  by (cases s) (simp_all add: TaskStatus_of_def enum_TaskStatus_def asc_def)

section \<open>Rows and tables\<close>

record task =
  task_id :: uuid
  recording_id :: uuid
  status :: TaskStatus
  retry_count :: int
  locked_by :: "pstr option"
  next_retry_at :: time
  lease_expires_at :: "time option"
  transcript :: "pstr option"
  error_msg :: "pstr option"
  task_created_at :: time
  task_updated_at :: time
  summary :: "json option"

record recording =
  rec_id :: uuid
  file_name :: pstr
  file_path :: pstr
  file_size :: int
  file_hash :: pstr
  rec_created_at :: time
  rec_updated_at :: time

record database =
  recordings :: "recording list"
  tasks :: "task list"

text \<open>
  The clock of a transaction: \<open>now\<close> is the true time at its start (\<open>now()\<close>, and
  Python's \<open>datetime.now(timezone.utc)\<close>), \<open>tz_off\<close> the offset of the database
  session's \<open>TimeZone\<close> from UTC.
\<close>

record clock =
  now :: time
  tz_off :: time

definition seconds :: "int \<Rightarrow> time" where
  "seconds n = n * 1000000"

definition utcnow :: "clock \<Rightarrow> time" where
  "utcnow ck = now ck"

text \<open>
  \<open>timezone('utc', now())\<close> is a timestamp \<^emph>\<open>without\<close> time zone that shows UTC; where it
  meets a \<open>timestamptz\<close> column PostgreSQL reads it in the session's time zone, which
  subtracts the session's offset.
\<close>

definition sql_utc_now :: "clock \<Rightarrow> time" where
  "sql_utc_now ck = now ck - tz_off ck"

definition make_interval_secs :: "int \<Rightarrow> time" where
  "make_interval_secs s = seconds s"

lemma seconds_pos_iff [simp]: "0 < seconds n \<longleftrightarrow> 0 < n"
  by (simp add: seconds_def)

lemma seconds_le_iff [simp]: "seconds a \<le> seconds b \<longleftrightarrow> a \<le> b"
  by (simp add: seconds_def)

text \<open>\<open>Task(recording_id=...)\<close> and \<open>Recording(...)\<close> with the defaults of their fields;
  the fresh \<open>uuid4()\<close> is an argument.\<close>

definition new_task :: "clock \<Rightarrow> uuid \<Rightarrow> uuid \<Rightarrow> task" where
  "new_task ck tid rid =
     \<lparr>task_id = tid, recording_id = rid, status = PENDING, retry_count = 0, locked_by = None,
      next_retry_at = utcnow ck, lease_expires_at = None, transcript = None, error_msg = None,
      task_created_at = utcnow ck, task_updated_at = utcnow ck, summary = None\<rparr>"

definition new_recording :: "clock \<Rightarrow> uuid \<Rightarrow> pstr \<Rightarrow> pstr \<Rightarrow> int \<Rightarrow> pstr \<Rightarrow> recording" where
  "new_recording ck rid name path sz hash =
     \<lparr>rec_id = rid, file_name = name, file_path = path, file_size = sz, file_hash = hash,
      rec_created_at = utcnow ck, rec_updated_at = utcnow ck\<rparr>"

section \<open>The invariant of the data\<close>

text \<open>
  What every row of \<open>tasks\<close> satisfies: exactly the tasks being processed have an owner
  and a lease; a stored summary and the status \<open>done\<close> are the same thing; a failed task
  says why; a task that is summarizing has its transcript.  \<open>M\<close> bounds
  \<open>WORKER_MAX_RETRIES\<close> over the workers that share the table: only a failed task has
  counted more than \<open>M\<close> failures, and then exactly one more at most.
\<close>

definition task_ok :: "nat \<Rightarrow> task \<Rightarrow> bool" where
  "task_ok M t \<longleftrightarrow>
     (status t \<in> set IN_FLIGHT_STATUSES \<longleftrightarrow> locked_by t \<noteq> None) \<and>
     (lease_expires_at t = None \<longleftrightarrow> locked_by t = None) \<and>
     (summary t \<noteq> None \<longleftrightarrow> status t = DONE) \<and>
     (status t = FAILED \<longrightarrow> error_msg t \<noteq> None) \<and>
     (status t = DONE \<longrightarrow> error_msg t = None) \<and>
     (status t = SUMMARIZING \<longrightarrow> transcript t \<noteq> None) \<and>
     0 \<le> retry_count t \<and>
     retry_count t \<le> int M + (if status t = FAILED then 1 else 0)"

definition db_ok :: "nat \<Rightarrow> database \<Rightarrow> bool" where
  "db_ok M db \<longleftrightarrow>
     distinct (map rec_id (recordings db)) \<and>
     distinct (map file_hash (recordings db)) \<and>
     distinct (map task_id (tasks db)) \<and>
     distinct (map recording_id (tasks db)) \<and>
     recording_id ` set (tasks db) \<subseteq> rec_id ` set (recordings db) \<and>
     list_all (task_ok M) (tasks db)"

definition empty_db :: database where
  "empty_db = \<lparr>recordings = [], tasks = []\<rparr>"

lemma db_ok_empty: "db_ok M empty_db"
  by (simp add: db_ok_def empty_db_def)

lemma task_ok_new: "task_ok M (new_task ck tid rid)"
  by (simp add: task_ok_def new_task_def)

lemma db_ok_taskD: "db_ok M db \<Longrightarrow> t \<in> set (tasks db) \<Longrightarrow> task_ok M t"
  by (simp add: db_ok_def list_all_iff)

lemma db_ok_by_key:
  "db_ok M db \<Longrightarrow> by_key task_id k (tasks db) = Some t \<longleftrightarrow> t \<in> set (tasks db) \<and> task_id t = k"
  by (simp add: db_ok_def by_key_Some_iff)

lemma task_ok_mono: "task_ok M t \<Longrightarrow> M \<le> N \<Longrightarrow> task_ok N t"
  by (auto simp: task_ok_def)

end
