(* ===== verification/Task_Dao.thy ===== *)
theory Task_Dao
  imports Task_Types
begin

text \<open>
  \<open>api/repository/dao/task.py\<close>: the statements of \<open>TaskDao\<close>.  Each \<open>UPDATE\<close> is
  its \<open>WHERE\<close> (\<open>..._guard\<close>) and its \<open>SET\<close> (\<open>..._set\<close>); each method runs its statements
  on the database of the caller's transaction and returns what the method returns beside the
  new database.  Every guard and assignment is an interpretation of the contract
  \<open>guarded_update\<close> with the row invariant \<open>task_ok\<close>.
\<close>

section \<open>Reading\<close>

definition get_by_id :: "database \<Rightarrow> uuid \<Rightarrow> task option" where
  [dao_defs]: "get_by_id db tid = by_key task_id tid (tasks db)"

definition get_by_recording :: "database \<Rightarrow> uuid \<Rightarrow> task option" where
  [dao_defs]: "get_by_recording db rid = first (sql_where (\<lambda>t. recording_id t = rid) (tasks db))"

definition list_by_recording_ids :: "database \<Rightarrow> uuid list \<Rightarrow> task list" where
  [dao_defs]: "list_by_recording_ids db rids =
     (if rids = [] then [] else sql_where (\<lambda>t. recording_id t \<in> set rids) (tasks db))"

section \<open>Inserting and deleting\<close>

text \<open>
  \<open>add\<close> and \<open>flush\<close>: the constraints of the table are the primary key, the unique index
  on \<open>recording_id\<close> and the foreign key to \<open>recordings.id\<close>.
\<close>

definition create_task :: "database \<Rightarrow> task \<Rightarrow> exn + task \<times> database" where
  [dao_defs]: "create_task db t =
     (if task_id t \<in> task_id ` set (tasks db) then Inl (IntegrityError (asc ''tasks_pkey''))
      else if recording_id t \<in> recording_id ` set (tasks db)
        then Inl (IntegrityError (asc ''ix_tasks_recording_id''))
      else if recording_id t \<notin> rec_id ` set (recordings db)
        then Inl (IntegrityError (asc ''tasks_recording_id_fkey''))
      else Inr (t, db\<lparr>tasks := tasks db @ [t]\<rparr>))"

definition delete_by_recording :: "database \<Rightarrow> uuid \<Rightarrow> int \<times> database" where
  [dao_defs]: "delete_by_recording db rid =
     (sql_rowcount (\<lambda>t. recording_id t = rid) (tasks db),
      db\<lparr>tasks := sql_delete (\<lambda>t. recording_id t = rid) (tasks db)\<rparr>)"

section \<open>Claiming\<close>

text \<open>
  \<open>SELECT id ... FOR UPDATE SKIP LOCKED\<close>: \<open>lk\<close> says which rows other open
  transactions hold locked.  The rows picked stay locked until the transaction ends, so the
  \<open>UPDATE\<close> that follows sees them as they were picked.
\<close>

definition pick_guard :: "clock \<Rightarrow> (uuid \<Rightarrow> bool) \<Rightarrow> task \<Rightarrow> bool" where
  [row_defs]: "pick_guard ck lk t \<longleftrightarrow>
     status t = PENDING \<and> next_retry_at t \<le> sql_utc_now ck \<and> \<not> lk (task_id t)"

definition pick_pending :: "clock \<Rightarrow> (uuid \<Rightarrow> bool) \<Rightarrow> int \<Rightarrow> database \<Rightarrow> uuid list" where
  [dao_defs]: "pick_pending ck lk limit db =
     map task_id (sql_order_limit task_created_at limit (sql_where (pick_guard ck lk) (tasks db)))"

definition claim_guard :: "uuid list \<Rightarrow> task \<Rightarrow> bool" where
  [row_defs]: "claim_guard ids t \<longleftrightarrow> task_id t \<in> set ids"

definition claim_set :: "clock \<Rightarrow> pstr \<Rightarrow> int \<Rightarrow> task \<Rightarrow> task" where
  [row_defs]: "claim_set ck w lease t =
     t\<lparr>status := TRANSCRIBING, locked_by := Some w,
       lease_expires_at := Some (sql_utc_now ck + make_interval_secs lease),
       task_updated_at := sql_utc_now ck\<rparr>"

definition claim_rows :: "clock \<Rightarrow> pstr \<Rightarrow> int \<Rightarrow> uuid list \<Rightarrow> database \<Rightarrow> uuid list \<times> database" where
  [dao_defs]: "claim_rows ck w lease ids db =
     (sql_returning (claim_guard ids) (claim_set ck w lease) task_id (tasks db),
      db\<lparr>tasks := sql_update (claim_guard ids) (claim_set ck w lease) (tasks db)\<rparr>)"

definition claim_pending ::
  "clock \<Rightarrow> (uuid \<Rightarrow> bool) \<Rightarrow> int \<Rightarrow> pstr \<Rightarrow> int \<Rightarrow> database \<Rightarrow> uuid list \<times> database" where
  [dao_defs]: "claim_pending ck lk limit w lease db =
     (if limit \<le> 0 then ([], db)
      else let ids = pick_pending ck lk limit db
           in if ids = [] then ([], db) else claim_rows ck w lease ids db)"

section \<open>Steps of the lease owner\<close>

definition owner_guard :: "uuid \<Rightarrow> pstr \<Rightarrow> task \<Rightarrow> bool" where
  [row_defs]: "owner_guard tid w t \<longleftrightarrow> task_id t = tid \<and> locked_by t = Some w"

definition renew_set :: "clock \<Rightarrow> int \<Rightarrow> task \<Rightarrow> task" where
  [row_defs]: "renew_set ck lease t =
     t\<lparr>lease_expires_at := Some (sql_utc_now ck + make_interval_secs lease),
       task_updated_at := sql_utc_now ck\<rparr>"

definition renew_lease :: "clock \<Rightarrow> uuid \<Rightarrow> pstr \<Rightarrow> int \<Rightarrow> database \<Rightarrow> bool \<times> database" where
  [dao_defs]: "renew_lease ck tid w lease db =
     (sql_rowcount (owner_guard tid w) (tasks db) \<noteq> 0,
      db\<lparr>tasks := sql_update (owner_guard tid w) (renew_set ck lease) (tasks db)\<rparr>)"

definition summarizing_set :: "clock \<Rightarrow> pstr \<Rightarrow> task \<Rightarrow> task" where
  [row_defs]: "summarizing_set ck tr t =
     t\<lparr>status := SUMMARIZING, transcript := Some tr, task_updated_at := sql_utc_now ck\<rparr>"

definition mark_summarizing :: "clock \<Rightarrow> uuid \<Rightarrow> pstr \<Rightarrow> pstr \<Rightarrow> database \<Rightarrow> bool \<times> database" where
  [dao_defs]: "mark_summarizing ck tid w tr db =
     (sql_rowcount (owner_guard tid w) (tasks db) \<noteq> 0,
      db\<lparr>tasks := sql_update (owner_guard tid w) (summarizing_set ck tr) (tasks db)\<rparr>)"

definition done_set :: "clock \<Rightarrow> json \<Rightarrow> task \<Rightarrow> task" where
  [row_defs]: "done_set ck sm t =
     t\<lparr>status := DONE, summary := Some sm, locked_by := None, lease_expires_at := None,
       error_msg := None, task_updated_at := sql_utc_now ck\<rparr>"

definition mark_done :: "clock \<Rightarrow> uuid \<Rightarrow> pstr \<Rightarrow> json \<Rightarrow> database \<Rightarrow> bool \<times> database" where
  [dao_defs]: "mark_done ck tid w sm db =
     (sql_rowcount (owner_guard tid w) (tasks db) \<noteq> 0,
      db\<lparr>tasks := sql_update (owner_guard tid w) (done_set ck sm) (tasks db)\<rparr>)"

definition failure_set :: "clock \<Rightarrow> pstr \<Rightarrow> int \<Rightarrow> task \<Rightarrow> task" where
  [row_defs]: "failure_set ck msg max_retries t =
     (let new_count = retry_count t + 1; can_retry = new_count \<le> max_retries
      in t\<lparr>retry_count := new_count, error_msg := Some (take 1000 msg), locked_by := None,
           lease_expires_at := None, task_updated_at := sql_utc_now ck,
           status := (if can_retry then PENDING else FAILED),
           next_retry_at :=
             (if can_retry then sql_utc_now ck + make_interval_secs (2 ^ nat new_count)
              else next_retry_at t)\<rparr>)"

definition mark_failure ::
  "clock \<Rightarrow> uuid \<Rightarrow> pstr \<Rightarrow> pstr \<Rightarrow> int \<Rightarrow> database \<Rightarrow> (int \<times> TaskStatus) option \<times> database" where
  [dao_defs]: "mark_failure ck tid w msg max_retries db =
     (first (sql_returning (owner_guard tid w) (failure_set ck msg max_retries)
               (\<lambda>t. (retry_count t, status t)) (tasks db)),
      db\<lparr>tasks := sql_update (owner_guard tid w) (failure_set ck msg max_retries) (tasks db)\<rparr>)"

section \<open>Putting tasks back into the queue\<close>

definition requeue_guard :: "uuid \<Rightarrow> task \<Rightarrow> bool" where
  [row_defs]: "requeue_guard tid t \<longleftrightarrow> task_id t = tid \<and> status t = FAILED"

definition requeue_set :: "clock \<Rightarrow> task \<Rightarrow> task" where
  [row_defs]: "requeue_set ck t =
     t\<lparr>status := PENDING, retry_count := 0, error_msg := None, transcript := None,
       summary := None, locked_by := None, lease_expires_at := None,
       next_retry_at := sql_utc_now ck, task_updated_at := sql_utc_now ck\<rparr>"

definition requeue_failed :: "clock \<Rightarrow> uuid \<Rightarrow> database \<Rightarrow> task option \<times> database" where
  [dao_defs]: "requeue_failed ck tid db =
     (let db' = db\<lparr>tasks := sql_update (requeue_guard tid) (requeue_set ck) (tasks db)\<rparr>
      in case first (sql_returning (requeue_guard tid) (requeue_set ck) task_id (tasks db)) of
           None \<Rightarrow> (None, db')
         | Some i \<Rightarrow> (get_by_id db' i, db'))"

definition lease_expired :: "clock \<Rightarrow> task \<Rightarrow> bool" where
  [row_defs]: "lease_expired ck t \<longleftrightarrow>
     (case lease_expires_at t of None \<Rightarrow> False | Some e \<Rightarrow> e < sql_utc_now ck)"

definition reclaim_guard :: "clock \<Rightarrow> pstr \<Rightarrow> bool \<Rightarrow> task \<Rightarrow> bool" where
  [row_defs]: "reclaim_guard ck w include_own t \<longleftrightarrow>
     status t \<in> set IN_FLIGHT_STATUSES \<and>
     (if include_own then locked_by t = Some w \<or> lease_expired ck t else lease_expired ck t)"

definition release_set :: "clock \<Rightarrow> pstr \<Rightarrow> task \<Rightarrow> task" where
  [row_defs]: "release_set ck msg t =
     t\<lparr>status := PENDING, error_msg := Some msg, next_retry_at := sql_utc_now ck,
       locked_by := None, lease_expires_at := None, task_updated_at := sql_utc_now ck\<rparr>"

definition reclaim_in_flight :: "clock \<Rightarrow> pstr \<Rightarrow> bool \<Rightarrow> pstr \<Rightarrow> database \<Rightarrow> int \<times> database" where
  [dao_defs]: "reclaim_in_flight ck w include_own msg db =
     (sql_rowcount (reclaim_guard ck w include_own) (tasks db),
      db\<lparr>tasks := sql_update (reclaim_guard ck w include_own) (release_set ck msg) (tasks db)\<rparr>)"

definition aborted_guard :: "uuid list \<Rightarrow> pstr \<Rightarrow> task \<Rightarrow> bool" where
  [row_defs]: "aborted_guard ids w t \<longleftrightarrow>
     task_id t \<in> set ids \<and> status t \<in> set IN_FLIGHT_STATUSES \<and> locked_by t = Some w"

definition reset_aborted :: "clock \<Rightarrow> uuid list \<Rightarrow> pstr \<Rightarrow> pstr \<Rightarrow> database \<Rightarrow> int \<times> database" where
  [dao_defs]: "reset_aborted ck ids w msg db =
     (if ids = [] then (0, db)
      else (sql_rowcount (aborted_guard ids w) (tasks db),
            db\<lparr>tasks := sql_update (aborted_guard ids w) (release_set ck msg) (tasks db)\<rparr>))"

section \<open>The contract of the statements on tasks\<close>

text \<open>
  An \<open>UPDATE\<close> of \<open>tasks\<close> that keeps both unique columns and the row invariant
  keeps the invariant of the database.
\<close>

locale task_update = guarded_update task_id "task_ok M" G S
  for M :: nat and G :: "task \<Rightarrow> bool" and S :: "task \<Rightarrow> task" +
  assumes recording_kept: "recording_id (S t) = recording_id t"
begin

lemma recordings_update [simp]: "map recording_id (sql_update G S rs) = map recording_id rs"
  by (induction rs) (auto simp: recording_kept)

lemma db_ok_update:
  assumes "db_ok M db"
  shows "db_ok M (db\<lparr>tasks := sql_update G S (tasks db)\<rparr>)"
proof -
  have "recording_id ` set (sql_update G S (tasks db)) = recording_id ` set (tasks db)"
    by (simp only: set_map [symmetric] recordings_update)
  with assms show ?thesis
    by (simp add: db_ok_def all_ok_update)
qed

lemma get_by_id_update [simp]:
  "get_by_id (db\<lparr>tasks := sql_update G S (tasks db)\<rparr>) tid =
     map_option (\<lambda>t. if G t then S t else t) (get_by_id db tid)"
  by (simp add: get_by_id_def by_key_update)

end

interpretation claim_row: keyed_update task_id "claim_guard ids" "claim_set ck w lease"
  for ids ck w lease
  by unfold_locales (simp add: row_defs)

text \<open>The claim updates rows its own \<open>SELECT\<close> has just seen pending.\<close>

interpretation claim: task_update M "\<lambda>t. claim_guard ids t \<and> status t = PENDING" "claim_set ck w lease"
  for M ids ck w lease
  by unfold_locales (auto simp: row_defs task_ok_def)

interpretation renew: task_update M "owner_guard tid w" "renew_set ck lease"
  for M tid w ck lease
  by unfold_locales (auto simp: row_defs task_ok_def)

interpretation summarizing: task_update M "owner_guard tid w" "summarizing_set ck tr"
  for M tid w ck tr
  by unfold_locales (auto simp: row_defs task_ok_def)

interpretation finish: task_update M "owner_guard tid w" "done_set ck sm"
  for M tid w ck sm
  by unfold_locales (auto simp: row_defs task_ok_def split: if_splits)

interpretation failure: task_update "max M (nat m)" "owner_guard tid w" "failure_set ck msg m"
  for M m tid w ck msg
  by unfold_locales (auto simp: row_defs task_ok_def Let_def split: if_splits)

interpretation requeue: task_update M "requeue_guard tid" "requeue_set ck"
  for M tid ck
  by unfold_locales (auto simp: row_defs task_ok_def split: if_splits)

interpretation reclaim: task_update M "reclaim_guard ck w include_own" "release_set ck msg"
  for M ck w include_own msg
  by unfold_locales (auto simp: row_defs task_ok_def split: if_splits)

interpretation aborted: task_update M "aborted_guard ids w" "release_set ck msg"
  for M ids w ck msg
  by unfold_locales (auto simp: row_defs task_ok_def split: if_splits)

end
