(* ===== verification/Task_Queue.thy ===== *)
theory Task_Queue
  imports Task_Dao
begin

text \<open>
  What \<open>TaskDao\<close> promises as a queue: who owns a task, which tasks a claim takes and in
  what order, why two claims that overlap cannot take the same task, how failures are
  counted and spaced, and which rows each statement can touch.
\<close>

section \<open>Ownership\<close>

definition owns :: "database \<Rightarrow> pstr \<Rightarrow> uuid \<Rightarrow> bool" where
  "owns db w tid =
     (case get_by_id db tid of None \<Rightarrow> False | Some t \<Rightarrow> locked_by t = Some w)"

lemma sql_update_cong:
  "(\<And>r. r \<in> set rs \<Longrightarrow> G r \<longleftrightarrow> G' r) \<Longrightarrow> sql_update G S rs = sql_update G' S rs"
  by (simp add: sql_update_def)

lemma sql_returning_cong:
  "(\<And>r. r \<in> set rs \<Longrightarrow> G r \<longleftrightarrow> G' r) \<Longrightarrow> sql_returning G S f rs = sql_returning G' S f rs"
  by (simp add: sql_returning_def cong: filter_cong)

lemma get_by_id_SomeD:
  "get_by_id db tid = Some t \<Longrightarrow> t \<in> set (tasks db) \<and> task_id t = tid"
  unfolding get_by_id_def by (rule by_key_SomeD)

lemma get_by_id_task:
  "db_ok M db \<Longrightarrow> t \<in> set (tasks db) \<Longrightarrow> get_by_id db (task_id t) = Some t"
  unfolding get_by_id_def using db_ok_by_key [of M db "task_id t" t] by blast

lemma get_by_id_None_iff: "get_by_id db tid = None \<longleftrightarrow> tid \<notin> task_id ` set (tasks db)"
  by (simp add: get_by_id_def by_key_None_iff)

lemma owner_rowcount:
  assumes "db_ok M db"
  shows "sql_rowcount (owner_guard tid w) (tasks db) \<noteq> 0 \<longleftrightarrow> owns db w tid"
proof (cases "get_by_id db tid")
  case None
  then have "\<forall>t \<in> set (tasks db). \<not> owner_guard tid w t"
    by (auto simp: owner_guard_def get_by_id_None_iff)
  with None show ?thesis
    by (simp add: sql_rowcount_zero_iff owns_def)
next
  case (Some t)
  have "(\<exists>t' \<in> set (tasks db). owner_guard tid w t') \<longleftrightarrow> owner_guard tid w t"
    using Some get_by_id_task [OF assms] get_by_id_SomeD
    by (metis option.inject owner_guard_def)
  moreover have "owner_guard tid w t \<longleftrightarrow> locked_by t = Some w"
    using get_by_id_SomeD [OF Some] by (simp add: owner_guard_def)
  ultimately show ?thesis
    using Some by (simp add: sql_rowcount_zero_iff owns_def)
qed

lemma first_owner_returning:
  assumes "db_ok M db"
  shows "first (sql_returning (owner_guard tid w) S f (tasks db)) =
    (case get_by_id db tid of None \<Rightarrow> None
     | Some t \<Rightarrow> if locked_by t = Some w then Some (f (S t)) else None)"
proof -
  have "owner_guard tid w = (\<lambda>t. task_id t = tid \<and> locked_by t = Some w)"
    by (simp add: fun_eq_iff owner_guard_def)
  then show ?thesis
    using assms unfolding sql_returning_def get_by_id_def db_ok_def
    by (simp add: filter_key_cases split: option.splits)
qed

section \<open>Each method on the row it names\<close>

lemma renew_lease_result:
  "db_ok M db \<Longrightarrow> fst (renew_lease ck tid w lease db) \<longleftrightarrow> owns db w tid"
  by (simp add: renew_lease_def owner_rowcount)

lemma mark_summarizing_result:
  "db_ok M db \<Longrightarrow> fst (mark_summarizing ck tid w tr db) \<longleftrightarrow> owns db w tid"
  by (simp add: mark_summarizing_def owner_rowcount)

lemma mark_done_result:
  "db_ok M db \<Longrightarrow> fst (mark_done ck tid w sm db) \<longleftrightarrow> owns db w tid"
  by (simp add: mark_done_def owner_rowcount)

lemma mark_failure_result:
  "db_ok M db \<Longrightarrow> fst (mark_failure ck tid w msg m db) =
    (case get_by_id db tid of None \<Rightarrow> None
     | Some t \<Rightarrow> if locked_by t = Some w
                then Some (retry_count t + 1, if retry_count t + 1 \<le> m then PENDING else FAILED)
                else None)"
  by (simp add: mark_failure_def first_owner_returning failure_set_def Let_def split: option.splits)

lemma mark_failure_not_owned:
  assumes "db_ok M db" and "\<not> owns db w tid"
  shows "mark_failure ck tid w msg m db = (None, db)"
proof (rule prod_eqI)
  show "fst (mark_failure ck tid w msg m db) = fst (None, db)"
    using assms(2) by (auto simp: mark_failure_result [OF assms(1)] owns_def split: option.splits)
  show "snd (mark_failure ck tid w msg m db) = snd (None, db)"
    using owner_rowcount [OF assms(1), of tid w] assms(2)
    by (simp add: mark_failure_def sql_rowcount_zero_iff sql_update_none)
qed

lemma get_by_id_renew:
  "get_by_id (snd (renew_lease ck tid w lease db)) k =
    map_option (\<lambda>t. if owner_guard tid w t then renew_set ck lease t else t) (get_by_id db k)"
  by (simp add: renew_lease_def)

lemma get_by_id_summarizing:
  "get_by_id (snd (mark_summarizing ck tid w tr db)) k =
    map_option (\<lambda>t. if owner_guard tid w t then summarizing_set ck tr t else t) (get_by_id db k)"
  by (simp add: mark_summarizing_def)

lemma get_by_id_done:
  "get_by_id (snd (mark_done ck tid w sm db)) k =
    map_option (\<lambda>t. if owner_guard tid w t then done_set ck sm t else t) (get_by_id db k)"
  by (simp add: mark_done_def)

lemma get_by_id_failure:
  "get_by_id (snd (mark_failure ck tid w msg m db)) k =
    map_option (\<lambda>t. if owner_guard tid w t then failure_set ck msg m t else t) (get_by_id db k)"
  by (simp add: mark_failure_def)

lemma get_by_id_requeue:
  "get_by_id (snd (requeue_failed ck tid db)) k =
    map_option (\<lambda>t. if requeue_guard tid t then requeue_set ck t else t) (get_by_id db k)"
  by (simp add: requeue_failed_def Let_def split: option.splits)

lemma get_by_id_reclaim:
  "get_by_id (snd (reclaim_in_flight ck w own msg db)) k =
    map_option (\<lambda>t. if reclaim_guard ck w own t then release_set ck msg t else t) (get_by_id db k)"
  by (simp add: reclaim_in_flight_def)

lemma get_by_id_aborted:
  "get_by_id (snd (reset_aborted ck ids w msg db)) k =
    map_option (\<lambda>t. if aborted_guard ids w t then release_set ck msg t else t) (get_by_id db k)"
  by (auto simp: reset_aborted_def aborted_guard_def option.map_ident)

lemmas get_by_id_ops =
  get_by_id_renew get_by_id_summarizing get_by_id_done get_by_id_failure
  get_by_id_requeue get_by_id_reclaim get_by_id_aborted

lemma requeue_failed_result:
  assumes "db_ok M db"
  shows "fst (requeue_failed ck tid db) =
    (case get_by_id db tid of None \<Rightarrow> None
     | Some t \<Rightarrow> if status t = FAILED then Some (requeue_set ck t) else None)"
proof -
  have "requeue_guard tid = (\<lambda>t. task_id t = tid \<and> status t = FAILED)"
    by (simp add: fun_eq_iff requeue_guard_def)
  then have ret: "first (sql_returning (requeue_guard tid) (requeue_set ck) task_id (tasks db)) =
      (case get_by_id db tid of None \<Rightarrow> None | Some t \<Rightarrow> if status t = FAILED then Some tid else None)"
    using assms unfolding sql_returning_def get_by_id_def db_ok_def
    by (auto simp: filter_key_cases requeue_set_def dest: by_key_SomeD split: option.splits)
  then show ?thesis
    by (auto simp: requeue_failed_def Let_def requeue_guard_def
        dest: get_by_id_SomeD split: option.splits if_splits)
qed

section \<open>Claiming\<close>

definition eligible :: "clock \<Rightarrow> (uuid \<Rightarrow> bool) \<Rightarrow> database \<Rightarrow> task list" where
  "eligible ck lk db = sql_where (pick_guard ck lk) (tasks db)"

lemma pick_pending_eligible:
  "pick_pending ck lk limit db = map task_id (sql_order_limit task_created_at limit (eligible ck lk db))"
  by (simp add: pick_pending_def eligible_def)

lemma distinct_eligible: "db_ok M db \<Longrightarrow> distinct (map task_id (eligible ck lk db))"
  by (simp add: db_ok_def eligible_def sql_where_def distinct_map_filter)

lemma picked_task:
  assumes ok: "db_ok M db" and t: "t \<in> set (tasks db)"
    and p: "task_id t \<in> set (pick_pending ck lk limit db)"
  shows "t \<in> set (sql_order_limit task_created_at limit (eligible ck lk db))"
    and "pick_guard ck lk t"
proof -
  obtain t' where t': "t' \<in> set (sql_order_limit task_created_at limit (eligible ck lk db))"
    "task_id t' = task_id t"
    using p by (auto simp: pick_pending_eligible)
  have e: "t' \<in> set (eligible ck lk db)"
    using set_sql_order_limit [of task_created_at limit "eligible ck lk db"] t'(1) by blast
  then have "t' \<in> set (tasks db)" by (simp add: eligible_def)
  then have "t' = t"
    using ok t t'(2) by (auto simp: db_ok_def intro: distinct_key_eq)
  with t' e show "t \<in> set (sql_order_limit task_created_at limit (eligible ck lk db))"
    and "pick_guard ck lk t"
    by (simp_all add: eligible_def)
qed

lemma picked_get:
  assumes "db_ok M db" and "tid \<in> set (pick_pending ck lk limit db)"
  shows "\<exists>t. get_by_id db tid = Some t \<and> t \<in> set (eligible ck lk db) \<and> pick_guard ck lk t"
proof -
  obtain t where "t \<in> set (eligible ck lk db)" "task_id t = tid"
    using assms(2) set_sql_order_limit [of task_created_at limit "eligible ck lk db"]
    unfolding pick_pending_eligible by auto
  then show ?thesis
    using get_by_id_task [OF assms(1), of t] by (auto simp: eligible_def)
qed

text \<open>On the rows it picked, the claim is an interpretation of the contract.\<close>

lemma claim_rows_guard:
  assumes "db_ok M db" and "ids = pick_pending ck0 lk limit db"
  shows "snd (claim_rows ck w lease ids db) =
    db\<lparr>tasks := sql_update (\<lambda>t. claim_guard ids t \<and> status t = PENDING) (claim_set ck w lease) (tasks db)\<rparr>"
proof -
  have "sql_update (claim_guard ids) (claim_set ck w lease) (tasks db) =
      sql_update (\<lambda>t. claim_guard ids t \<and> status t = PENDING) (claim_set ck w lease) (tasks db)"
    using picked_task(2) [OF assms(1)] assms(2)
    by (intro sql_update_cong) (auto simp: claim_guard_def pick_guard_def)
  then show ?thesis
    by (simp add: claim_rows_def)
qed

lemma claim_pending_db:
  assumes "db_ok M db"
  shows "snd (claim_pending ck lk limit w lease db) =
    (let ids = (if limit \<le> 0 then [] else pick_pending ck lk limit db)
     in db\<lparr>tasks := sql_update (\<lambda>t. claim_guard ids t \<and> status t = PENDING)
             (claim_set ck w lease) (tasks db)\<rparr>)"
proof (cases "limit \<le> 0 \<or> pick_pending ck lk limit db = []")
  case True
  then have "snd (claim_pending ck lk limit w lease db) = db"
    by (auto simp: claim_pending_def Let_def)
  moreover have "sql_update (\<lambda>t. claim_guard [] t \<and> status t = PENDING) (claim_set ck w lease) (tasks db) = tasks db"
    by (rule sql_update_none) (simp add: claim_guard_def)
  ultimately show ?thesis
    using True by (auto simp: Let_def)
next
  case False
  then show ?thesis
    using claim_rows_guard [OF assms refl] by (simp add: claim_pending_def Let_def)
qed

lemma claim_rows_ids:
  assumes "db_ok M db" and "set ids \<subseteq> task_id ` set (tasks db)"
  shows "set (fst (claim_rows ck w lease ids db)) = set ids"
    and "distinct (fst (claim_rows ck w lease ids db))"
proof -
  have fst_eq: "fst (claim_rows ck w lease ids db) = map task_id (filter (claim_guard ids) (tasks db))"
    by (simp add: claim_rows_def sql_returning_def claim_set_def)
  show "set (fst (claim_rows ck w lease ids db)) = set ids"
    using assms(2) unfolding fst_eq by (auto simp: claim_guard_def)
  show "distinct (fst (claim_rows ck w lease ids db))"
    using assms(1) unfolding fst_eq by (simp add: db_ok_def distinct_map_filter)
qed

lemma pick_pending_ids: "set (pick_pending ck lk limit db) \<subseteq> task_id ` set (tasks db)"
  using set_sql_order_limit [of task_created_at limit "eligible ck lk db"]
  unfolding pick_pending_eligible by (auto simp: eligible_def)

lemma distinct_pick_pending:
  "db_ok M db \<Longrightarrow> distinct (pick_pending ck lk limit db)"
  unfolding pick_pending_eligible by (intro distinct_sql_order_limit distinct_eligible)

lemma length_claim_rows:
  assumes "db_ok M db" and "set ids \<subseteq> task_id ` set (tasks db)" and "distinct ids"
  shows "length (fst (claim_rows ck w lease ids db)) = length ids"
  using claim_rows_ids [OF assms(1,2)] assms(3) by (metis distinct_card)

lemma claim_pending_ids:
  assumes "db_ok M db"
  shows "set (fst (claim_pending ck lk limit w lease db)) =
      (if limit \<le> 0 then {} else set (pick_pending ck lk limit db))"
    and "distinct (fst (claim_pending ck lk limit w lease db))"
    and "length (fst (claim_pending ck lk limit w lease db)) = min (nat limit) (length (eligible ck lk db))"
proof -
  note rows = claim_rows_ids [OF assms pick_pending_ids]
  show "set (fst (claim_pending ck lk limit w lease db)) =
      (if limit \<le> 0 then {} else set (pick_pending ck lk limit db))"
    using rows(1) [where ck = ck and w = w and lease = lease] by (simp add: claim_pending_def Let_def)
  show "distinct (fst (claim_pending ck lk limit w lease db))"
    using rows(2) by (simp add: claim_pending_def Let_def)
  have "length (pick_pending ck lk limit db) = min (nat limit) (length (eligible ck lk db))"
    by (simp add: pick_pending_eligible length_sql_order_limit_eq)
  then show "length (fst (claim_pending ck lk limit w lease db)) = min (nat limit) (length (eligible ck lk db))"
    using length_claim_rows [OF assms pick_pending_ids distinct_pick_pending [OF assms], where ck = ck]
    by (auto simp: claim_pending_def Let_def)
qed

lemma get_by_id_claim:
  assumes "db_ok M db"
  shows "get_by_id (snd (claim_pending ck lk limit w lease db)) k =
    (if k \<in> set (fst (claim_pending ck lk limit w lease db))
     then map_option (claim_set ck w lease) (get_by_id db k) else get_by_id db k)"
proof (cases "get_by_id db k")
  case None
  then show ?thesis
    by (simp add: claim_pending_db [OF assms] Let_def)
next
  case (Some t)
  then have k: "task_id t = k" "t \<in> set (tasks db)"
    using get_by_id_SomeD by blast+
  have "pick_guard ck lk t" if "k \<in> set (pick_pending ck lk limit db)"
    using picked_task(2) [OF assms k(2)] that k(1) by blast
  then have st: "status t = PENDING" if "k \<in> set (pick_pending ck lk limit db)"
    using that by (simp add: pick_guard_def)
  show ?thesis
    unfolding claim_pending_db [OF assms] claim_pending_ids(1) [OF assms] Let_def
      claim.get_by_id_update Some
    using k(1) st by (simp add: claim_guard_def)
qed

lemma db_ok_claim: "db_ok M db \<Longrightarrow> db_ok M (snd (claim_pending ck lk limit w lease db))"
  by (simp add: claim_pending_db Let_def claim.db_ok_update)

text \<open>Every method keeps the invariant of the database.\<close>

lemma db_ok_renew: "db_ok M db \<Longrightarrow> db_ok M (snd (renew_lease ck tid w lease db))"
  by (simp add: renew_lease_def renew.db_ok_update)

lemma db_ok_summarizing: "db_ok M db \<Longrightarrow> db_ok M (snd (mark_summarizing ck tid w tr db))"
  by (simp add: mark_summarizing_def summarizing.db_ok_update)

lemma db_ok_done: "db_ok M db \<Longrightarrow> db_ok M (snd (mark_done ck tid w sm db))"
  by (simp add: mark_done_def finish.db_ok_update)

lemma db_ok_failure:
  assumes "db_ok M db" and "m \<le> int M"
  shows "db_ok M (snd (mark_failure ck tid w msg m db))"
proof -
  have "max M (nat m) = M" using assms(2) by simp
  then show ?thesis
    using failure.db_ok_update [of M m db tid w ck msg] assms(1) by (simp add: mark_failure_def)
qed

lemma db_ok_requeue: "db_ok M db \<Longrightarrow> db_ok M (snd (requeue_failed ck tid db))"
  by (simp add: requeue_failed_def Let_def requeue.db_ok_update split: option.splits)

lemma db_ok_reclaim: "db_ok M db \<Longrightarrow> db_ok M (snd (reclaim_in_flight ck w own msg db))"
  by (simp add: reclaim_in_flight_def reclaim.db_ok_update)

lemma db_ok_aborted: "db_ok M db \<Longrightarrow> db_ok M (snd (reset_aborted ck ids w msg db))"
  by (simp add: reset_aborted_def aborted.db_ok_update)

lemmas db_ok_ops [intro] =
  db_ok_claim db_ok_renew db_ok_summarizing db_ok_done db_ok_failure
  db_ok_requeue db_ok_reclaim db_ok_aborted

section \<open>Two claims that overlap\<close>

text \<open>
  A second claim whose \<open>SELECT\<close> runs while the first transaction is open skips the rows
  the first has locked; after the first has committed the same rows are no longer pending.
\<close>

lemma eligible_after_claim:
  assumes ok: "db_ok M db" and ids: "ids = pick_pending ck1 lk n1 db"
  shows "eligible ck lk (snd (claim_rows ck1 w1 l1 ids db)) = eligible ck (\<lambda>k. lk k \<or> k \<in> set ids) db"
proof -
  have "filter (pick_guard ck lk) (sql_update (claim_guard ids) (claim_set ck1 w1 l1) ts) =
      filter (pick_guard ck (\<lambda>k. lk k \<or> k \<in> set ids)) ts" for ts
    by (induction ts) (auto simp: pick_guard_def claim_guard_def claim_set_def)
  then show ?thesis
    by (simp add: eligible_def claim_rows_def sql_where_def)
qed

lemma pick_skips_locked:
  "set (pick_pending ck (\<lambda>k. lk k \<or> k \<in> A) n db) \<inter> A = {}"
  using set_sql_order_limit [of task_created_at n "eligible ck (\<lambda>k. lk k \<or> k \<in> A) db"]
  unfolding pick_pending_eligible by (auto simp: eligible_def pick_guard_def)

lemma claim_rows_commute:
  assumes "set ids1 \<inter> set ids2 = {}"
  shows "snd (claim_rows ck1 w1 l1 ids1 (snd (claim_rows ck2 w2 l2 ids2 db))) =
    snd (claim_rows ck2 w2 l2 ids2 (snd (claim_rows ck1 w1 l1 ids1 db)))"
proof -
  have "sql_update (claim_guard ids1) (claim_set ck1 w1 l1)
        (sql_update (claim_guard ids2) (claim_set ck2 w2 l2) ts) =
      sql_update (claim_guard ids2) (claim_set ck2 w2 l2)
        (sql_update (claim_guard ids1) (claim_set ck1 w1 l1) ts)" for ts
    using assms by (induction ts) (auto simp: claim_guard_def claim_set_def)
  then show ?thesis
    by (simp add: claim_rows_def)
qed

lemma claim_rows_Nil: "claim_rows ck w lease [] db = ([], db)"
  by (simp add: claim_rows_def claim_guard_def sql_returning_def sql_update_def)

lemma claim_pending_rows:
  "0 < n \<Longrightarrow> claim_pending ck lk n w lease db = claim_rows ck w lease (pick_pending ck lk n db) db"
  by (auto simp: claim_pending_def Let_def claim_rows_Nil)

section \<open>Failing again and again\<close>

text \<open>One attempt that fails: the task is claimed and the attempt ends in \<open>mark_failure\<close>.\<close>

definition failed_attempt ::
  "pstr \<Rightarrow> int \<Rightarrow> int \<Rightarrow> uuid \<Rightarrow> clock \<times> clock \<times> pstr \<Rightarrow> database \<Rightarrow> database" where
  "failed_attempt w lease m tid r db =
     (case r of (ck, ck', msg) \<Rightarrow>
        snd (mark_failure ck' tid w msg m (snd (claim_rows ck w lease [tid] db))))"

fun failed_attempts ::
  "pstr \<Rightarrow> int \<Rightarrow> int \<Rightarrow> uuid \<Rightarrow> (clock \<times> clock \<times> pstr) list \<Rightarrow> database \<Rightarrow> database" where
  "failed_attempts w lease m tid [] db = db"
| "failed_attempts w lease m tid (r # rs) db =
     failed_attempts w lease m tid rs (failed_attempt w lease m tid r db)"

lemma failed_attempt_row:
  assumes "get_by_id db tid = Some t"
  shows "get_by_id (failed_attempt w lease m tid (ck, ck', msg) db) tid =
    Some (failure_set ck' msg m (claim_set ck w lease t))"
proof -
  have t: "task_id t = tid" using get_by_id_SomeD [OF assms] by simp
  have "get_by_id (snd (claim_rows ck w lease [tid] db)) tid =
      map_option (\<lambda>t. if claim_guard [tid] t then claim_set ck w lease t else t) (get_by_id db tid)"
    by (simp add: claim_rows_def get_by_id_def claim_row.by_key_update)
  then show ?thesis
    using assms t by (simp add: failed_attempt_def get_by_id_failure owner_guard_def claim_guard_def claim_set_def)
qed

lemma failed_attempts_append:
  "failed_attempts w lease m tid (rs @ qs) db =
    failed_attempts w lease m tid qs (failed_attempts w lease m tid rs db)"
  by (induction rs arbitrary: db) auto

lemma failed_attempts_pending:
  assumes "get_by_id db tid = Some t" and "status t = PENDING" and "0 \<le> retry_count t"
    and "retry_count t + int (length rs) \<le> m"
  shows "\<exists>u. get_by_id (failed_attempts w lease m tid rs db) tid = Some u \<and>
    status u = PENDING \<and> retry_count u = retry_count t + int (length rs)"
  using assms
proof (induction rs arbitrary: db t)
  case (Cons r rs)
  obtain ck ck' msg where r: "r = (ck, ck', msg)" by (cases r)
  let ?t = "failure_set ck' msg m (claim_set ck w lease t)"
  have "get_by_id (failed_attempt w lease m tid r db) tid = Some ?t"
    unfolding r by (rule failed_attempt_row [OF Cons.prems(1)])
  moreover have "status ?t = PENDING" "retry_count ?t = retry_count t + 1"
    using Cons.prems(4) by (auto simp: failure_set_def claim_set_def Let_def)
  ultimately show ?case
    using Cons.IH [of "failed_attempt w lease m tid r db" ?t] Cons.prems(3,4) by auto
qed auto

end
