(* ===== verification/Sample_Data.thy ===== *)
theory Sample_Data
  imports Task_Queue
begin

text \<open>
  A small concrete database for the witnesses: three recordings with a pending task each for
  the first two (the second is the older one) and a task that worker \<open>w0\<close> is transcribing
  for the third, its lease expired at time 100.
\<close>

definition ck0 :: clock where
  "ck0 = \<lparr>now = 1000, tz_off = 0\<rparr>"

definition w0 :: pstr where "w0 = asc ''w0''"
definition w1 :: pstr where "w1 = asc ''w1''"

definition sample_recording :: "uuid \<Rightarrow> pstr \<Rightarrow> time \<Rightarrow> recording" where
  "sample_recording rid h c =
     new_recording \<lparr>now = c, tz_off = 0\<rparr> rid (asc ''demo.wav'') (asc ''/u/'' @ h) 4 h"

definition sample_task :: "uuid \<Rightarrow> uuid \<Rightarrow> time \<Rightarrow> task" where
  "sample_task tid rid c = new_task \<lparr>now = c, tz_off = 0\<rparr> tid rid"

definition busy_task :: task where
  "busy_task = (sample_task 13 3 50)\<lparr>status := TRANSCRIBING, locked_by := Some w0,
     lease_expires_at := Some 100\<rparr>"

definition failed_task :: task where
  "failed_task = (sample_task 14 4 60)\<lparr>status := FAILED, retry_count := 4,
     error_msg := Some (asc ''boom'')\<rparr>"

definition sample_db :: database where
  "sample_db =
     \<lparr>recordings = [sample_recording 1 (asc ''a'') 20, sample_recording 2 (asc ''b'') 10,
                    sample_recording 3 (asc ''c'') 50, sample_recording 4 (asc ''d'') 60],
      tasks = [sample_task 11 1 20, sample_task 12 2 10, busy_task, failed_task]\<rparr>"

lemmas sample_defs =
  ck0_def w0_def w1_def sample_recording_def sample_task_def busy_task_def failed_task_def
  sample_db_def new_recording_def new_task_def utcnow_def sql_utc_now_def

lemma sample_db_ok: "db_ok 3 sample_db"
  by (simp add: db_ok_def task_ok_def sample_defs asc_def)

lemma sample_get [simp]:
  "get_by_id sample_db 11 = Some (sample_task 11 1 20)"
  "get_by_id sample_db 12 = Some (sample_task 12 2 10)"
  "get_by_id sample_db 13 = Some busy_task"
  "get_by_id sample_db 14 = Some failed_task"
  by (simp_all add: get_by_id_def sample_db_def sample_task_def busy_task_def failed_task_def
      new_task_def)

lemma sample_pick:
  "pick_pending ck0 (\<lambda>_. False) 1 sample_db = [12]"
  "pick_pending ck0 (\<lambda>k. k = 12) 1 sample_db = [11]"
  by (simp_all add: pick_pending_def sql_order_limit_def sql_where_def pick_guard_def sample_defs)

end
