(* ===== verification/Queue_Properties.thy ===== *)
theory Queue_Properties
  imports Sample_Data
begin

text \<open>
  The properties of the task queue (\<open>api/repository/dao/task.py\<close>), each with its witness
  on the sample database.
\<close>

text \<open>C1: a claim takes exactly as many tasks as the limit and the number of claimable tasks
  allow, each of them pending, due and not locked by another transaction, the oldest first;
  it gives them to the worker as \<open>transcribing\<close> with a lease and changes no other task.\<close>

theorem claim_pending_spec:
  assumes ok: "db_ok M db"
    and claim: "claim_pending ck lk limit w lease db = (ids, db')"
  shows "distinct ids \<and>
    length ids = min (nat limit) (length (filter (\<lambda>t. status t = PENDING \<and>
        next_retry_at t \<le> sql_utc_now ck \<and> \<not> lk (task_id t)) (tasks db))) \<and>
    (\<forall>tid \<in> set ids. \<exists>t. get_by_id db tid = Some t \<and> status t = PENDING \<and>
        next_retry_at t \<le> sql_utc_now ck \<and> \<not> lk tid \<and>
        get_by_id db' tid = Some (t\<lparr>status := TRANSCRIBING, locked_by := Some w,
          lease_expires_at := Some (sql_utc_now ck + seconds lease),
          task_updated_at := sql_utc_now ck\<rparr>) \<and>
        (\<forall>u \<in> set (tasks db). status u = PENDING \<and> next_retry_at u \<le> sql_utc_now ck \<and>
           \<not> lk (task_id u) \<and> task_id u \<notin> set ids \<longrightarrow> task_created_at t \<le> task_created_at u)) \<and>
    (\<forall>tid. tid \<notin> set ids \<longrightarrow> get_by_id db' tid = get_by_id db tid)"
proof -
  note ids = claim_pending_ids [OF ok, of ck lk limit w lease, unfolded claim fst_conv]
  have get: "get_by_id db' k =
      (if k \<in> set ids then map_option (claim_set ck w lease) (get_by_id db k) else get_by_id db k)" for k
    using get_by_id_claim [OF ok, of ck lk limit w lease k] by (simp add: claim)
  have "\<exists>t. get_by_id db tid = Some t \<and> pick_guard ck lk t \<and>
      (\<forall>u \<in> set (eligible ck lk db). task_id u \<notin> set ids \<longrightarrow> task_created_at t \<le> task_created_at u)"
    if tid: "tid \<in> set ids" for tid
  proof -
    have pos: "\<not> limit \<le> 0" and p: "tid \<in> set (pick_pending ck lk limit db)"
      using tid ids(1) by (auto split: if_splits)
    obtain t where t: "get_by_id db tid = Some t" "pick_guard ck lk t"
      using picked_get [OF ok p] by blast
    then have mem: "t \<in> set (sql_order_limit task_created_at limit (eligible ck lk db))"
      using picked_task(1) [OF ok] get_by_id_SomeD [OF t(1)] p by blast
    have "task_created_at t \<le> task_created_at u"
      if u: "u \<in> set (eligible ck lk db)" "task_id u \<notin> set ids" for u
    proof (rule sql_order_limit_least [OF mem u(1)])
      show "u \<notin> set (sql_order_limit task_created_at limit (eligible ck lk db))"
        using u(2) pos unfolding ids(1) pick_pending_eligible by auto
    qed
    with t show ?thesis by blast
  qed
  note spec = this
  have "\<forall>tid \<in> set ids. \<exists>t. get_by_id db tid = Some t \<and> status t = PENDING \<and>
        next_retry_at t \<le> sql_utc_now ck \<and> \<not> lk tid \<and>
        get_by_id db' tid = Some (claim_set ck w lease t) \<and>
        (\<forall>u \<in> set (tasks db). status u = PENDING \<and> next_retry_at u \<le> sql_utc_now ck \<and>
           \<not> lk (task_id u) \<and> task_id u \<notin> set ids \<longrightarrow> task_created_at t \<le> task_created_at u)"
    using spec get get_by_id_SomeD by (fastforce simp: pick_guard_def eligible_def)
  with ids(2,3) get show ?thesis
    by (simp add: eligible_def sql_where_def pick_guard_def [abs_def] claim_set_def make_interval_secs_def)
qed

theorem claim_pending_spec_witness:
  "db_ok 3 sample_db \<and> claim_pending ck0 (\<lambda>_. False) 1 w1 300 sample_db =
     ([12], snd (claim_rows ck0 w1 300 [12] sample_db)) \<and>
   get_by_id (snd (claim_rows ck0 w1 300 [12] sample_db)) 11 = get_by_id sample_db 11"
proof -
  have c: "claim_pending ck0 (\<lambda>_. False) 1 w1 300 sample_db =
      ([12], snd (claim_rows ck0 w1 300 [12] sample_db))"
    by (simp add: claim_pending_def sample_pick Let_def claim_rows_def)
      (simp add: sql_returning_def claim_guard_def claim_set_def sample_defs)
  from claim_pending_spec [OF sample_db_ok c] sample_db_ok c show ?thesis
    by simp
qed

text \<open>C2: two claims that overlap under \<open>SKIP LOCKED\<close> never take the same task, and
  whatever the order in which they commit the result is that of running them one after the
  other.\<close>

theorem overlapping_claims_serial:
  assumes ok: "db_ok M db" and pos: "0 < n1" "0 < n2"
    and ids1: "ids1 = pick_pending ck1 lk n1 db"
    and ids2: "ids2 = pick_pending ck2 (\<lambda>k. lk k \<or> k \<in> set ids1) n2 db"
  shows "set ids1 \<inter> set ids2 = {} \<and>
    claim_rows ck1 v1 l1 ids1 db = claim_pending ck1 lk n1 v1 l1 db \<and>
    claim_rows ck2 v2 l2 ids2 (snd (claim_rows ck1 v1 l1 ids1 db)) =
      claim_pending ck2 lk n2 v2 l2 (snd (claim_pending ck1 lk n1 v1 l1 db)) \<and>
    snd (claim_rows ck1 v1 l1 ids1 (snd (claim_rows ck2 v2 l2 ids2 db))) =
      snd (claim_pending ck2 lk n2 v2 l2 (snd (claim_pending ck1 lk n1 v1 l1 db)))"
proof -
  have disj: "set ids1 \<inter> set ids2 = {}"
    using pick_skips_locked [of ck2 lk "set ids1" n2 db] ids2 by auto
  have first: "claim_rows ck1 v1 l1 ids1 db = claim_pending ck1 lk n1 v1 l1 db"
    using pos(1) ids1 by (simp add: claim_pending_rows)
  have "pick_pending ck2 lk n2 (snd (claim_rows ck1 v1 l1 ids1 db)) = ids2"
    unfolding ids2 pick_pending_eligible eligible_after_claim [OF ok ids1] ..
  then have second: "claim_rows ck2 v2 l2 ids2 (snd (claim_rows ck1 v1 l1 ids1 db)) =
      claim_pending ck2 lk n2 v2 l2 (snd (claim_rows ck1 v1 l1 ids1 db))"
    using pos(2) by (simp add: claim_pending_rows)
  from disj first second claim_rows_commute [OF disj, of ck1 v1 l1 ck2 v2 l2 db] show ?thesis
    by simp
qed

theorem overlapping_claims_serial_witness:
  "set [12] \<inter> set [11 :: uuid] = {} \<and>
   snd (claim_rows ck0 w0 300 [12] (snd (claim_rows ck0 w1 300 [11] sample_db))) =
     snd (claim_pending ck0 (\<lambda>_. False) 1 w1 300 (snd (claim_pending ck0 (\<lambda>_. False) 1 w0 300 sample_db)))"
  using overlapping_claims_serial
    [OF sample_db_ok, of 1 1 "[12]" ck0 "\<lambda>_. False" "[11]" ck0 w0 300 w1 300]
  by (simp add: sample_pick)

text \<open>C3: a task that starts with no failures is attempted \<open>max_retries + 1\<close> times: each
  of the first \<open>max_retries\<close> failures puts it back into the queue, the n-th one with a pause
  of \<open>2^n\<close> seconds, and the next failure makes it \<open>failed\<close>; every failure releases
  the lease and stores the first 1000 characters of its message.\<close>

theorem retry_budget:
  assumes t: "get_by_id db tid = Some t" "status t = PENDING" "retry_count t = 0"
    and n: "int (length rs) \<le> m"
  shows "\<exists>u. get_by_id (failed_attempts w lease m tid (rs @ [(ck, ck', msg)]) db) tid = Some u \<and>
    retry_count u = int (length rs) + 1 \<and> locked_by u = None \<and> lease_expires_at u = None \<and>
    error_msg u = Some (take 1000 msg) \<and>
    (if int (length rs) < m
     then status u = PENDING \<and> next_retry_at u = sql_utc_now ck' + seconds (2 ^ (length rs + 1))
     else status u = FAILED)"
proof -
  obtain v where v: "get_by_id (failed_attempts w lease m tid rs db) tid = Some v"
    "status v = PENDING" "retry_count v = int (length rs)"
    using failed_attempts_pending [of db tid t rs m w lease] t n by auto
  have "nat (int (length rs) + 1) = length rs + 1" by simp
  then show ?thesis
    using failed_attempt_row [OF v(1), of w lease m ck ck' msg] v(3)
    by (auto simp: failed_attempts_append failure_set_def claim_set_def Let_def make_interval_secs_def)
qed

theorem retry_budget_witness:
  "\<exists>u. get_by_id (failed_attempts w0 300 1 11 [(ck0, ck0, asc ''x''), (ck0, ck0, asc ''y'')] sample_db) 11 = Some u \<and>
     status u = FAILED \<and> retry_count u = 2 \<and> error_msg u = Some (asc ''y'')"
proof -
  have "asc ''y'' = take 1000 (asc ''y'')" by simp
  with retry_budget [OF sample_get(1), of "[(ck0, ck0, asc ''x'')]" 1 w0 300 ck0 ck0 "asc ''y''"]
  show ?thesis by (auto simp: sample_task_def new_task_def)
qed

text \<open>C4: fencing. A worker that does not hold the lock of a task can neither renew its
  lease nor move it to \<open>summarizing\<close>, \<open>done\<close> or a failure: each call reports that it did
  not apply and leaves the database as it was. A worker that holds the lock succeeds.\<close>

theorem lease_fencing:
  assumes ok: "db_ok M db"
  shows "(fst (renew_lease ck tid w lease db) \<longleftrightarrow> owns db w tid) \<and>
    (fst (mark_summarizing ck tid w tr db) \<longleftrightarrow> owns db w tid) \<and>
    (fst (mark_done ck tid w sm db) \<longleftrightarrow> owns db w tid) \<and>
    (fst (mark_failure ck tid w msg m db) \<noteq> None \<longleftrightarrow> owns db w tid) \<and>
    (\<not> owns db w tid \<longrightarrow>
       snd (renew_lease ck tid w lease db) = db \<and> snd (mark_summarizing ck tid w tr db) = db \<and>
       snd (mark_done ck tid w sm db) = db \<and> snd (mark_failure ck tid w msg m db) = db)"
proof -
  have same: "sql_update (owner_guard tid w) S (tasks db) = tasks db" if "\<not> owns db w tid" for S
    using owner_rowcount [OF ok, of tid w] that
    by (intro sql_update_none) (auto simp: sql_rowcount_zero_iff)
  have failure: "fst (mark_failure ck tid w msg m db) \<noteq> None \<longleftrightarrow> owns db w tid"
    by (simp add: mark_failure_result [OF ok] owns_def split: option.splits)
  have unchanged: "snd (renew_lease ck tid w lease db) = db \<and> snd (mark_summarizing ck tid w tr db) = db \<and>
      snd (mark_done ck tid w sm db) = db \<and> snd (mark_failure ck tid w msg m db) = db"
    if "\<not> owns db w tid"
    by (simp add: dao_defs same [OF that])
  from failure unchanged show ?thesis
    by (simp only: renew_lease_result [OF ok] mark_summarizing_result [OF ok] mark_done_result [OF ok]) simp
qed

theorem lease_fencing_witness:
  "owns sample_db w0 13 \<and> \<not> owns sample_db w1 13 \<and>
   fst (mark_done ck0 13 w0 JNull sample_db) \<and> snd (mark_done ck0 13 w1 JNull sample_db) = sample_db"
proof -
  have "owns sample_db w0 13" "\<not> owns sample_db w1 13"
    by (simp_all add: owns_def busy_task_def w0_def w1_def asc_def)
  with lease_fencing [OF sample_db_ok, of ck0 13 w0 300 "[]" JNull "[]" 3]
    lease_fencing [OF sample_db_ok, of ck0 13 w1 300 "[]" JNull "[]" 3]
  show ?thesis by simp
qed

text \<open>C5: recovery. A reclaim puts back into the queue exactly the in-flight tasks whose
  lease has expired and, at a restart, those the worker itself still held: they are claimable
  at once by anybody, no other task changes, and the number reported is theirs.\<close>

theorem reclaim_spec:
  assumes ok: "db_ok M db" and r: "reclaim_in_flight ck w own msg db = (n, db')"
  shows "n = int (length (filter (\<lambda>t. status t \<in> {TRANSCRIBING, SUMMARIZING} \<and>
        ((own \<and> locked_by t = Some w) \<or> (\<exists>e. lease_expires_at t = Some e \<and> e < sql_utc_now ck))) (tasks db))) \<and>
    (\<forall>tid t. get_by_id db tid = Some t \<longrightarrow>
       (if locked_by t \<noteq> None \<and>
           ((own \<and> locked_by t = Some w) \<or> (\<exists>e. lease_expires_at t = Some e \<and> e < sql_utc_now ck))
        then \<exists>u. get_by_id db' tid = Some u \<and> pick_guard ck (\<lambda>_. False) u \<and> error_msg u = Some msg \<and>
               retry_count u = retry_count t \<and> transcript u = transcript t
        else get_by_id db' tid = Some t))"
proof -
  have guard: "reclaim_guard ck w own t \<longleftrightarrow> status t \<in> {TRANSCRIBING, SUMMARIZING} \<and>
      ((own \<and> locked_by t = Some w) \<or> (\<exists>e. lease_expires_at t = Some e \<and> e < sql_utc_now ck))" for t
    by (auto simp: reclaim_guard_def lease_expired_def split: option.splits)
  have n: "n = int (length (filter (reclaim_guard ck w own) (tasks db)))"
    using r by (auto simp: reclaim_in_flight_def sql_rowcount_def)
  have get: "get_by_id db' tid =
      map_option (\<lambda>t. if reclaim_guard ck w own t then release_set ck msg t else t) (get_by_id db tid)" for tid
    using get_by_id_reclaim [of ck w own msg db tid] by (simp add: r)
  have lock: "locked_by t \<noteq> None \<longleftrightarrow> status t \<in> {TRANSCRIBING, SUMMARIZING}"
    if "get_by_id db tid = Some t" for tid t
    using db_ok_taskD [OF ok] get_by_id_SomeD [OF that] by (auto simp: task_ok_def)
  show ?thesis
  proof (intro conjI allI impI)
    show "n = int (length (filter (\<lambda>t. status t \<in> {TRANSCRIBING, SUMMARIZING} \<and>
        ((own \<and> locked_by t = Some w) \<or> (\<exists>e. lease_expires_at t = Some e \<and> e < sql_utc_now ck))) (tasks db)))"
      unfolding n using guard by presburger
  next
    fix tid t assume t: "get_by_id db tid = Some t"
    show "if locked_by t \<noteq> None \<and>
           ((own \<and> locked_by t = Some w) \<or> (\<exists>e. lease_expires_at t = Some e \<and> e < sql_utc_now ck))
        then \<exists>u. get_by_id db' tid = Some u \<and> pick_guard ck (\<lambda>_. False) u \<and> error_msg u = Some msg \<and>
               retry_count u = retry_count t \<and> transcript u = transcript t
        else get_by_id db' tid = Some t"
      unfolding lock [OF t] using t get [of tid] guard [of t]
      by (cases "reclaim_guard ck w own t") (auto simp: release_set_def pick_guard_def)
  qed
qed

theorem reclaim_spec_witness:
  "\<exists>u. get_by_id (snd (reclaim_in_flight ck0 w1 False (asc ''r'') sample_db)) 13 = Some u \<and>
     pick_guard ck0 (\<lambda>_. False) u \<and> retry_count u = 0"
proof -
  have e: "locked_by busy_task \<noteq> None \<and> lease_expires_at busy_task = Some 100 \<and> retry_count busy_task = 0 \<and>
      sql_utc_now ck0 = 1000"
    by (simp add: sample_defs)
  have "reclaim_in_flight ck0 w1 False (asc ''r'') sample_db =
      (fst (reclaim_in_flight ck0 w1 False (asc ''r'') sample_db),
       snd (reclaim_in_flight ck0 w1 False (asc ''r'') sample_db))" by simp
  from conjunct2 [OF reclaim_spec [OF sample_db_ok this], rule_format, OF sample_get(3)] e
  show ?thesis by auto
qed

text \<open>
  When a new task becomes claimable. Its \<open>next_retry_at\<close> is taken from Python's
  clock while a claim compares it with the database's \<open>timezone('utc', now())\<close>, so a
  new task waits for as long as the session's time zone is ahead of UTC; in a UTC session it
  is claimable at once.\<close>

lemma new_task_claimable_iff:
  "pick_guard ck (\<lambda>_. False) (new_task ck' tid rid) \<longleftrightarrow> now ck' + tz_off ck \<le> now ck"
  by (auto simp: pick_guard_def new_task_def utcnow_def sql_utc_now_def)

end
