(* ===== verification/Sessions.thy ===== *)
theory Sessions
  imports Task_Types
begin

text \<open>
  \<open>task_tx\<close> of \<open>api/worker/common.py\<close> and what a session can do to its caller: commit,
  raise, be cancelled; and the interference of other sessions between two statements.
\<close>

section \<open>Transactions\<close>

text \<open>
  \<open>task_tx\<close>: the body's writes are committed, or the block raises and rolls back, or it is
  cancelled.  The flag says that the server had already applied the commit when the connection
  failed or the cancellation struck.
\<close>

datatype tx = Commit | Abort bool exn | CancelTx bool

datatype 'a tx_result = Returned 'a | Raised exn | TxCancelled

definition task_tx :: "tx \<Rightarrow> (database \<Rightarrow> 'a \<times> database) \<Rightarrow> database \<Rightarrow> 'a tx_result \<times> database" where
  "task_tx x body db =
     (case x of
        Commit \<Rightarrow> (Returned (fst (body db)), snd (body db))
      | Abort applied e \<Rightarrow> (Raised e, if applied then snd (body db) else db)
      | CancelTx applied \<Rightarrow> (TxCancelled, if applied then snd (body db) else db))"

lemma task_tx_db: "snd (task_tx x body db) = db \<or> snd (task_tx x body db) = snd (body db)"
  by (simp add: task_tx_def split: tx.splits)

lemma task_tx_simps [simp]:
  "task_tx Commit body db = (Returned (fst (body db)), snd (body db))"
  "task_tx (Abort b e) body db = (Raised e, if b then snd (body db) else db)"
  "task_tx (CancelTx b) body db = (TxCancelled, if b then snd (body db) else db)"
  by (simp_all add: task_tx_def)

lemma task_tx_read:
  assumes "task_tx x (\<lambda>db. (f db, db)) db = (r, db')"
  shows "db' = db"
  using task_tx_db [of x "\<lambda>db. (f db, db)" db] assms by simp

section \<open>Interference\<close>

text \<open>
  A repository method is one session; between two of its statements other sessions may
  commit.  The argument \<open>env\<close> says what they commit: \<open>env i\<close> is applied at the i-th gap of
  the method (\<open>quiet\<close> is no interference).
\<close>

type_synonym interference = "nat \<Rightarrow> database \<Rightarrow> database"

definition quiet :: interference where
  "quiet = (\<lambda>_ db. db)"

lemma quiet_simp [simp]: "quiet i db = db"
  by (simp add: quiet_def)

text \<open>Interference that keeps the invariant of the database.\<close>

definition benign :: "nat \<Rightarrow> interference \<Rightarrow> bool" where
  "benign M env \<longleftrightarrow> (\<forall>i db. db_ok M db \<longrightarrow> db_ok M (env i db))"

lemma benign_quiet [simp]: "benign M quiet"
  by (simp add: benign_def)

lemma benignD: "benign M env \<Longrightarrow> db_ok M db \<Longrightarrow> db_ok M (env i db)"
  by (simp add: benign_def)

lemma db_ok_task_tx:
  "db_ok M db \<Longrightarrow> db_ok M (snd (body db)) \<Longrightarrow> db_ok M (snd (task_tx x body db))"
  using task_tx_db [of x body db] by auto

end
