(* ===== verification/Repositories.thy ===== *)
theory Repositories
  imports Task_Queue Sessions
begin

text \<open>
  \<open>api/repository/dao/recording.py\<close>, \<open>api/repository/recording.py\<close> and
  \<open>api/repository/task.py\<close>.  The writes of a transaction and its commit are one step,
  since nobody sees them before the commit; the argument \<open>x\<close> says how the commit ends.
\<close>

section \<open>RecordingDao\<close>

definition recording_get_by_hash :: "database \<Rightarrow> pstr \<Rightarrow> recording option" where
  [dao_defs]: "recording_get_by_hash db h = first (sql_where (\<lambda>r. file_hash r = h) (recordings db))"

definition recording_get_by_id :: "database \<Rightarrow> uuid \<Rightarrow> recording option" where
  [dao_defs]: "recording_get_by_id db rid = by_key rec_id rid (recordings db)"

definition count_all :: "database \<Rightarrow> int" where
  [dao_defs]: "count_all db = int (length (recordings db))"

definition recording_list_page :: "database \<Rightarrow> int \<Rightarrow> int \<Rightarrow> recording list" where
  [dao_defs]: "recording_list_page db offset limit =
     take (nat limit) (drop (nat offset) (sort_key (\<lambda>r. - rec_created_at r) (recordings db)))"

text \<open>
  The columns are \<open>VARCHAR(255)\<close>, \<open>VARCHAR(1000)\<close>, \<open>VARCHAR(64)\<close> and a 32-bit
  \<open>INTEGER\<close>; a value that does not fit raises \<open>DataError\<close>, which is not an
  \<open>IntegrityError\<close>.
\<close>

definition create_recording :: "database \<Rightarrow> recording \<Rightarrow> exn + recording \<times> database" where
  [dao_defs]: "create_recording db r =
     (if 255 < length (file_name r) \<or> 1000 < length (file_path r) \<or> 64 < length (file_hash r) \<or>
         file_size r < - (2 ^ 31) \<or> 2 ^ 31 \<le> file_size r
        then Inl (DataError (asc ''value too long''))
      else if rec_id r \<in> rec_id ` set (recordings db)
        then Inl (IntegrityError (asc ''recordings_pkey''))
      else if file_hash r \<in> file_hash ` set (recordings db)
        then Inl (IntegrityError (asc ''ix_recordings_file_hash''))
      else Inr (r, db\<lparr>recordings := recordings db @ [r]\<rparr>))"

definition delete_recording_row :: "database \<Rightarrow> uuid \<Rightarrow> bool \<times> database" where
  [dao_defs]: "delete_recording_row db rid =
     (sql_rowcount (\<lambda>r. rec_id r = rid) (recordings db) \<noteq> 0,
      db\<lparr>recordings := sql_delete (\<lambda>r. rec_id r = rid) (recordings db)\<rparr>)"

section \<open>RecordingRepository\<close>

definition repo_get_by_hash ::
  "interference \<Rightarrow> pstr \<Rightarrow> database \<Rightarrow> (recording option \<times> task option) \<times> database" where
  "repo_get_by_hash env h db =
     (case recording_get_by_hash db h of
        None \<Rightarrow> ((None, None), db)
      | Some r \<Rightarrow> (let db1 = env 0 db in ((Some r, get_by_recording db1 (rec_id r)), db1)))"

definition repo_get_by_id ::
  "interference \<Rightarrow> uuid \<Rightarrow> database \<Rightarrow> (recording option \<times> task option) \<times> database" where
  "repo_get_by_id env rid db =
     (case recording_get_by_id db rid of
        None \<Rightarrow> ((None, None), db)
      | Some r \<Rightarrow> (let db1 = env 0 db in ((Some r, get_by_recording db1 (rec_id r)), db1)))"

text \<open>The two inserts and the commit; on an exception the session is rolled back.\<close>

definition insert_pair ::
  "clock \<Rightarrow> uuid \<Rightarrow> uuid \<Rightarrow> pstr \<Rightarrow> pstr \<Rightarrow> int \<Rightarrow> pstr \<Rightarrow> database \<Rightarrow> exn + (recording \<times> task) \<times> database" where
  "insert_pair ck rid tid name path sz h db =
     (case create_recording db (new_recording ck rid name path sz h) of
        Inl e \<Rightarrow> Inl e
      | Inr (r, db1) \<Rightarrow>
          (case create_task db1 (new_task ck tid (rec_id r)) of
             Inl e \<Rightarrow> Inl e
           | Inr (t, db2) \<Rightarrow> Inr ((r, t), db2)))"

definition insert_pair_tx ::
  "clock \<Rightarrow> uuid \<Rightarrow> uuid \<Rightarrow> tx \<Rightarrow> pstr \<Rightarrow> pstr \<Rightarrow> int \<Rightarrow> pstr \<Rightarrow> database \<Rightarrow>
     (recording \<times> task) tx_result \<times> database" where
  "insert_pair_tx ck rid tid x name path sz h db =
     (case insert_pair ck rid tid name path sz h db of
        Inl e \<Rightarrow> (Raised e, db)
      | Inr (p, db') \<Rightarrow> task_tx x (\<lambda>_. (p, db')) db)"

definition create_recording_and_task ::
  "clock \<Rightarrow> uuid \<Rightarrow> uuid \<Rightarrow> interference \<Rightarrow> tx \<Rightarrow> pstr \<Rightarrow> pstr \<Rightarrow> int \<Rightarrow> pstr \<Rightarrow> database \<Rightarrow>
     (recording \<times> task option \<times> bool) tx_result \<times> database" where
  "create_recording_and_task ck rid tid env x name path sz h db =
     (case recording_get_by_hash db h of
        Some r \<Rightarrow> (let db1 = env 0 db
                  in (Returned (r, get_by_recording db1 (rec_id r), False), db1))
      | None \<Rightarrow>
          (case insert_pair_tx ck rid tid x name path sz h (env 0 db) of
             (Returned (r, t), db2) \<Rightarrow> (Returned (r, Some t, True), db2)
           | (Raised (IntegrityError m), db2) \<Rightarrow>
               (let db3 = env 1 db2 in
                case recording_get_by_hash db3 h of
                  None \<Rightarrow> (Raised (IntegrityError m), db3)
                | Some r \<Rightarrow> (let db4 = env 2 db3
                            in (Returned (r, get_by_recording db4 (rec_id r), False), db4)))
           | (Raised e, db2) \<Rightarrow> (Raised e, db2)
           | (TxCancelled, db2) \<Rightarrow> (TxCancelled, db2)))"

text \<open>\<open>{t.recording_id: t for t in tasks}\<close>: a later task of the same key would win.\<close>

definition by_recording :: "task list \<Rightarrow> uuid \<Rightarrow> task option" where
  "by_recording ts = foldl (\<lambda>m t. m(recording_id t \<mapsto> t)) Map.empty ts"

definition repo_list_page ::
  "interference \<Rightarrow> int \<Rightarrow> int \<Rightarrow> database \<Rightarrow> ((recording \<times> task option) list \<times> int) \<times> database" where
  "repo_list_page env page page_size db =
     (let offset = (page - 1) * page_size;
          total = count_all db;
          db1 = env 0 db;
          rs = recording_list_page db1 offset page_size
      in if rs = [] then (([], total), db1)
         else let db2 = env 1 db1;
                  ts = list_by_recording_ids db2 (map rec_id rs);
                  m = by_recording ts
              in ((map (\<lambda>r. (r, m (rec_id r))) rs, total), db2))"

definition repo_delete :: "interference \<Rightarrow> tx \<Rightarrow> uuid \<Rightarrow> database \<Rightarrow> pstr option tx_result \<times> database" where
  "repo_delete env x rid db =
     (case recording_get_by_id db rid of
        None \<Rightarrow> (Returned None, db)
      | Some r \<Rightarrow>
          task_tx x
            (\<lambda>db1. (Some (file_path r),
               snd (delete_recording_row (snd (delete_by_recording db1 (rec_id r))) (rec_id r))))
            (env 0 db))"

section \<open>TaskRepository\<close>

definition task_repo_get_by_id :: "uuid \<Rightarrow> database \<Rightarrow> task option" where
  "task_repo_get_by_id tid db = get_by_id db tid"

text \<open>Committed only when a row was updated; otherwise the session is dropped.\<close>

definition task_repo_requeue_failed ::
  "clock \<Rightarrow> tx \<Rightarrow> uuid \<Rightarrow> database \<Rightarrow> task option tx_result \<times> database" where
  "task_repo_requeue_failed ck x tid db =
     (case requeue_failed ck tid db of
        (None, _) \<Rightarrow> (Returned None, db)
      | (Some t, db') \<Rightarrow> task_tx x (\<lambda>_. (Some t, db')) db)"

section \<open>Facts\<close>

lemma recording_get_by_hash_SomeD:
  "recording_get_by_hash db h = Some r \<Longrightarrow> r \<in> set (recordings db) \<and> file_hash r = h"
  unfolding recording_get_by_hash_def by (drule first_SomeD) simp

lemma recording_get_by_hash_None_iff:
  "recording_get_by_hash db h = None \<longleftrightarrow> h \<notin> file_hash ` set (recordings db)"
  by (auto simp: recording_get_by_hash_def sql_where_def filter_empty_conv)

lemma recording_get_by_id_SomeD:
  "recording_get_by_id db rid = Some r \<Longrightarrow> r \<in> set (recordings db) \<and> rec_id r = rid"
  unfolding recording_get_by_id_def by (rule by_key_SomeD)

lemma get_by_recording_SomeD:
  "get_by_recording db rid = Some t \<Longrightarrow> t \<in> set (tasks db) \<and> recording_id t = rid"
  unfolding get_by_recording_def by (drule first_SomeD) simp

lemma get_by_recording_by_key: "get_by_recording db rid = by_key recording_id rid (tasks db)"
  by (simp add: get_by_recording_def by_key_def)

lemma get_by_recording_iff:
  "db_ok M db \<Longrightarrow> get_by_recording db rid = Some t \<longleftrightarrow> t \<in> set (tasks db) \<and> recording_id t = rid"
  unfolding get_by_recording_by_key db_ok_def by (simp add: by_key_Some_iff)

lemma insert_pair_Inr:
  assumes "insert_pair ck rid tid name path sz h db = Inr ((r, t), db')"
  shows "r = new_recording ck rid name path sz h" and "t = new_task ck tid rid"
    and "db' = \<lparr>recordings = recordings db @ [r], tasks = tasks db @ [t]\<rparr>"
    and "rid \<notin> rec_id ` set (recordings db)" and "h \<notin> file_hash ` set (recordings db)"
    and "tid \<notin> task_id ` set (tasks db)" and "rid \<notin> recording_id ` set (tasks db)"
  using assms
  by (auto simp: insert_pair_def create_recording_def create_task_def new_recording_def new_task_def
      split: sum.splits if_splits)

lemma db_ok_insert_pair:
  assumes "insert_pair ck rid tid name path sz h db = Inr (p, db')" and "db_ok M db"
  shows "db_ok M db'"
proof -
  obtain r t where "p = (r, t)" by (cases p)
  note ins = insert_pair_Inr [OF assms(1) [unfolded this]]
  have "task_ok M t" unfolding ins(2) by (rule task_ok_new)
  then show ?thesis
    using ins assms(2) by (auto simp: db_ok_def new_recording_def new_task_def)
qed

lemma db_ok_delete:
  assumes "db_ok M db"
  shows "db_ok M (snd (delete_recording_row (snd (delete_by_recording db rid)) rid))"
proof -
  have "list_all (task_ok M) (sql_delete (\<lambda>t. recording_id t = rid) (tasks db))"
    using assms by (simp add: db_ok_def list_all_iff)
  then show ?thesis
    using assms
    by (auto simp: db_ok_def delete_recording_row_def delete_by_recording_def distinct_key_delete)
qed

text \<open>Methods of a repository keep the invariant when the interference does.\<close>

lemma db_ok_insert_pair_tx:
  "db_ok M db \<Longrightarrow> db_ok M (snd (insert_pair_tx ck rid tid x name path sz h db))"
  by (auto simp: insert_pair_tx_def intro!: db_ok_task_tx dest: db_ok_insert_pair
      split: sum.splits prod.splits)

lemma db_ok_create_recording_and_task:
  assumes "benign M env" and "db_ok M db"
  shows "db_ok M (snd (create_recording_and_task ck rid tid env x name path sz h db))"
proof -
  have "db_ok M (env 0 db)" using assms by (simp add: benign_def)
  from db_ok_insert_pair_tx [OF this, of ck rid tid x name path sz h] show ?thesis
    using assms
    by (auto simp: create_recording_and_task_def Let_def benign_def
        split: option.splits prod.splits tx_result.splits exn.splits)
qed

lemma db_ok_repo_delete:
  "benign M env \<Longrightarrow> db_ok M db \<Longrightarrow> db_ok M (snd (repo_delete env x rid db))"
  by (auto simp: repo_delete_def benign_def split: option.splits intro!: db_ok_task_tx db_ok_delete)

lemma requeue_failed_none:
  assumes "db_ok M db" and "fst (requeue_failed ck tid db) = None"
  shows "snd (requeue_failed ck tid db) = db"
proof -
  have "\<forall>t \<in> set (tasks db). \<not> requeue_guard tid t"
    using get_by_id_task [OF assms(1)] assms(2)
    by (auto simp: requeue_failed_result [OF assms(1)] requeue_guard_def split: option.splits if_splits)
  then show ?thesis
    by (simp add: requeue_failed_def Let_def sql_update_none split: option.splits)
qed

lemma task_repo_requeue_failed_eq:
  assumes "db_ok M db"
  shows "task_repo_requeue_failed ck Commit tid db =
    (Returned (fst (requeue_failed ck tid db)), snd (requeue_failed ck tid db))"
  using requeue_failed_none [OF assms, of ck tid]
  by (auto simp: task_repo_requeue_failed_def split: prod.splits option.splits)

lemma db_ok_task_repo_requeue:
  "db_ok M db \<Longrightarrow> db_ok M (snd (task_repo_requeue_failed ck x tid db))"
  using db_ok_requeue [of M db ck tid]
  by (auto simp: task_repo_requeue_failed_def intro!: db_ok_task_tx split: prod.splits option.splits)

end
