(* ===== verification/Py_Str.thy ===== *)
theory Py_Str
  imports Py_Base
begin

text \<open>
  The string functions of Python's standard library that the program uses, on code points:
  \<open>strip\<close> and its relatives, \<open>replace(pattern, '')\<close>, decimal and hexadecimal numerals, and
  the text of a \<open>UUID\<close> with the constructor that reads it back.
\<close>

section \<open>Stripping\<close>

text \<open>\<open>str.isspace\<close> of one character, as \<open>str.strip()\<close> and the regular expression
  \<open>\s\<close> use it.\<close>

definition is_space :: "nat \<Rightarrow> bool" where
  "is_space c \<longleftrightarrow> (9 \<le> c \<and> c \<le> 13) \<or> (28 \<le> c \<and> c \<le> 32) \<or> c = 133 \<or> c = 160 \<or> c = 5760 \<or>
     (8192 \<le> c \<and> c \<le> 8202) \<or> c = 8232 \<or> c = 8233 \<or> c = 8239 \<or> c = 8287 \<or> c = 12288"

definition lstrip_by :: "(nat \<Rightarrow> bool) \<Rightarrow> pstr \<Rightarrow> pstr" where
  "lstrip_by P s = dropWhile P s"

definition rstrip_by :: "(nat \<Rightarrow> bool) \<Rightarrow> pstr \<Rightarrow> pstr" where
  "rstrip_by P s = rev (dropWhile P (rev s))"

definition strip_by :: "(nat \<Rightarrow> bool) \<Rightarrow> pstr \<Rightarrow> pstr" where
  "strip_by P s = rstrip_by P (lstrip_by P s)"

definition strip :: "pstr \<Rightarrow> pstr" where
  "strip s = strip_by is_space s"

lemma rstrip_split: "\<exists>q. s = rstrip_by P s @ q \<and> (\<forall>c \<in> set q. P c)"
proof -
  have "rev s = takeWhile P (rev s) @ dropWhile P (rev s)" by simp
  then have "s = rev (dropWhile P (rev s)) @ rev (takeWhile P (rev s))"
    by (metis rev_append rev_rev_ident)
  then show ?thesis
    unfolding rstrip_by_def by (metis set_rev set_takeWhileD)
qed

lemma lstrip_split: "\<exists>p. s = p @ lstrip_by P s \<and> (\<forall>c \<in> set p. P c)"
  unfolding lstrip_by_def by (metis set_takeWhileD takeWhile_dropWhile_id)

lemma strip_by_split:
  "\<exists>p q. s = p @ strip_by P s @ q \<and> (\<forall>c \<in> set p. P c) \<and> (\<forall>c \<in> set q. P c)"
  unfolding strip_by_def using lstrip_split [of s P] rstrip_split [of "lstrip_by P s" P] by metis

lemma set_strip_by: "set (strip_by P s) \<subseteq> set s"
  using strip_by_split [of s P] by (metis Un_iff set_append subsetI)

lemma length_strip_by: "length (strip_by P s) \<le> length s"
  using strip_by_split [of s P] by (metis le_add1 le_add2 length_append le_trans)

lemma last_rstrip: "rstrip_by P s \<noteq> [] \<Longrightarrow> \<not> P (last (rstrip_by P s))"
  unfolding rstrip_by_def by (metis hd_dropWhile last_rev rev_is_Nil_conv)

lemma hd_strip_by:
  assumes "strip_by P s \<noteq> []"
  shows "\<not> P (hd (strip_by P s))"
proof -
  let ?l = "lstrip_by P s"
  have ne: "?l \<noteq> []"
    using assms by (auto simp: strip_by_def rstrip_by_def)
  obtain q where q: "?l = strip_by P s @ q"
    using rstrip_split [of ?l P] unfolding strip_by_def by blast
  have "\<not> P (hd ?l)"
    using ne unfolding lstrip_by_def by (rule hd_dropWhile)
  with q assms show ?thesis by (metis hd_append2)
qed

lemma last_strip_by: "strip_by P s \<noteq> [] \<Longrightarrow> \<not> P (last (strip_by P s))"
  unfolding strip_by_def by (rule last_rstrip)

lemma strip_by_eq_Nil_iff: "strip_by P s = [] \<longleftrightarrow> (\<forall>c \<in> set s. P c)"
  using strip_by_split [of s P] hd_strip_by [of P s] set_strip_by [of P s]
  by (metis Un_iff append_Nil hd_in_set set_append subsetD)

lemma dropWhile_id: "s = [] \<or> \<not> P (hd s) \<Longrightarrow> dropWhile P s = s"
  by (cases s) auto

lemma strip_by_id: "s = [] \<or> (\<not> P (hd s) \<and> \<not> P (last s)) \<Longrightarrow> strip_by P s = s"
  unfolding strip_by_def rstrip_by_def lstrip_by_def
  by (auto simp: dropWhile_id hd_rev)

lemma strip_by_idem [simp]: "strip_by P (strip_by P s) = strip_by P s"
  by (rule strip_by_id) (auto dest: hd_strip_by last_strip_by)

text \<open>\<open>s.replace(p, '')\<close>.\<close>

fun remove_sub :: "pstr \<Rightarrow> pstr \<Rightarrow> pstr" where
  "remove_sub p [] = []"
| "remove_sub p (x # xs) =
     (if p \<noteq> [] \<and> take (length p) (x # xs) = p then remove_sub p (drop (length p - 1) xs)
      else x # remove_sub p xs)"

lemma remove_sub_absent:
  assumes "c \<in> set p" and "c \<notin> set s"
  shows "remove_sub p s = s"
  using assms(2)
proof (induction s)
  case (Cons x xs)
  have "take (length p) (x # xs) \<noteq> p"
    using Cons.prems assms(1) by (metis in_set_takeD)
  with Cons show ?case by simp
qed simp

lemma remove_sub_single: "remove_sub [c] s = filter (\<lambda>x. x \<noteq> c) s"
  by (induction s) auto

section \<open>Numerals\<close>

fun dec_digits :: "nat \<Rightarrow> nat list" where
  "dec_digits n = (if n < 10 then [n] else dec_digits (n div 10) @ [n mod 10])"

declare dec_digits.simps [simp del]

definition nat_str :: "nat \<Rightarrow> pstr" where
  "nat_str n = map (\<lambda>d. 48 + d) (dec_digits n)"

definition int_str :: "int \<Rightarrow> pstr" where
  "int_str i = (if i < 0 then 45 # nat_str (nat (- i)) else nat_str (nat i))"

definition digits_val :: "nat \<Rightarrow> nat list \<Rightarrow> nat" where
  "digits_val b ds = foldl (\<lambda>a d. b * a + d) 0 ds"

lemma digits_val_snoc [simp]: "digits_val b (ds @ [d]) = b * digits_val b ds + d"
  by (simp add: digits_val_def)

lemma digits_val_Nil [simp]: "digits_val b [] = 0"
  by (simp add: digits_val_def)

lemma digits_val_dec: "digits_val 10 (dec_digits n) = n"
proof (induction n rule: dec_digits.induct)
  case (1 n)
  show ?case
  proof (cases "n < 10")
    case True
    then show ?thesis by (simp add: dec_digits.simps [of n] digits_val_def)
  next
    case False
    then show ?thesis
      using 1 by (simp add: dec_digits.simps [of n] div_mult_mod_eq)
  qed
qed

lemma dec_digits_lt: "d \<in> set (dec_digits n) \<Longrightarrow> d < 10"
proof (induction n rule: dec_digits.induct)
  case (1 n)
  then show ?case
    by (cases "n < 10") (auto simp: dec_digits.simps [of n])
qed

lemma dec_digits_ne: "dec_digits n \<noteq> []"
  by (simp add: dec_digits.simps [of n])

lemma hd_dec_digits: "hd (dec_digits n) = 0 \<longleftrightarrow> n = 0"
proof (induction n rule: dec_digits.induct)
  case (1 n)
  then show ?case
    using dec_digits_ne by (cases "n < 10") (auto simp: dec_digits.simps [of n] hd_append)
qed

lemma length_dec_zero: "length (dec_digits n) = 1 \<longleftrightarrow> n < 10"
  using dec_digits_ne [of "n div 10"] by (simp add: dec_digits.simps [of n])

fun hex_digits :: "nat \<Rightarrow> nat \<Rightarrow> nat list" where
  "hex_digits 0 n = []"
| "hex_digits (Suc k) n = hex_digits k (n div 16) @ [n mod 16]"

definition hex_char :: "nat \<Rightarrow> nat" where
  "hex_char d = (if d < 10 then 48 + d else 87 + d)"

definition hex_val :: "nat \<Rightarrow> nat option" where
  "hex_val c = (if 48 \<le> c \<and> c \<le> 57 then Some (c - 48)
     else if 97 \<le> c \<and> c \<le> 102 then Some (c - 87)
     else if 65 \<le> c \<and> c \<le> 70 then Some (c - 55) else None)"

lemma length_hex_digits [simp]: "length (hex_digits k n) = k"
  by (induction k arbitrary: n) auto

lemma hex_digits_lt: "d \<in> set (hex_digits k n) \<Longrightarrow> d < 16"
  by (induction k arbitrary: n) auto

lemma digits_val_hex: "digits_val 16 (hex_digits k n) = n mod 16 ^ k"
proof (induction k arbitrary: n)
  case (Suc k)
  have "16 * (n div 16 mod 16 ^ k) + n mod 16 = n mod (16 * 16 ^ k)"
    by (simp add: mod_mult2_eq)
  with Suc show ?case by simp
qed simp

lemma hex_val_char [simp]: "d < 16 \<Longrightarrow> hex_val (hex_char d) = Some d"
  by (auto simp: hex_val_def hex_char_def)

lemma hex_char_range: "d < 16 \<Longrightarrow> 48 \<le> hex_char d \<and> hex_char d \<le> 102 \<and> hex_char d \<noteq> 58"
  by (auto simp: hex_char_def)

section \<open>UUIDs\<close>

text \<open>\<open>str(uuid)\<close>: 32 hexadecimal digits in groups of 8, 4, 4, 4 and 12.\<close>

definition uuid_hex :: "uuid \<Rightarrow> pstr" where
  "uuid_hex u = map hex_char (hex_digits 32 (unat u))"

definition uuid_str :: "uuid \<Rightarrow> pstr" where
  "uuid_str u =
     (let h = uuid_hex u
      in take 8 h @ [45] @ take 4 (drop 8 h) @ [45] @ take 4 (drop 12 h) @ [45] @
         take 4 (drop 16 h) @ [45] @ drop 20 h)"

text \<open>
  \<open>UUID(text)\<close>.  Of the texts \<open>int(hex, 16)\<close> accepts, those made of hexadecimal digits
  only are modelled; the others (signs, underscores, a \<open>0x\<close> prefix) count as errors.
\<close>

fun hex_vals :: "pstr \<Rightarrow> nat list option" where
  "hex_vals [] = Some []"
| "hex_vals (c # cs) =
     (case hex_val c of None \<Rightarrow> None
      | Some d \<Rightarrow> (case hex_vals cs of None \<Rightarrow> None | Some ds \<Rightarrow> Some (d # ds)))"

definition uuid_of_str :: "pstr \<Rightarrow> exn + uuid" where
  "uuid_of_str s =
     (let h = remove_sub (asc ''uuid:'') (remove_sub (asc ''urn:'') s);
          h = remove_sub (asc ''-'') (strip_by (\<lambda>c. c = 123 \<or> c = 125) h)
      in if length h \<noteq> 32 then Inl (ValueError (asc ''badly formed hexadecimal UUID string''))
         else case hex_vals h of
                None \<Rightarrow> Inl (ValueError (asc ''invalid literal for int() with base 16''))
              | Some ds \<Rightarrow> Inr (word_of_nat (digits_val 16 ds)))"

lemma hex_vals_hex: "\<forall>d \<in> set ds. d < 16 \<Longrightarrow> hex_vals (map hex_char ds) = Some ds"
  by (induction ds) auto

lemma length_uuid_hex [simp]: "length (uuid_hex u) = 32"
  by (simp add: uuid_hex_def)

lemma uuid_hex_chars: "c \<in> set (uuid_hex u) \<Longrightarrow> 48 \<le> c \<and> c \<le> 102 \<and> c \<noteq> 58"
  unfolding uuid_hex_def by (auto simp: hex_char_def dest!: hex_digits_lt)

lemma take_drop_split: "take b (drop a xs) @ drop (a + b) xs = drop a xs"
  by (metis add.commute append_take_drop_id drop_drop)

lemma uuid_str_no_dash: "filter (\<lambda>x. x \<noteq> 45) (uuid_str u) = uuid_hex u"
proof -
  let ?h = "uuid_hex u"
  have "45 \<notin> set ?h"
    using uuid_hex_chars [of 45 u] by auto
  then have keep: "filter (\<lambda>x. x \<noteq> 45) (take n (drop m ?h)) = take n (drop m ?h)"
    "filter (\<lambda>x. x \<noteq> 45) (take n ?h) = take n ?h"
    "filter (\<lambda>x. x \<noteq> 45) (drop m ?h) = drop m ?h" for n m
    by (auto intro!: filter_True dest: in_set_dropD in_set_takeD)
  have "filter (\<lambda>x. x \<noteq> 45) (uuid_str u) =
      take 8 ?h @ take 4 (drop 8 ?h) @ take 4 (drop 12 ?h) @ take 4 (drop 16 ?h) @ drop 20 ?h"
    unfolding uuid_str_def Let_def filter_append keep by simp
  moreover have "take 4 (drop 16 ?h) @ drop 20 ?h = drop 16 ?h"
    "take 4 (drop 12 ?h) @ drop 16 ?h = drop 12 ?h" "take 4 (drop 8 ?h) @ drop 12 ?h = drop 8 ?h"
    using take_drop_split [of 4 16 ?h] take_drop_split [of 4 12 ?h] take_drop_split [of 4 8 ?h] by simp_all
  ultimately show ?thesis
    by (simp only: append_take_drop_id)
qed

lemma uuid_str_chars: "c \<in> set (uuid_str u) \<Longrightarrow> c = 45 \<or> (48 \<le> c \<and> c \<le> 102 \<and> c \<noteq> 58)"
proof (cases "c = 45")
  case False
  assume "c \<in> set (uuid_str u)"
  with False have "c \<in> set (filter (\<lambda>x. x \<noteq> 45) (uuid_str u))" by simp
  then show ?thesis
    unfolding uuid_str_no_dash using uuid_hex_chars by blast
qed simp

lemma uuid_str_neq_Nil [simp]: "uuid_str u \<noteq> []"
  unfolding uuid_str_def Let_def by simp

theorem uuid_of_str_str: "uuid_of_str (uuid_str u) = Inr u"
proof -
  let ?s = "uuid_str u"
  have no: "c \<notin> set ?s" if "c \<in> {58, 114, 123, 125}" for c
    using uuid_str_chars [of c u] that by auto
  have 1: "remove_sub (asc ''urn:'') ?s = ?s"
    by (rule remove_sub_absent [of 114]) (use no in \<open>simp_all add: asc_def\<close>)
  have 2: "remove_sub (asc ''uuid:'') ?s = ?s"
    by (rule remove_sub_absent [of 58]) (use no in \<open>simp_all add: asc_def\<close>)
  have ends: "hd ?s \<in> set ?s" "last ?s \<in> set ?s"
    by (rule hd_in_set, simp, rule last_in_set, simp)
  have 3: "strip_by (\<lambda>c. c = 123 \<or> c = 125) ?s = ?s"
  proof (rule strip_by_id, rule disjI2, rule conjI)
    show "\<not> (hd ?s = 123 \<or> hd ?s = 125)"
      using ends(1) no [of 123] no [of 125] by (metis insertCI)
    show "\<not> (last ?s = 123 \<or> last ?s = 125)"
      using ends(2) no [of 123] no [of 125] by (metis insertCI)
  qed
  have 4: "remove_sub (asc ''-'') ?s = uuid_hex u"
    by (simp add: asc_def remove_sub_single uuid_str_no_dash)
  have 5: "hex_vals (uuid_hex u) = Some (hex_digits 32 (unat u))"
    unfolding uuid_hex_def by (rule hex_vals_hex) (auto dest: hex_digits_lt)
  have "unat u < 16 ^ 32"
    using unsigned_less [of u] by simp
  then have "digits_val 16 (hex_digits 32 (unat u)) = unat u"
    by (simp add: digits_val_hex)
  then show ?thesis
    by (simp add: uuid_of_str_def 1 2 3 4 5)
qed

lemma uuid_str_inj: "uuid_str u = uuid_str v \<Longrightarrow> u = v"
  by (metis uuid_of_str_str sum.inject(2))

end
