(* ===== verification/Executor.thy ===== *)
theory Executor
  imports Repositories Py_Str
begin

text \<open>
  \<open>api/worker/executor.py\<close> and \<open>api/worker/common.py\<close>.  \<open>TaskExecutor.process\<close> is
  a coroutine: between two of its \<open>await\<close>s anything else may run.  Its program points are
  \<open>pc\<close>, its local variables \<open>exec_state\<close>, and what an \<open>await\<close> delivers is an
  \<open>event\<close>: a transaction that commits, raises or is cancelled, the result of the transcriber
  or of the summarizer, a tick of the lease-renewal loop running beside it, a cancellation.
  \<open>exec_step\<close> is the code between two \<open>await\<close>s.
\<close>

section \<open>Messages\<close>

text \<open>\<open>str(e)\<close> of an exception.\<close>

fun exn_str :: "exn \<Rightarrow> pstr" where
  "exn_str (InvalidRequestError s) = s"
| "exn_str (InvalidUploadError s) = s"
| "exn_str (RecordingNotFoundError s) = s"
| "exn_str (TaskNotFoundError s) = s"
| "exn_str (TaskNotRetryableError s) = s"
| "exn_str (ServiceUnavailableError s) = s"
| "exn_str (IntegrityError s) = s"
| "exn_str (DataError s) = s"
| "exn_str (RuntimeError s) = s"
| "exn_str (ValueError s) = s"
| "exn_str (OSError s) = s"
| "exn_str (OtherError s) = s"

text \<open>"Task (id) linked recording (id) does not exist".\<close>

definition msg_recording_missing :: "uuid \<Rightarrow> uuid \<Rightarrow> pstr" where
  [msg_defs]: "msg_recording_missing tid rid =
     asc ''Task '' @ uuid_str tid @ asc '' '' @ [20851, 32852, 24405, 38899] @ asc '' '' @
     uuid_str rid @ asc '' '' @ [19981, 23384, 22312]"

text \<open>"LLM_API_KEY not configured and WORKER_ALLOW_MOCK_LLM=false, cannot summarize".\<close>

definition msg_no_llm :: pstr where
  [msg_defs]: "msg_no_llm =
     [26410, 37197, 32622] @ asc '' LLM_API_KEY'' @ [65292, 19988] @
     asc '' WORKER_ALLOW_MOCK_LLM=false'' @ [65292, 26080, 27861, 29983, 25104, 25688, 35201]"

text \<open>"graceful shutdown timed out, task interrupted, will be retried".\<close>

definition msg_aborted :: pstr where
  [msg_defs]: "msg_aborted =
     [26381, 21153, 20248, 38597, 20851, 38381, 36229, 26102, 65292, 20219, 21153, 34987,
      20013, 26029, 65292, 20934, 22791, 37325, 35797]"

text \<open>The placeholder summary: "mock summary", "point 1", "todo 1".\<close>

definition mock_summary :: json where
  "mock_summary = JDict
     [(asc ''summary'', JStr [27169, 25311, 25688, 35201]),
      (asc ''key_points'', JList [JStr ([35201, 28857] @ asc ''1'')]),
      (asc ''todos'', JList [JStr ([24453, 21150] @ asc ''1'')])]"

section \<open>The coroutine\<close>

record exec_cfg =
  worker_id :: pstr
  lease_seconds :: int
  max_retries :: int
  has_summarizer :: bool
  allow_mock_llm :: bool

datatype outcome =
    NotFound
  | Mismatch
  | LostLease
  | Completed
  | Failed int TaskStatus
  | FailureNotApplied
  | Crashed exn
  | Cancelled

datatype pc =
    Fetch
  | FirstRenew uuid
  | ReadRecording uuid
  | Transcribe pstr
  | MarkSummarizing pstr
  | Summarize pstr
  | MarkDone json
  | HandleFailure pstr
  | Exited outcome

record exec_state =
  ex_task :: uuid
  ex_pc :: pc
  lease_lost :: bool
  renewing :: bool

datatype event =
    Tx tx
  | AsrResult "exn + pstr"
  | SummaryResult "exn + json"
  | RenewTick tx
  | Cancel

definition start_exec :: "uuid \<Rightarrow> exec_state" where
  "start_exec tid = \<lparr>ex_task = tid, ex_pc = Fetch, lease_lost = False, renewing = False\<rparr>"

definition goto :: "exec_state \<Rightarrow> pc \<Rightarrow> exec_state" where
  "goto x p = x\<lparr>ex_pc := p\<rparr>"

text \<open>Leaving \<open>async with self._lease_keepalive(...)\<close> cancels the renewal loop.\<close>

definition leave :: "exec_state \<Rightarrow> pc \<Rightarrow> exec_state" where
  "leave x p = x\<lparr>ex_pc := p, renewing := False\<rparr>"

text \<open>\<open>except Exception as e: await self._handle_task_failure(task_id, str(e))\<close>.\<close>

definition fail_with :: "exec_state \<Rightarrow> exn \<Rightarrow> exec_state" where
  "fail_with x e = leave x (HandleFailure (exn_str e))"

text \<open>\<open>_await_while_leased\<close> on entry: a lease already lost ends the work before it starts.\<close>

definition enter_leased :: "exec_state \<Rightarrow> pc \<Rightarrow> exec_state" where
  "enter_leased x p = (if lease_lost x then leave x (Exited LostLease) else goto x p)"

definition summarize_result :: "exec_cfg \<Rightarrow> exn + json \<Rightarrow> exn + json" where
  "summarize_result cfg r =
     (if has_summarizer cfg then r
      else if allow_mock_llm cfg then Inr mock_summary
      else Inl (RuntimeError msg_no_llm))"

text \<open>\<open>_renew_lease\<close>, at the start and in the renewal loop.\<close>

definition executor_renew_lease :: "exec_cfg \<Rightarrow> clock \<Rightarrow> tx \<Rightarrow> uuid \<Rightarrow> database \<Rightarrow> bool tx_result \<times> database" where
  [simp]: "executor_renew_lease cfg ck x tid db =
     task_tx x (renew_lease ck tid (worker_id cfg) (lease_seconds cfg)) db"

text \<open>The transaction the coroutine is suspended in runs.\<close>

definition exec_tx :: "exec_cfg \<Rightarrow> clock \<Rightarrow> tx \<Rightarrow> database \<times> exec_state \<Rightarrow> database \<times> exec_state" where
  "exec_tx cfg ck x s =
     (case s of (db, e) \<Rightarrow>
        (case ex_pc e of
           Fetch \<Rightarrow>
             (case task_tx x (\<lambda>db. (get_by_id db (ex_task e), db)) db of
                (Returned None, db') \<Rightarrow> (db', leave e (Exited NotFound))
              | (Returned (Some t), db') \<Rightarrow>
                  (if status t \<noteq> TRANSCRIBING \<or> locked_by t \<noteq> Some (worker_id cfg)
                   then (db', leave e (Exited Mismatch))
                   else (db', goto e (FirstRenew (recording_id t))))
              | (Raised ex, db') \<Rightarrow> (db', fail_with e ex)
              | (TxCancelled, db') \<Rightarrow> (db', leave e (Exited Cancelled)))
         | FirstRenew rid \<Rightarrow>
             (case executor_renew_lease cfg ck x (ex_task e) db of
                (Returned ok, db') \<Rightarrow>
                  (if ok then (db', enter_leased (e\<lparr>renewing := True\<rparr>) (ReadRecording rid))
                   else (db', enter_leased (e\<lparr>lease_lost := True\<rparr>) (ReadRecording rid)))
              | (Raised ex, db') \<Rightarrow> (db', fail_with e ex)
              | (TxCancelled, db') \<Rightarrow> (db', leave e (Exited Cancelled)))
         | ReadRecording rid \<Rightarrow>
             (case task_tx x (\<lambda>db. (recording_get_by_id db rid, db)) db of
                (Returned None, db') \<Rightarrow>
                  (db', fail_with e (RuntimeError (msg_recording_missing (ex_task e) rid)))
              | (Returned (Some r), db') \<Rightarrow> (db', goto e (Transcribe (file_path r)))
              | (Raised ex, db') \<Rightarrow> (db', fail_with e ex)
              | (TxCancelled, db') \<Rightarrow> (db', leave e (Exited Cancelled)))
         | MarkSummarizing tr \<Rightarrow>
             (case task_tx x (mark_summarizing ck (ex_task e) (worker_id cfg) tr) db of
                (Returned ok, db') \<Rightarrow>
                  (if ok then (db', enter_leased e (Summarize tr))
                   else (db', leave e (Exited LostLease)))
              | (Raised ex, db') \<Rightarrow> (db', fail_with e ex)
              | (TxCancelled, db') \<Rightarrow> (db', leave e (Exited Cancelled)))
         | MarkDone sm \<Rightarrow>
             (case task_tx x (mark_done ck (ex_task e) (worker_id cfg) sm) db of
                (Returned ok, db') \<Rightarrow>
                  (db', leave e (Exited (if ok then Completed else LostLease)))
              | (Raised ex, db') \<Rightarrow> (db', fail_with e ex)
              | (TxCancelled, db') \<Rightarrow> (db', leave e (Exited Cancelled)))
         | HandleFailure msg \<Rightarrow>
             (case task_tx x (mark_failure ck (ex_task e) (worker_id cfg) msg (max_retries cfg)) db of
                (Returned None, db') \<Rightarrow> (db', leave e (Exited FailureNotApplied))
              | (Returned (Some (n, st)), db') \<Rightarrow> (db', leave e (Exited (Failed n st)))
              | (Raised ex, db') \<Rightarrow> (db', leave e (Exited (Crashed ex)))
              | (TxCancelled, db') \<Rightarrow> (db', leave e (Exited Cancelled)))
         | _ \<Rightarrow> s))"

text \<open>The transcriber and the summarizer return or raise.\<close>

definition exec_asr :: "exn + pstr \<Rightarrow> exec_state \<Rightarrow> exec_state" where
  "exec_asr r e =
     (case ex_pc e of
        Transcribe path \<Rightarrow>
          (case r of Inl ex \<Rightarrow> fail_with e ex | Inr tr \<Rightarrow> goto e (MarkSummarizing tr))
      | _ \<Rightarrow> e)"

definition exec_summary :: "exec_cfg \<Rightarrow> exn + json \<Rightarrow> exec_state \<Rightarrow> exec_state" where
  "exec_summary cfg r e =
     (case ex_pc e of
        Summarize tr \<Rightarrow>
          (case summarize_result cfg r of Inl ex \<Rightarrow> fail_with e ex | Inr sm \<Rightarrow> goto e (MarkDone sm))
      | _ \<Rightarrow> e)"

text \<open>
  One round of \<open>_lease_renew_loop\<close>.  A renewal that finds the lock gone sets
  \<open>lease_lost\<close>, which ends work being awaited at once; a renewal that \<^emph>\<open>raises\<close> ends the
  loop and nothing else.  (Only \<open>leave\<close> cancels the loop, and then it is no longer renewing.)
\<close>

definition leased_work :: "pc \<Rightarrow> bool" where
  "leased_work p =
     (case p of ReadRecording _ \<Rightarrow> True | Transcribe _ \<Rightarrow> True | Summarize _ \<Rightarrow> True | _ \<Rightarrow> False)"

definition exec_renew :: "exec_cfg \<Rightarrow> clock \<Rightarrow> tx \<Rightarrow> database \<times> exec_state \<Rightarrow> database \<times> exec_state" where
  "exec_renew cfg ck x s =
     (case s of (db, e) \<Rightarrow>
        if \<not> renewing e then s
        else (case executor_renew_lease cfg ck x (ex_task e) db of
                (Returned ok, db') \<Rightarrow>
                  (if ok then (db', e)
                   else (db', let e' = e\<lparr>lease_lost := True, renewing := False\<rparr>
                              in if leased_work (ex_pc e') then leave e' (Exited LostLease) else e'))
              | (Raised ex, db') \<Rightarrow> (db', e\<lparr>renewing := False\<rparr>)
              | (TxCancelled, db') \<Rightarrow> s))"

definition exec_cancel :: "exec_state \<Rightarrow> exec_state" where
  "exec_cancel e =
     (case ex_pc e of Exited _ \<Rightarrow> e | _ \<Rightarrow> leave e (Exited Cancelled))"

definition exec_step :: "exec_cfg \<Rightarrow> clock \<Rightarrow> event \<Rightarrow> database \<times> exec_state \<Rightarrow> database \<times> exec_state" where
  "exec_step cfg ck ev s =
     (case ev of
        Tx x \<Rightarrow> exec_tx cfg ck x s
      | AsrResult r \<Rightarrow> (fst s, exec_asr r (snd s))
      | SummaryResult r \<Rightarrow> (fst s, exec_summary cfg r (snd s))
      | RenewTick x \<Rightarrow> exec_renew cfg ck x s
      | Cancel \<Rightarrow> (fst s, exec_cancel (snd s)))"

text \<open>
  A run of \<open>process\<close>: events of the coroutine, each at the time it happens and after what
  other sessions have committed meanwhile.
\<close>

fun exec_run ::
  "exec_cfg \<Rightarrow> (clock \<times> (database \<Rightarrow> database) \<times> event) list \<Rightarrow> database \<times> exec_state \<Rightarrow> database \<times> exec_state" where
  "exec_run cfg [] s = s"
| "exec_run cfg ((ck, env, ev) # evs) s =
     exec_run cfg evs (exec_step cfg ck ev (env (fst s), snd s))"

section \<open>Shutdown\<close>

text \<open>\<open>as_uuid\<close> and \<open>TaskExecutor.reset_aborted\<close>: the keys are the texts the dispatcher
  made of the task ids.\<close>

fun as_uuids :: "pstr list \<Rightarrow> exn + uuid list" where
  "as_uuids [] = Inr []"
| "as_uuids (k # ks) =
     (case uuid_of_str k of Inl e \<Rightarrow> Inl e
      | Inr u \<Rightarrow> (case as_uuids ks of Inl e \<Rightarrow> Inl e | Inr us \<Rightarrow> Inr (u # us)))"

definition executor_reset_aborted ::
  "exec_cfg \<Rightarrow> clock \<Rightarrow> tx \<Rightarrow> pstr list \<Rightarrow> database \<Rightarrow> (exn + unit) \<times> database" where
  "executor_reset_aborted cfg ck x keys db =
     (if keys = [] then (Inr (), db)
      else case as_uuids keys of
             Inl e \<Rightarrow> (Inl e, db)
           | Inr ids \<Rightarrow>
               (case task_tx x (reset_aborted ck ids (worker_id cfg) msg_aborted) db of
                  (Returned n, db') \<Rightarrow> (Inr (), db')
                | (Raised e, db') \<Rightarrow> (Inl e, db')
                | (TxCancelled, db') \<Rightarrow> (Inl (OtherError []), db')))"

lemma as_uuids_str: "as_uuids (map uuid_str ids) = Inr ids"
  by (induction ids) (simp_all add: uuid_of_str_str)

section \<open>What one step can do to the database\<close>

text \<open>The assignments an executor makes, all under the guard that it owns the row.\<close>

inductive owner_assign :: "exec_cfg \<Rightarrow> clock \<Rightarrow> (task \<Rightarrow> task) \<Rightarrow> bool" for cfg ck where
  keep: "owner_assign cfg ck (\<lambda>t. t)"
| renew: "owner_assign cfg ck (renew_set ck (lease_seconds cfg))"
| summarizing: "owner_assign cfg ck (summarizing_set ck tr)"
| finish: "owner_assign cfg ck (done_set ck sm)"
| failure: "owner_assign cfg ck (failure_set ck msg (max_retries cfg))"

lemma sql_update_id [simp]: "sql_update G (\<lambda>t. t) rs = rs"
  by (simp add: sql_update_def)

definition owner_effect :: "exec_cfg \<Rightarrow> clock \<Rightarrow> uuid \<Rightarrow> database \<Rightarrow> database \<Rightarrow> bool" where
  "owner_effect cfg ck tid db db' \<longleftrightarrow>
     (\<exists>S. owner_assign cfg ck S \<and>
        db' = db\<lparr>tasks := sql_update (owner_guard tid (worker_id cfg)) S (tasks db)\<rparr>)"

lemma owner_effect_refl: "owner_effect cfg ck tid db db"
  unfolding owner_effect_def by (intro exI conjI, rule keep) simp

lemma owner_effect_ops:
  "owner_effect cfg ck tid db (snd (renew_lease ck tid (worker_id cfg) (lease_seconds cfg) db))"
  "owner_effect cfg ck tid db (snd (mark_summarizing ck tid (worker_id cfg) tr db))"
  "owner_effect cfg ck tid db (snd (mark_done ck tid (worker_id cfg) sm db))"
  "owner_effect cfg ck tid db (snd (mark_failure ck tid (worker_id cfg) msg (max_retries cfg) db))"
  unfolding owner_effect_def renew_lease_def mark_summarizing_def mark_done_def mark_failure_def
  by (auto intro: owner_assign.intros)

lemma owner_effect_tx:
  assumes "task_tx x body db = (r, db')" and "owner_effect cfg ck tid db (snd (body db))"
  shows "owner_effect cfg ck tid db db'"
  using task_tx_db [of x body db] assms owner_effect_refl by (cases "db' = db") auto

lemma exec_step_effect:
  "owner_effect cfg ck (ex_task e) db (fst (exec_step cfg ck ev (db, e)))"
proof (cases ev)
  case (Tx x)
  show ?thesis
    unfolding Tx exec_step_def exec_tx_def
    by (auto simp: owner_effect_refl owner_effect_ops dest: task_tx_read
        intro: owner_effect_tx split: pc.splits prod.splits tx_result.splits option.splits)
next
  case (RenewTick x)
  show ?thesis
    unfolding RenewTick exec_step_def exec_renew_def
    by (auto simp: owner_effect_refl owner_effect_ops
        intro: owner_effect_tx split: prod.splits tx_result.splits)
qed (simp_all add: exec_step_def owner_effect_refl)

lemma owner_assign_key: "owner_assign cfg ck S \<Longrightarrow> task_id (S u) = task_id u"
  by (erule owner_assign.cases) (auto simp: row_defs Let_def)

lemma owner_effect_get:
  assumes "owner_effect cfg ck tid db db'" and "get_by_id db k = Some t"
  shows "\<exists>S. owner_assign cfg ck S \<and>
    get_by_id db' k = Some (if k = tid \<and> locked_by t = Some (worker_id cfg) then S t else t)"
proof -
  obtain S where S: "owner_assign cfg ck S"
    "db' = db\<lparr>tasks := sql_update (owner_guard tid (worker_id cfg)) S (tasks db)\<rparr>"
    using assms(1) unfolding owner_effect_def by blast
  have "keyed_update task_id S"
    using owner_assign_key [OF S(1)] by unfold_locales
  from keyed_update.by_key_update [OF this] show ?thesis
    using S get_by_id_SomeD [OF assms(2)] assms(2)
    by (auto simp: get_by_id_def owner_guard_def)
qed

lemma db_ok_owner_effect:
  assumes "owner_effect cfg ck tid db db'" and "db_ok M db" and "max_retries cfg \<le> int M"
  shows "db_ok M db'"
  using assms(1) unfolding owner_effect_def
proof (elim exE conjE)
  fix S assume S: "owner_assign cfg ck S"
    and db': "db' = db\<lparr>tasks := sql_update (owner_guard tid (worker_id cfg)) S (tasks db)\<rparr>"
  have M: "max M (nat (max_retries cfg)) = M"
    using assms(3) by simp
  show ?thesis
    using S
  proof cases
    case (failure msg)
    then show ?thesis
      using failure.db_ok_update [of M "max_retries cfg" db] assms(2) by (simp add: M db')
  qed (use assms(2) in \<open>simp_all add: db' renew.db_ok_update summarizing.db_ok_update finish.db_ok_update\<close>)
qed

lemma db_ok_exec_step:
  "db_ok M db \<Longrightarrow> max_retries cfg \<le> int M \<Longrightarrow> db_ok M (fst (exec_step cfg ck ev (db, e)))"
  using db_ok_owner_effect [OF exec_step_effect] by blast

lemma exec_step_task [simp]: "ex_task (snd (exec_step cfg ck ev (db, e))) = ex_task e"
  by (auto simp: exec_step_def exec_tx_def exec_renew_def exec_asr_def exec_summary_def exec_cancel_def
      goto_def leave_def fail_with_def enter_leased_def Let_def
      split: event.splits pc.splits prod.splits tx_result.splits option.splits sum.splits)

end
