(* ===== verification/Dispatcher.thy ===== *)
theory Dispatcher
  imports Executor
begin

text \<open>
  \<open>api/worker/dispatcher.py\<close> and \<open>api/worker/worker.py\<close>.  A worker is its dispatcher
  (the claim loop with its program point, the dictionary \<open>running_tasks\<close>, the time of the last
  reclaim) and the executor coroutines it has spawned; an \<open>asyncio.Task\<close> is the position of
  its coroutine in \<open>procs\<close>.  The loop is cut at its \<open>await\<close>s.
\<close>

section \<open>Messages\<close>

text \<open>"service restarted or lease expired, task interrupted, will be retried".\<close>

definition msg_zombie :: pstr where
  [msg_defs]: "msg_zombie =
     [26381, 21153, 37325, 21551] @ asc ''/'' @ [31199, 32422, 36807, 26399, 65292, 20219, 21153,
      34987, 20013, 26029, 65292, 20934, 22791, 37325, 35797]"

text \<open>"lease expired, task interrupted, will be retried".\<close>

definition msg_expired :: pstr where
  [msg_defs]: "msg_expired =
     [31199, 32422, 36807, 26399, 65292, 20219, 21153, 34987, 20013, 26029, 65292, 20934, 22791,
      37325, 35797]"

section \<open>State\<close>

record disp_cfg =
  exec_of :: exec_cfg
  max_concurrency :: int
  max_batch_size :: int
  reclaim_interval :: time

datatype dpc = LoopTop | Saturated | Claiming int | Sleeping | WaitForWork | LoopExited

record worker_state =
  running :: "(pstr \<times> nat) list"
  procs :: "exec_state list"
  callbacks :: "nat list"
  last_reclaim_at :: time
  d_pc :: dpc
  stop_event :: bool
  started :: bool

definition new_worker :: worker_state where
  "new_worker = \<lparr>running = [], procs = [], callbacks = [], last_reclaim_at = 0, d_pc = LoopExited,
     stop_event = False, started = False\<rparr>"

section \<open>The derived settings of \<open>TaskWorker\<close>\<close>

text \<open>\<open>max(5.0, lease / 3.0)\<close> and \<open>max(30.0, lease / 2.0)\<close>, in microseconds (whole
  ones: a third of a lease is rounded down).\<close>

definition lease_renew_interval :: "int \<Rightarrow> time" where
  "lease_renew_interval lease = max (seconds 5) (seconds lease div 3)"

definition reclaim_interval_of :: "int \<Rightarrow> time" where
  "reclaim_interval_of lease = max (seconds 30) (seconds lease div 2)"

section \<open>Spawning executors\<close>

definition exited :: "exec_state \<Rightarrow> bool" where
  "exited e = (case ex_pc e of Exited _ \<Rightarrow> True | _ \<Rightarrow> False)"

definition schedule_task :: "uuid \<Rightarrow> worker_state \<Rightarrow> worker_state" where
  "schedule_task tid ws =
     ws\<lparr>procs := procs ws @ [start_exec tid],
        running := dict_set (uuid_str tid) (length (procs ws)) (running ws)\<rparr>"

text \<open>\<open>lambda _fut, tid=key: self.running_tasks.pop(tid, None)\<close>: the callback of the i-th
  coroutine, run some time after it has finished.\<close>

definition done_callback :: "nat \<Rightarrow> worker_state \<Rightarrow> worker_state" where
  "done_callback i ws =
     (if i \<in> set (callbacks ws) \<and> i < length (procs ws)
      then ws\<lparr>running := dict_pop (uuid_str (ex_task (procs ws ! i))) (running ws),
              callbacks := removeAll i (callbacks ws)\<rparr>
      else ws)"

text \<open>A step of the i-th coroutine; finishing schedules its callback.\<close>

definition proc_step ::
  "disp_cfg \<Rightarrow> clock \<Rightarrow> nat \<Rightarrow> event \<Rightarrow> database \<times> worker_state \<Rightarrow> database \<times> worker_state" where
  "proc_step cfg ck i ev s =
     (case s of (db, ws) \<Rightarrow>
        if i < length (procs ws)
        then (case exec_step (exec_of cfg) ck ev (db, procs ws ! i) of
                (db', e') \<Rightarrow>
                  (db', ws\<lparr>procs := (procs ws)[i := e'],
                           callbacks := (if exited e' \<and> \<not> exited (procs ws ! i)
                                         then callbacks ws @ [i] else callbacks ws)\<rparr>))
        else s)"

section \<open>Reclaiming and claiming\<close>

definition recover_body :: "disp_cfg \<Rightarrow> clock \<Rightarrow> bool \<Rightarrow> database \<Rightarrow> int \<times> database" where
  "recover_body cfg ck include_own db =
     reclaim_in_flight ck (worker_id (exec_of cfg)) include_own
       (if include_own then msg_zombie else msg_expired) db"

definition recover_zombie_tasks ::
  "disp_cfg \<Rightarrow> clock \<Rightarrow> bool \<Rightarrow> tx \<Rightarrow> database \<Rightarrow> int tx_result \<times> database" where
  "recover_zombie_tasks cfg ck include_own x db = task_tx x (recover_body cfg ck include_own) db"

definition reclaim_due :: "disp_cfg \<Rightarrow> time \<Rightarrow> worker_state \<Rightarrow> bool" where
  "reclaim_due cfg mt ws \<longleftrightarrow> reclaim_interval cfg \<le> mt - last_reclaim_at ws"

definition claim_body ::
  "disp_cfg \<Rightarrow> clock \<Rightarrow> (uuid \<Rightarrow> bool) \<Rightarrow> bool \<Rightarrow> int \<Rightarrow> database \<Rightarrow> uuid list \<times> database" where
  "claim_body cfg ck lk do_reclaim limit db =
     claim_pending ck lk limit (worker_id (exec_of cfg)) (lease_seconds (exec_of cfg))
       (if do_reclaim
        then snd (reclaim_in_flight ck (worker_id (exec_of cfg)) False msg_expired db) else db)"

definition reclaim_and_claim ::
  "disp_cfg \<Rightarrow> clock \<Rightarrow> time \<Rightarrow> (uuid \<Rightarrow> bool) \<Rightarrow> tx \<Rightarrow> int \<Rightarrow> database \<times> worker_state \<Rightarrow>
     uuid list tx_result \<times> database \<times> worker_state" where
  "reclaim_and_claim cfg ck mt lk x limit s =
     (case s of (db, ws) \<Rightarrow>
        let do_reclaim = reclaim_due cfg mt ws;
            ws1 = (if do_reclaim then ws\<lparr>last_reclaim_at := mt\<rparr> else ws)
        in case task_tx x (claim_body cfg ck lk do_reclaim limit) db of (r, db') \<Rightarrow> (r, db', ws1))"

section \<open>The loop\<close>

definition loop_top :: "disp_cfg \<Rightarrow> worker_state \<Rightarrow> worker_state" where
  "loop_top cfg ws =
     (if d_pc ws \<noteq> LoopTop then ws
      else if stop_event ws then ws\<lparr>d_pc := LoopExited\<rparr>
      else let inflight = int (length (running ws))
           in if max_concurrency cfg \<le> inflight then ws\<lparr>d_pc := Saturated\<rparr>
              else ws\<lparr>d_pc := Claiming (min (max_concurrency cfg - inflight) (max_batch_size cfg))\<rparr>)"

text \<open>\<open>_maybe_reclaim_expired_leases\<close>, then half a second of sleep.\<close>

definition loop_saturated ::
  "disp_cfg \<Rightarrow> clock \<Rightarrow> time \<Rightarrow> tx \<Rightarrow> database \<times> worker_state \<Rightarrow> database \<times> worker_state" where
  "loop_saturated cfg ck mt x s =
     (case s of (db, ws) \<Rightarrow>
        if d_pc ws \<noteq> Saturated then s
        else if \<not> reclaim_due cfg mt ws then (db, ws\<lparr>d_pc := Sleeping\<rparr>)
        else (case recover_zombie_tasks cfg ck False x db of
                (TxCancelled, db') \<Rightarrow> (db', ws\<lparr>last_reclaim_at := mt, d_pc := LoopExited\<rparr>)
              | (_, db') \<Rightarrow> (db', ws\<lparr>last_reclaim_at := mt, d_pc := Sleeping\<rparr>)))"

definition loop_claim ::
  "disp_cfg \<Rightarrow> clock \<Rightarrow> time \<Rightarrow> (uuid \<Rightarrow> bool) \<Rightarrow> tx \<Rightarrow> database \<times> worker_state \<Rightarrow> database \<times> worker_state" where
  "loop_claim cfg ck mt lk x s =
     (case d_pc (snd s) of
        Claiming batch \<Rightarrow>
          (case reclaim_and_claim cfg ck mt lk x batch s of
             (Returned ids, db', ws') \<Rightarrow>
               (if ids = [] then (db', ws'\<lparr>d_pc := WaitForWork\<rparr>)
                else (db', (fold schedule_task ids ws')\<lparr>d_pc := LoopTop\<rparr>))
           | (Raised e, db', ws') \<Rightarrow> (db', ws'\<lparr>d_pc := Sleeping\<rparr>)
           | (TxCancelled, db', ws') \<Rightarrow> (db', ws'\<lparr>d_pc := LoopExited\<rparr>))
      | _ \<Rightarrow> s)"

text \<open>A sleep ends by its timeout or by \<open>stop_event\<close>, a wait also by \<open>wake\<close>.\<close>

definition loop_wake :: "worker_state \<Rightarrow> worker_state" where
  "loop_wake ws =
     (if d_pc ws = Sleeping \<or> d_pc ws = WaitForWork then ws\<lparr>d_pc := LoopTop\<rparr> else ws)"

section \<open>Start, submit and stop\<close>

text \<open>The start of the dispatcher: the recovery, then the loop.\<close>

definition dispatcher_start ::
  "disp_cfg \<Rightarrow> clock \<Rightarrow> time \<Rightarrow> tx \<Rightarrow> database \<times> worker_state \<Rightarrow> (exn + unit) \<times> database \<times> worker_state" where
  "dispatcher_start cfg ck mt x s =
     (case s of (db, ws) \<Rightarrow>
        (case recover_zombie_tasks cfg ck True x db of
           (Returned n, db') \<Rightarrow>
             (Inr (), db', ws\<lparr>last_reclaim_at := mt, stop_event := False, d_pc := LoopTop\<rparr>)
         | (Raised e, db') \<Rightarrow> (Inl e, db', ws)
         | (TxCancelled, db') \<Rightarrow> (Inl (OtherError []), db', ws)))"

definition worker_start ::
  "disp_cfg \<Rightarrow> clock \<Rightarrow> time \<Rightarrow> tx \<Rightarrow> database \<times> worker_state \<Rightarrow> (exn + unit) \<times> database \<times> worker_state" where
  "worker_start cfg ck mt x s =
     (case dispatcher_start cfg ck mt x s of
        (Inl e, s') \<Rightarrow> (Inl e, s')
      | (Inr u, db', ws') \<Rightarrow> (Inr (), db', ws'\<lparr>started := True\<rparr>))"

lemma worker_start_unfold:
  "worker_start cfg ck mt x s =
     (case s of (db, ws) \<Rightarrow>
        (case recover_zombie_tasks cfg ck True x db of
           (Returned n, db') \<Rightarrow>
             (Inr (), db', ws\<lparr>last_reclaim_at := mt, stop_event := False, d_pc := LoopTop, started := True\<rparr>)
         | (Raised e, db') \<Rightarrow> (Inl e, db', ws)
         | (TxCancelled, db') \<Rightarrow> (Inl (OtherError []), db', ws)))"
  by (simp add: worker_start_def dispatcher_start_def split: prod.splits tx_result.splits)

text \<open>"TaskWorker not started".\<close>

definition msg_not_started :: pstr where
  [msg_defs]: "msg_not_started = asc ''TaskWorker '' @ [23578, 26410, 21551, 21160]"

text \<open>
  \<open>wake\<close> ends the wait of the loop; at any other point it only sets the event, which
  \<open>_wait_for_work\<close> clears before it waits.
\<close>

definition wake :: "worker_state \<Rightarrow> worker_state" where
  [simp]: "wake ws = (if d_pc ws = WaitForWork then ws\<lparr>d_pc := LoopTop\<rparr> else ws)"

definition worker_submit :: "uuid \<Rightarrow> worker_state \<Rightarrow> exn + worker_state" where
  "worker_submit tid ws =
     (if \<not> started ws then Inl (RuntimeError msg_not_started)
      else Inr (wake ws))"

text \<open>\<open>stop_loop\<close>: the loop ends by itself in time or is cancelled; a second call finds it ended.\<close>

definition stop_loop :: "worker_state \<Rightarrow> worker_state" where
  [simp]: "stop_loop ws = ws\<lparr>d_pc := LoopExited\<rparr>"

text \<open>The first part of \<open>stop\<close>: the events are set and the loop is ended.\<close>

definition worker_stop_loop :: "worker_state \<Rightarrow> worker_state" where
  "worker_stop_loop ws = stop_loop (ws\<lparr>stop_event := True, started := False\<rparr>)"

text \<open>
  The second part, after \<open>asyncio.wait\<close> has timed out: the coroutines of \<open>running_tasks\<close>
  that have not finished are cancelled and their tasks reset.
\<close>

definition pending_of :: "worker_state \<Rightarrow> (pstr \<times> nat) list" where
  "pending_of ws = filter (\<lambda>(k, i). i < length (procs ws) \<and> \<not> exited (procs ws ! i)) (running ws)"

definition cancel_procs :: "nat list \<Rightarrow> exec_state list \<Rightarrow> exec_state list" where
  "cancel_procs is ps = map (\<lambda>(i, e). if i \<in> set is then exec_cancel e else e) (enumerate 0 ps)"

definition worker_stop ::
  "disp_cfg \<Rightarrow> clock \<Rightarrow> tx \<Rightarrow> database \<times> worker_state \<Rightarrow> (exn + unit) \<times> database \<times> worker_state" where
  "worker_stop cfg ck x s =
     (case s of (db, ws) \<Rightarrow>
        let ws1 = worker_stop_loop ws; pend = pending_of ws1
        in if pend = [] then (Inr (), db, ws1)
           else (case executor_reset_aborted (exec_of cfg) ck x (map fst pend) db of
                   (r, db') \<Rightarrow> (r, db', ws1\<lparr>procs := cancel_procs (map snd pend) (procs ws1),
                                           callbacks := callbacks ws1 @ map snd pend\<rparr>)))"

end
