(* ===== verification/Dispatcher_Properties.thy ===== *)
theory Dispatcher_Properties
  imports Dispatcher Sample_Data
begin

text \<open>
  The dispatcher: its bookkeeping and its concurrency limit, what a restart and a shutdown do to
  the tasks, and the two places where the bookkeeping is weaker than it looks (a lease too short
  for the renewal interval, and a worker that takes a task over from itself).
\<close>

section \<open>The invariant of a worker\<close>

text \<open>
  \<open>running_tasks\<close> never exceeds the concurrency limit, also not after a batch being claimed
  has arrived, and each key names the task of the coroutine it maps to.
\<close>

definition entry_ok :: "worker_state \<Rightarrow> pstr \<times> nat \<Rightarrow> bool" where
  "entry_ok ws p \<longleftrightarrow> snd p < length (procs ws) \<and> fst p = uuid_str (ex_task (procs ws ! snd p))"

definition load_ok :: "disp_cfg \<Rightarrow> worker_state \<Rightarrow> bool" where
  "load_ok cfg ws \<longleftrightarrow>
     (case d_pc ws of
        Claiming b \<Rightarrow> int (length (running ws)) + max 0 b \<le> max_concurrency cfg
      | _ \<Rightarrow> int (length (running ws)) \<le> max 0 (max_concurrency cfg))"

definition worker_ok :: "disp_cfg \<Rightarrow> worker_state \<Rightarrow> bool" where
  "worker_ok cfg ws \<longleftrightarrow>
     distinct (map fst (running ws)) \<and> list_all (entry_ok ws) (running ws) \<and> load_ok cfg ws"

lemma worker_ok_new: "worker_ok cfg new_worker"
  by (simp add: worker_ok_def load_ok_def new_worker_def)

lemma load_ok_length: "load_ok cfg ws \<Longrightarrow> int (length (running ws)) \<le> max 0 (max_concurrency cfg)"
  by (simp add: load_ok_def split: dpc.splits)

lemma worker_ok_moved:
  assumes "worker_ok cfg ws" and "running ws' = running ws" and "procs ws' = procs ws"
    and "d_pc ws' = d_pc ws \<or> (\<forall>b. d_pc ws' \<noteq> Claiming b)"
  shows "worker_ok cfg ws'"
  using assms load_ok_length [of cfg ws]
  by (auto simp: worker_ok_def load_ok_def entry_ok_def list_all_iff split: dpc.splits)

text \<open>Scheduling a batch.\<close>

lemma entry_ok_schedule:
  assumes "list_all (entry_ok ws) (running ws)"
  shows "list_all (entry_ok (schedule_task tid ws)) (running (schedule_task tid ws))"
proof -
  have old: "entry_ok (schedule_task tid ws) p" if "p \<in> set (running ws)" for p
    using assms that by (auto simp: list_all_iff entry_ok_def schedule_task_def nth_append)
  have new: "entry_ok (schedule_task tid ws) (uuid_str tid, length (procs ws))"
    by (simp add: entry_ok_def schedule_task_def start_exec_def)
  have "set (dict_set k v d) \<subseteq> insert (k, v) (set d)" for k v and d :: "(pstr \<times> nat) list"
    by (induction d) (auto split: if_splits)
  then show ?thesis
    using old new by (fastforce simp: list_all_iff schedule_task_def)
qed

lemma schedule_tasks:
  assumes "distinct (map fst (running ws))" and "list_all (entry_ok ws) (running ws)"
  shows "distinct (map fst (running (fold schedule_task ids ws)))"
    and "list_all (entry_ok (fold schedule_task ids ws)) (running (fold schedule_task ids ws))"
    and "length (running (fold schedule_task ids ws)) \<le> length (running ws) + length ids"
proof -
  have len: "length (running (schedule_task i w)) \<le> Suc (length (running w))" for i w
    by (simp add: schedule_task_def length_dict_set)
  have dis: "distinct (map fst (running w)) \<Longrightarrow> distinct (map fst (running (schedule_task i w)))" for i w
    by (simp add: schedule_task_def distinct_dict_set)
  show "distinct (map fst (running (fold schedule_task ids ws)))"
    using assms(1) by (induction ids arbitrary: ws) (simp_all add: dis)
  show "list_all (entry_ok (fold schedule_task ids ws)) (running (fold schedule_task ids ws))"
    using assms(2) by (induction ids arbitrary: ws) (simp_all add: entry_ok_schedule)
  show "length (running (fold schedule_task ids ws)) \<le> length (running ws) + length ids"
  proof (induction ids arbitrary: ws)
    case (Cons i ids)
    show ?case
      using Cons.IH [of "schedule_task i ws"] len [of i ws] by simp
  qed simp
qed

lemma d_pc_schedule [simp]: "d_pc (fold schedule_task ids ws) = d_pc ws"
  by (induction ids arbitrary: ws) (simp_all add: schedule_task_def)

text \<open>Each operation.\<close>

lemma worker_ok_proc_step:
  "worker_ok cfg ws \<Longrightarrow> worker_ok cfg (snd (proc_step cfg ck i ev (db, ws)))"
proof -
  assume ok: "worker_ok cfg ws"
  obtain db' e' where e': "exec_step (exec_of cfg) ck ev (db, procs ws ! i) = (db', e')"
    by fastforce
  have t: "ex_task e' = ex_task (procs ws ! i)"
    using exec_step_task [of "exec_of cfg" ck ev db "procs ws ! i"] by (simp add: e')
  have "load_ok cfg (snd (proc_step cfg ck i ev (db, ws)))"
    using ok by (cases "d_pc ws") (simp_all add: proc_step_def e' worker_ok_def load_ok_def)
  then show ?thesis
    using ok t
    by (auto simp: proc_step_def e' worker_ok_def entry_ok_def list_all_iff nth_list_update)
qed

lemma worker_ok_done_callback:
  assumes "worker_ok cfg ws"
  shows "worker_ok cfg (done_callback i ws)"
proof -
  have "length (running (done_callback i ws)) \<le> length (running ws)"
    "d_pc (done_callback i ws) = d_pc ws"
    by (simp_all add: done_callback_def length_dict_pop)
  then have "load_ok cfg (done_callback i ws)"
    using assms by (cases "d_pc ws") (simp_all add: worker_ok_def load_ok_def)
  then show ?thesis
    using assms
    by (auto simp: worker_ok_def done_callback_def entry_ok_def list_all_iff dict_pop_def
        distinct_map_filter)
qed

lemma worker_ok_loop_top: "worker_ok cfg ws \<Longrightarrow> worker_ok cfg (loop_top cfg ws)"
  by (auto simp: worker_ok_def loop_top_def Let_def load_ok_def entry_ok_def list_all_iff)

lemma worker_ok_loop_saturated:
  "worker_ok cfg ws \<Longrightarrow> worker_ok cfg (snd (loop_saturated cfg ck mt x (db, ws)))"
  by (auto simp: loop_saturated_def split: prod.splits tx_result.splits intro: worker_ok_moved)

lemma worker_ok_loop_wake: "worker_ok cfg ws \<Longrightarrow> worker_ok cfg (loop_wake ws)"
  by (auto simp: loop_wake_def intro: worker_ok_moved)

lemma task_tx_Returned:
  "task_tx x body db = (Returned r, db') \<Longrightarrow> r = fst (body db) \<and> db' = snd (body db)"
  by (simp add: task_tx_def split: tx.splits)

lemma claim_body_length:
  assumes "db_ok M db"
  shows "length (fst (claim_body cfg ck lk rc n db)) \<le> nat n"
  unfolding claim_body_def
  using claim_pending_ids(3) [OF assms] claim_pending_ids(3) [OF db_ok_reclaim [OF assms]] by simp

lemma reclaim_and_claim_length:
  assumes "db_ok M db" and "reclaim_and_claim cfg ck mt lk x n (db, ws) = (Returned ids, db', ws')"
  shows "length ids \<le> nat n" and "ids = fst (claim_body cfg ck lk (reclaim_due cfg mt ws) n db)"
    and "db' = snd (claim_body cfg ck lk (reclaim_due cfg mt ws) n db)"
  using assms(2) claim_body_length [OF assms(1), of cfg ck lk "reclaim_due cfg mt ws" n]
  by (auto simp: reclaim_and_claim_def Let_def dest!: task_tx_Returned split: prod.splits)

lemma reclaim_and_claim_worker:
  assumes "reclaim_and_claim cfg ck mt lk x n (db, ws) = (r, db', ws')"
  shows "running ws' = running ws" and "procs ws' = procs ws" and "d_pc ws' = d_pc ws"
  using assms by (auto simp: reclaim_and_claim_def Let_def split: prod.splits if_splits)

lemma worker_ok_loop_claim:
  assumes "db_ok M db" and "worker_ok cfg ws"
  shows "worker_ok cfg (snd (loop_claim cfg ck mt lk x (db, ws)))"
proof (cases "d_pc ws")
  case (Claiming b)
  obtain r db' ws' where r: "reclaim_and_claim cfg ck mt lk x b (db, ws) = (r, db', ws')"
    by (cases "reclaim_and_claim cfg ck mt lk x b (db, ws)") auto
  note same = reclaim_and_claim_worker [OF r]
  have ok': "worker_ok cfg ws'"
    using assms(2) same by (auto intro: worker_ok_moved)
  show ?thesis
  proof (cases "\<exists>ids. r = Returned ids \<and> ids \<noteq> []")
    case True
    then obtain ids where ids: "r = Returned ids" "ids \<noteq> []" by blast
    have len: "length ids \<le> nat b"
      using reclaim_and_claim_length(1) [OF assms(1)] r ids(1) by simp
    have b: "int (length (running ws')) + max 0 b \<le> max_concurrency cfg"
      using assms(2) Claiming same by (simp add: worker_ok_def load_ok_def)
    have sched: "distinct (map fst (running ws'))" "list_all (entry_ok ws') (running ws')"
      using ok' by (simp_all add: worker_ok_def)
    note s = schedule_tasks [OF sched, of ids]
    have "int (length (running (fold schedule_task ids ws'))) \<le> max_concurrency cfg"
      using s(3) len b by linarith
    then show ?thesis
      using s(1,2) ids
      by (simp add: loop_claim_def Claiming r worker_ok_def load_ok_def entry_ok_def list_all_iff)
  next
    case False
    then show ?thesis
      using ok'
      by (auto simp: loop_claim_def Claiming r split: tx_result.splits intro: worker_ok_moved)
  qed
qed (use assms(2) in \<open>simp_all add: loop_claim_def\<close>)

lemma worker_ok_start:
  "worker_ok cfg ws \<Longrightarrow> worker_ok cfg (snd (snd (worker_start cfg ck mt x (db, ws))))"
  by (auto simp: worker_start_unfold split: prod.splits tx_result.splits intro: worker_ok_moved)

lemma worker_ok_submit: "worker_ok cfg ws \<Longrightarrow> worker_submit tid ws = Inr ws' \<Longrightarrow> worker_ok cfg ws'"
  by (auto simp: worker_submit_def split: if_splits intro: worker_ok_moved)

lemma length_cancel_procs [simp]: "length (cancel_procs is ps) = length ps"
  by (simp add: cancel_procs_def)

lemma nth_cancel_procs:
  "i < length ps \<Longrightarrow> cancel_procs is ps ! i = (if i \<in> set is then exec_cancel (ps ! i) else ps ! i)"
  by (simp add: cancel_procs_def nth_enumerate_eq)

lemma ex_task_cancel [simp]: "ex_task (exec_cancel e) = ex_task e"
  by (simp add: exec_cancel_def leave_def split: pc.splits)

lemma worker_ok_stop:
  "worker_ok cfg ws \<Longrightarrow> worker_ok cfg (snd (snd (worker_stop cfg ck x (db, ws))))"
  using load_ok_length [of cfg ws]
  by (auto simp: worker_stop_def Let_def worker_stop_loop_def worker_ok_def load_ok_def
      entry_ok_def list_all_iff nth_cancel_procs split: prod.splits)

section \<open>A batch that has been claimed\<close>

lemma schedule_task_fields:
  "procs (schedule_task i ws) = procs ws @ [start_exec i]"
  "map_of (running (schedule_task i ws)) = (map_of (running ws))(uuid_str i \<mapsto> length (procs ws))"
  by (simp_all add: schedule_task_def map_of_dict_set)

lemma procs_schedule [simp]:
  "procs (fold schedule_task ids ws) = procs ws @ map start_exec ids"
  by (induction ids arbitrary: ws) (simp_all add: schedule_task_fields)

lemma running_schedule_other:
  "tid \<notin> set ids \<Longrightarrow>
    map_of (running (fold schedule_task ids ws)) (uuid_str tid) = map_of (running ws) (uuid_str tid)"
proof (induction ids arbitrary: ws)
  case (Cons a ids)
  have "uuid_str a \<noteq> uuid_str tid" using Cons.prems by (auto dest: uuid_str_inj)
  with Cons.IH [of "schedule_task a ws"] Cons.prems show ?case
    by (simp add: schedule_task_fields)
qed simp

lemma running_schedule:
  assumes "distinct ids" and "k < length ids"
  shows "map_of (running (fold schedule_task ids ws)) (uuid_str (ids ! k)) =
    Some (length (procs ws) + k)"
  using assms
proof (induction ids arbitrary: ws k)
  case (Cons a ids)
  show ?case
  proof (cases k)
    case 0
    have "a \<notin> set ids" using Cons.prems(1) by simp
    from running_schedule_other [OF this] 0 show ?thesis
      by (simp add: schedule_task_fields)
  next
    case (Suc j)
    have "length (procs (schedule_task a ws)) = Suc (length (procs ws))"
      by (simp add: schedule_task_fields)
    with Suc Cons.prems Cons.IH [of j "schedule_task a ws"] show ?thesis by simp
  qed
qed simp

lemma claim_body_row:
  assumes "db_ok M db" and "tid \<in> set (fst (claim_body cfg ck lk rc n db))"
  shows "\<exists>t. get_by_id (snd (claim_body cfg ck lk rc n db)) tid = Some t \<and> status t = TRANSCRIBING \<and>
    locked_by t = Some (worker_id (exec_of cfg)) \<and>
    lease_expires_at t = Some (sql_utc_now ck + make_interval_secs (lease_seconds (exec_of cfg)))"
proof -
  let ?w = "worker_id (exec_of cfg)"
  define db1 where "db1 = (if rc then snd (reclaim_in_flight ck ?w False msg_expired db) else db)"
  have ok1: "db_ok M db1" using assms(1) by (auto simp: db1_def)
  have "tid \<in> set (fst (claim_pending ck lk n ?w (lease_seconds (exec_of cfg)) db1))"
    using assms(2) by (simp add: claim_body_def db1_def)
  then have c: "get_by_id (snd (claim_pending ck lk n ?w (lease_seconds (exec_of cfg)) db1)) tid =
      map_option (claim_set ck ?w (lease_seconds (exec_of cfg))) (get_by_id db1 tid)"
    and p: "tid \<in> set (pick_pending ck lk n db1)"
    using get_by_id_claim [OF ok1] claim_pending_ids(1) [OF ok1] by (simp_all split: if_splits)
  obtain t1 where "get_by_id db1 tid = Some t1" using picked_get [OF ok1 p] by blast
  with c show ?thesis
    by (simp add: claim_body_def db1_def claim_set_def)
qed

lemma distinct_claim_body: "db_ok M db \<Longrightarrow> distinct (fst (claim_body cfg ck lk rc n db))"
  unfolding claim_body_def
  using claim_pending_ids(2) [of M db] claim_pending_ids(2) [OF db_ok_reclaim [of M db]] by simp

text \<open>What the loop does with a committed claim.\<close>

lemma loop_claim_commit:
  assumes "d_pc ws = Claiming b" and "ids = fst (claim_body cfg ck lk (reclaim_due cfg mt ws) b db)"
    and "ids \<noteq> []"
  shows "loop_claim cfg ck mt lk Commit (db, ws) =
    (snd (claim_body cfg ck lk (reclaim_due cfg mt ws) b db),
     (fold schedule_task ids
       (if reclaim_due cfg mt ws then ws\<lparr>last_reclaim_at := mt\<rparr> else ws))\<lparr>d_pc := LoopTop\<rparr>)"
  using assms by (simp add: loop_claim_def reclaim_and_claim_def Let_def)

text \<open>
  A wake-up can be lost: \<open>submit\<close> during the claim only sets the event, which
  \<open>_wait_for_work\<close> clears when the claim has come back empty.  A task the claim's snapshot did
  not contain (as good as locked by another transaction) then waits for the next poll.
\<close>

lemma wakeup_lost:
  assumes "started ws" and "d_pc ws = Claiming b" and "\<not> reclaim_due cfg mt ws"
    and "\<forall>t \<in> set (tasks db). pick_guard ck (\<lambda>_. False) t \<longrightarrow> lk (task_id t)"
  shows "worker_submit tid ws = Inr ws \<and>
    loop_claim cfg ck mt lk Commit (db, ws) = (db, ws\<lparr>d_pc := WaitForWork\<rparr>)"
proof -
  have "pick_pending ck lk b db = []"
    using assms(4) by (auto simp: pick_pending_def sql_where_def sql_order_limit_def filter_empty_conv pick_guard_def)
  then show ?thesis
    using assms(1-3)
    by (simp add: worker_submit_def loop_claim_def reclaim_and_claim_def claim_body_def claim_pending_def task_tx_def)
qed

section \<open>Sample worker\<close>

definition sample_disp :: disp_cfg where
  "sample_disp = \<lparr>exec_of = \<lparr>worker_id = w0, lease_seconds = 300, max_retries = 3,
     has_summarizer = False, allow_mock_llm = True\<rparr>,
     max_concurrency = 2, max_batch_size = 1, reclaim_interval = 150000000\<rparr>"

lemma sample_disp_id: "worker_id (exec_of sample_disp) = w0"
  by (simp add: sample_disp_def)

text \<open>\<open>w0\<close> with one coroutine, transcribing task 13.\<close>

definition sample_worker :: worker_state where
  "sample_worker = \<lparr>running = [(uuid_str 13, 0)],
     procs = [\<lparr>ex_task = 13, ex_pc = Transcribe (asc ''/u/c''), lease_lost = False, renewing = False\<rparr>],
     callbacks = [], last_reclaim_at = 0, d_pc = Claiming 1, stop_event = False, started = True\<rparr>"

lemma sample_worker_ok: "worker_ok sample_disp sample_worker"
  by (simp add: worker_ok_def load_ok_def entry_ok_def sample_worker_def sample_disp_def)

lemma sample_claim_12:
  "fst (claim_body sample_disp ck0 (\<lambda>_. False) False 1 sample_db) = [12]"
  by (simp add: claim_body_def claim_pending_def Let_def sample_pick)
    (simp add: claim_rows_def sql_returning_def claim_guard_def claim_set_def sample_defs)

text \<open>The expired lease of task 13 is reclaimed, and all three tasks are claimable.\<close>

lemma sample_claim_13:
  "fst (claim_body sample_disp ck0 (\<lambda>k. k = 11 \<or> k = 12) True 1 sample_db) = [13]"
  by (simp add: claim_body_def claim_pending_def Let_def reclaim_in_flight_def pick_pending_def
      claim_rows_def sql_returning_def sql_order_limit_def sql_where_def claim_guard_def claim_set_def
      pick_guard_def reclaim_guard_def lease_expired_def release_set_def sample_disp_def sample_defs)

text \<open>C17.
  Every task a committed claim takes gets a coroutine of its own: the ids are those the
  database returned, each row is now \<open>transcribing\<close> with this worker's lock and a lease of
  the configured length, \<open>running_tasks\<close> maps its id to the new coroutine, and that coroutine
  has not started yet.
\<close>

theorem claimed_tasks_scheduled:
  assumes "db_ok M db" and "d_pc ws = Claiming b"
    and "ids = fst (claim_body cfg ck lk (reclaim_due cfg mt ws) b db)" and "k < length ids"
    and "loop_claim cfg ck mt lk Commit (db, ws) = (db', ws')"
  shows "map_of (running ws') (uuid_str (ids ! k)) = Some (length (procs ws) + k) \<and>
    procs ws' ! (length (procs ws) + k) = start_exec (ids ! k) \<and>
    (\<exists>t. get_by_id db' (ids ! k) = Some t \<and> status t = TRANSCRIBING \<and>
      locked_by t = Some (worker_id (exec_of cfg)) \<and>
      lease_expires_at t = Some (sql_utc_now ck + seconds (lease_seconds (exec_of cfg)))) \<and>
    d_pc ws' = LoopTop"
proof -
  have ne: "ids \<noteq> []" using assms(4) by auto
  have dist: "distinct ids" using assms(1,3) by (simp add: distinct_claim_body)
  have eq: "db' = snd (claim_body cfg ck lk (reclaim_due cfg mt ws) b db)"
    "ws' = (fold schedule_task ids
       (if reclaim_due cfg mt ws then ws\<lparr>last_reclaim_at := mt\<rparr> else ws))\<lparr>d_pc := LoopTop\<rparr>"
    using loop_claim_commit [OF assms(2,3) ne] assms(5) by simp_all
  have "ids ! k \<in> set (fst (claim_body cfg ck lk (reclaim_due cfg mt ws) b db))"
    using assms(3,4) nth_mem by blast
  from claim_body_row [OF assms(1) this] show ?thesis
    using running_schedule [OF dist assms(4)] assms(4)
    by (simp add: eq nth_append make_interval_secs_def)
qed

theorem claimed_tasks_scheduled_witness:
  "map_of (running (snd (loop_claim sample_disp ck0 0 (\<lambda>_. False) Commit (sample_db, sample_worker))))
     (uuid_str 12) = Some 1"
proof -
  have due: "reclaim_due sample_disp 0 sample_worker = False"
    by (simp add: reclaim_due_def sample_disp_def sample_worker_def)
  have pc: "d_pc sample_worker = Claiming 1" and len: "length (procs sample_worker) = 1"
    by (simp_all add: sample_worker_def)
  show ?thesis
    using claimed_tasks_scheduled [OF sample_db_ok pc _ _ prod.collapse [symmetric],
        of "[12]" sample_disp ck0 "\<lambda>_. False" 0 0] len
    by (simp add: due sample_claim_12)
qed

section \<open>A worker that takes a task over from itself\<close>

text \<open>C18.
  The lock names the worker, not the coroutine, and \<open>running_tasks\<close> is keyed by the task:
  a worker whose own lease has run out reclaims the task and can claim it again while its
  first coroutine is still at work.  Then two coroutines process the task, both pass every
  owner check, and the dictionary knows only the second: the first no longer counts towards
  the concurrency limit.
\<close>

theorem self_takeover:
  assumes "db_ok M db" and "d_pc ws = Claiming b"
    and "ids = fst (claim_body cfg ck lk (reclaim_due cfg mt ws) b db)" and "k < length ids"
    and "map_of (running ws) (uuid_str (ids ! k)) = Some i" and "i < length (procs ws)"
    and "\<not> exited (procs ws ! i)"
    and "loop_claim cfg ck mt lk Commit (db, ws) = (db', ws')"
  shows "\<exists>j. map_of (running ws') (uuid_str (ids ! k)) = Some j \<and> j \<noteq> i \<and>
    procs ws' ! i = procs ws ! i \<and> procs ws' ! j = start_exec (ids ! k) \<and>
    \<not> exited (procs ws' ! i) \<and> \<not> exited (procs ws' ! j) \<and>
    owns db' (worker_id (exec_of cfg)) (ids ! k)"
proof -
  have ne: "ids \<noteq> []" using assms(4) by auto
  have dist: "distinct ids" using assms(1,3) by (simp add: distinct_claim_body)
  have eq: "db' = snd (claim_body cfg ck lk (reclaim_due cfg mt ws) b db)"
    "ws' = (fold schedule_task ids
       (if reclaim_due cfg mt ws then ws\<lparr>last_reclaim_at := mt\<rparr> else ws))\<lparr>d_pc := LoopTop\<rparr>"
    using loop_claim_commit [OF assms(2,3) ne] assms(8) by simp_all
  have "ids ! k \<in> set (fst (claim_body cfg ck lk (reclaim_due cfg mt ws) b db))"
    using assms(3,4) nth_mem by blast
  from claim_body_row [OF assms(1) this] show ?thesis
    using running_schedule [OF dist assms(4)] assms(4,6,7)
    by (intro exI [of _ "length (procs ws) + k"])
      (auto simp: eq nth_append owns_def exited_def start_exec_def)
qed

theorem self_takeover_witness:
  "\<exists>j. map_of (running (snd (loop_claim sample_disp ck0 200000000 (\<lambda>k. k = 11 \<or> k = 12) Commit
        (sample_db, sample_worker)))) (uuid_str 13) = Some j \<and> j \<noteq> 0"
proof -
  have due: "reclaim_due sample_disp 200000000 sample_worker = True"
    by (simp add: reclaim_due_def sample_disp_def sample_worker_def)
  have w: "d_pc sample_worker = Claiming 1" "0 < length (procs sample_worker)"
    "map_of (running sample_worker) (uuid_str ([13] ! 0)) = Some 0"
    "\<not> exited (procs sample_worker ! 0)"
    by (simp_all add: sample_worker_def exited_def)
  show ?thesis
    using self_takeover [OF sample_db_ok w(1) _ _ w(3) w(2) w(4) prod.collapse [symmetric],
        of sample_disp ck0 "\<lambda>k. k = 11 \<or> k = 12" 200000000]
    by (auto simp: due sample_claim_13)
qed

section \<open>Start and stop\<close>

text \<open>
  A restart: when the recovery transaction commits, every task that was in flight under this
  worker's id, or under anybody's expired lease, is back in the queue and can be claimed at
  once; every other task is untouched, and the loop runs.
\<close>

lemma start_recovers:
  assumes "worker_start cfg ck mt Commit (db, ws) = (r, db', ws')" and "get_by_id db tid = Some t"
  shows "r = Inr () \<and> d_pc ws' = LoopTop \<and> started ws' \<and> \<not> stop_event ws' \<and>
    (if status t \<in> set IN_FLIGHT_STATUSES \<and>
        (locked_by t = Some (worker_id (exec_of cfg)) \<or> lease_expired ck t)
     then \<exists>u. get_by_id db' tid = Some u \<and> locked_by u = None \<and> retry_count u = retry_count t \<and>
            transcript u = transcript t \<and> pick_guard ck (\<lambda>_. False) u
     else get_by_id db' tid = Some t)"
  using assms
  by (auto simp: worker_start_unfold recover_zombie_tasks_def recover_body_def get_by_id_reclaim
      reclaim_guard_def release_set_def pick_guard_def split: prod.splits)

lemma start_recovers_witness:
  "\<exists>u. get_by_id (fst (snd (worker_start sample_disp ck0 0 Commit (sample_db, new_worker)))) 13 = Some u \<and>
     status u = PENDING"
proof -
  obtain r db' ws' where s: "worker_start sample_disp ck0 0 Commit (sample_db, new_worker) = (r, db', ws')"
    by (cases "worker_start sample_disp ck0 0 Commit (sample_db, new_worker)") auto
  show ?thesis
    using start_recovers [OF s sample_get(3)]
    by (auto simp: s busy_task_def sample_disp_id pick_guard_def)
qed

text \<open>The tasks of the coroutines a shutdown has to cancel.\<close>

definition pending_tasks :: "worker_state \<Rightarrow> uuid list" where
  "pending_tasks ws = map (\<lambda>p. ex_task (procs ws ! snd p)) (pending_of ws)"

lemma pending_keys:
  "worker_ok cfg ws \<Longrightarrow> map fst (pending_of ws) = map uuid_str (pending_tasks ws)"
  by (auto simp: worker_ok_def list_all_iff entry_ok_def pending_tasks_def pending_of_def)

lemma cancelled_ended:
  assumes "worker_ok cfg ws" and "i \<in> snd ` set (running ws)"
  shows "exited (cancel_procs (map snd (pending_of ws)) (procs ws) ! i)"
proof -
  have i: "i < length (procs ws)"
    using assms by (auto simp: worker_ok_def list_all_iff entry_ok_def)
  have "i \<in> snd ` set (pending_of ws)" if "\<not> exited (procs ws ! i)"
    using that i assms(2) by (force simp: pending_of_def)
  moreover have "exited (exec_cancel e)" for e
    by (simp add: exited_def exec_cancel_def leave_def split: pc.splits)
  ultimately show ?thesis
    using i by (auto simp: nth_cancel_procs)
qed

lemma worker_stop_commit:
  assumes "worker_ok cfg ws" and "worker_stop cfg ck Commit (db, ws) = (r, db', ws')"
  shows "r = Inr () \<and> db' = snd (reset_aborted ck (pending_tasks ws) (worker_id (exec_of cfg)) msg_aborted db) \<and>
    running ws' = running ws \<and> procs ws' = cancel_procs (map snd (pending_of ws)) (procs ws)"
proof -
  have pend: "pending_of (worker_stop_loop ws) = pending_of ws" "procs (worker_stop_loop ws) = procs ws"
    "running (worker_stop_loop ws) = running ws"
    by (simp_all add: pending_of_def worker_stop_loop_def)
  show ?thesis
  proof (cases "pending_of ws = []")
    case True
    then have "cancel_procs (map snd (pending_of ws)) (procs ws) = procs ws"
      by (simp add: cancel_procs_def split_def enumerate_eq_zip)
    then show ?thesis
      using assms(2) True by (auto simp: worker_stop_def Let_def pend pending_tasks_def reset_aborted_def)
  next
    case False
    have "executor_reset_aborted (exec_of cfg) ck Commit (map fst (pending_of ws)) db =
        (Inr (), snd (reset_aborted ck (pending_tasks ws) (worker_id (exec_of cfg)) msg_aborted db))"
      using False as_uuids_str [of "pending_tasks ws"]
      by (simp add: executor_reset_aborted_def pending_keys [OF assms(1)] pending_tasks_def)
    then show ?thesis
      using assms(2) False by (auto simp: worker_stop_def Let_def pend split: prod.splits)
  qed
qed

text \<open>C19.
  A shutdown whose timeout has passed: every coroutine in \<open>running_tasks\<close> has ended, the
  tasks of those that had to be cancelled are pending again if this worker still held them (and
  can be claimed at once), and no other task changes.
\<close>

theorem stop_releases:
  assumes "worker_ok cfg ws" and "worker_stop cfg ck Commit (db, ws) = (r, db', ws')"
    and "get_by_id db tid = Some t"
  shows "r = Inr () \<and> (\<forall>i \<in> snd ` set (running ws'). exited (procs ws' ! i)) \<and>
    (if tid \<in> set (pending_tasks ws) \<and> status t \<in> set IN_FLIGHT_STATUSES \<and>
        locked_by t = Some (worker_id (exec_of cfg))
     then \<exists>u. get_by_id db' tid = Some u \<and> locked_by u = None \<and> retry_count u = retry_count t \<and>
            pick_guard ck (\<lambda>_. False) u
     else get_by_id db' tid = Some t)"
  using worker_stop_commit [OF assms(1,2)] cancelled_ended [OF assms(1)] assms(3) get_by_id_SomeD [OF assms(3)]
  by (auto simp: get_by_id_aborted aborted_guard_def release_set_def pick_guard_def)

theorem stop_releases_witness:
  "\<exists>u. get_by_id (fst (snd (worker_stop sample_disp ck0 Commit (sample_db, sample_worker)))) 13 = Some u \<and>
     status u = PENDING"
proof -
  obtain r db' ws' where s: "worker_stop sample_disp ck0 Commit (sample_db, sample_worker) = (r, db', ws')"
    by (cases "worker_stop sample_disp ck0 Commit (sample_db, sample_worker)") auto
  have "pending_tasks sample_worker = [13]"
    by (simp add: pending_tasks_def pending_of_def sample_worker_def exited_def)
  then show ?thesis
    using stop_releases [OF sample_worker_ok s sample_get(3)]
    by (auto simp: s busy_task_def sample_disp_id pick_guard_def)
qed

text \<open>
  A lease is renewed in time only if it is longer than five seconds: the interval between two
  renewals is at least five seconds whatever the lease, and a third of a longer lease.
\<close>

lemma renewal_before_expiry_iff:
  "lease_renew_interval lease < seconds lease \<longleftrightarrow> 5 < lease"
  by (auto simp: lease_renew_interval_def seconds_def)

end
