(* ===== verification/System.thy ===== *)
theory System
  imports Dispatcher_Properties
begin

text \<open>
  The whole task queue: any number of workers, each with its own configuration, and the API,
  interleaved on one database.  A step is one atomic step of one of them; a worker may also
  crash, which loses its memory and nothing else.  \<open>life\<close> is the abstract state of a task
  and \<open>life_step\<close> the transitions the queue promises; the system refines it.
\<close>

section \<open>Steps\<close>

inductive worker_step ::
  "disp_cfg \<Rightarrow> database \<times> worker_state \<Rightarrow> database \<times> worker_state \<Rightarrow> bool" for cfg where
  coroutine: "worker_step cfg s (proc_step cfg ck i ev s)"
| callback: "worker_step cfg (db, ws) (db, done_callback i ws)"
| top: "worker_step cfg (db, ws) (db, loop_top cfg ws)"
| saturated: "worker_step cfg s (loop_saturated cfg ck mt x s)"
| claims: "worker_step cfg s (loop_claim cfg ck mt lk x s)"
| wakes: "worker_step cfg (db, ws) (db, loop_wake ws)"
| submitted: "worker_submit tid ws = Inr ws' \<Longrightarrow> worker_step cfg (db, ws) (db, ws')"
| starts: "worker_start cfg ck mt x s = (r, s') \<Longrightarrow> worker_step cfg s s'"
| stops: "worker_stop cfg ck x s = (r, s') \<Longrightarrow> worker_step cfg s s'"
| crash: "worker_step cfg (db, ws) (db, new_worker)"

text \<open>The writing transactions of the API: an upload, a retry, a deletion.\<close>

inductive api_step :: "database \<Rightarrow> database \<Rightarrow> bool" where
  upload: "insert_pair ck rid tid name path sz h db = Inr (p, db') \<Longrightarrow> api_step db db'"
| retry: "api_step db (snd (requeue_failed ck tid db))"
| delete: "api_step db (snd (delete_recording_row (snd (delete_by_recording db rid)) rid))"

record system =
  sys_db :: database
  sys_workers :: "nat \<Rightarrow> worker_state"

datatype actor = Worker nat | Api

inductive sys_step :: "(nat \<Rightarrow> disp_cfg) \<Rightarrow> actor \<Rightarrow> system \<Rightarrow> system \<Rightarrow> bool" for cf where
  worker: "worker_step (cf i) (sys_db s, sys_workers s i) (db', ws') \<Longrightarrow>
    sys_step cf (Worker i) s \<lparr>sys_db = db', sys_workers = (sys_workers s)(i := ws')\<rparr>"
| api: "api_step (sys_db s) db' \<Longrightarrow> sys_step cf Api s (s\<lparr>sys_db := db'\<rparr>)"

inductive_cases sys_workerE: "sys_step cf (Worker i) s s'"
inductive_cases sys_apiE: "sys_step cf Api s s'"

inductive sys_reachable :: "(nat \<Rightarrow> disp_cfg) \<Rightarrow> system \<Rightarrow> bool" for cf where
  init: "sys_reachable cf \<lparr>sys_db = empty_db, sys_workers = (\<lambda>_. new_worker)\<rparr>"
| step: "sys_reachable cf s \<Longrightarrow> sys_step cf a s s' \<Longrightarrow> sys_reachable cf s'"

section \<open>What a worker can do to the database\<close>

inductive db_move :: "disp_cfg \<Rightarrow> database \<Rightarrow> database \<Rightarrow> bool" for cfg where
  stay: "db_move cfg db db"
| owner: "owner_effect (exec_of cfg) ck tid db db' \<Longrightarrow> db_move cfg db db'"
| recover: "db_move cfg db (snd (reclaim_in_flight ck (worker_id (exec_of cfg)) own msg db))"
| claim: "db_move cfg db (snd (claim_body cfg ck lk rc n db))"
| abort: "db_move cfg db (snd (reset_aborted ck ids (worker_id (exec_of cfg)) msg db))"

lemma db_move_tx:
  "task_tx x body db = (r, db') \<Longrightarrow> db_move cfg db (snd (body db)) \<Longrightarrow> db_move cfg db db'"
  using task_tx_db [of x body db] stay by (cases "db' = db") auto

lemma db_move_recover:
  "recover_zombie_tasks cfg ck own x db = (r, db') \<Longrightarrow> db_move cfg db db'"
  unfolding recover_zombie_tasks_def by (erule db_move_tx) (simp add: recover_body_def recover)

lemma db_move_claims:
  "reclaim_and_claim cfg ck mt lk x n (db, ws) = (r, db', ws') \<Longrightarrow> db_move cfg db db'"
  by (auto simp: reclaim_and_claim_def Let_def intro: db_move_tx claim split: prod.splits)

lemma db_move_reset:
  "executor_reset_aborted (exec_of cfg) ck x keys db = (r, db') \<Longrightarrow> db_move cfg db db'"
  by (auto simp: executor_reset_aborted_def intro: stay db_move_tx abort
      split: sum.splits prod.splits tx_result.splits if_splits)

lemma db_move_proc_step: "db_move cfg db (fst (proc_step cfg ck i ev (db, ws)))"
  using owner [OF exec_step_effect [of "exec_of cfg" ck "procs ws ! i" db ev]] stay
  by (auto simp: proc_step_def split: prod.splits)

lemma worker_step_move:
  assumes "worker_step cfg s s'"
  shows "db_move cfg (fst s) (fst s')"
  using assms
proof cases
  case (coroutine ck i ev)
  then show ?thesis using db_move_proc_step [of cfg "fst s"] by (metis prod.collapse)
next
  case (saturated ck mt x)
  then show ?thesis
    by (auto simp: loop_saturated_def intro: stay db_move_recover split: prod.splits tx_result.splits)
next
  case (claims ck mt lk x)
  then show ?thesis
    by (cases s) (auto simp: loop_claim_def intro: stay db_move_claims
        split: dpc.splits prod.splits tx_result.splits)
next
  case (starts ck mt x r)
  then show ?thesis
    by (auto simp: worker_start_unfold intro: db_move_recover split: prod.splits tx_result.splits)
next
  case (stops ck x r)
  then show ?thesis
    by (auto simp: worker_stop_def Let_def intro: stay db_move_reset split: prod.splits if_splits)
qed (simp_all add: stay)

end
