(* ===== verification/Executor_Properties.thy ===== *)
theory Executor_Properties
  imports Executor Sample_Data
begin

text \<open>
  The properties of \<open>TaskExecutor.process\<close>: it ends, it stores a result exactly when it
  still owns the task, it turns every exception into the failure bookkeeping, and what it does
  when its lease is lost.
\<close>

section \<open>Progress\<close>

fun rank :: "pc \<Rightarrow> nat" where
  "rank Fetch = 8"
| "rank (FirstRenew _) = 7"
| "rank (ReadRecording _) = 6"
| "rank (Transcribe _) = 5"
| "rank (MarkSummarizing _) = 4"
| "rank (Summarize _) = 3"
| "rank (MarkDone _) = 2"
| "rank (HandleFailure _) = 1"
| "rank (Exited _) = 0"

text \<open>The events a program point is suspended on.\<close>

fun awaits :: "pc \<Rightarrow> event \<Rightarrow> bool" where
  "awaits (Exited _) _ = False"
| "awaits (Transcribe _) (AsrResult _) = True"
| "awaits (Transcribe _) _ = False"
| "awaits (Summarize _) (SummaryResult _) = True"
| "awaits (Summarize _) _ = False"
| "awaits _ (Tx _) = True"
| "awaits _ _ = False"

lemmas exec_defs =
  exec_step_def exec_tx_def exec_renew_def exec_asr_def exec_summary_def exec_cancel_def
  goto_def leave_def fail_with_def enter_leased_def Let_def

lemmas exec_splits =
  event.splits prod.splits tx_result.splits option.splits sum.splits

lemma rank_awaited:
  assumes "awaits (ex_pc e) ev"
  shows "rank (ex_pc (snd (exec_step cfg ck ev (db, e)))) < rank (ex_pc e)"
  using assms by (cases "ex_pc e"; cases ev) (auto simp: exec_defs split: exec_splits)

lemma rank_step: "rank (ex_pc (snd (exec_step cfg ck ev (db, e)))) \<le> rank (ex_pc e)"
  by (cases "ex_pc e"; cases ev) (auto simp: exec_defs leased_work_def split: exec_splits)

text \<open>How many events of a run the coroutine was waiting for.\<close>

fun awaited ::
  "exec_cfg \<Rightarrow> (clock \<times> (database \<Rightarrow> database) \<times> event) list \<Rightarrow> database \<times> exec_state \<Rightarrow> nat" where
  "awaited cfg [] s = 0"
| "awaited cfg ((ck, env, ev) # evs) s =
     (if awaits (ex_pc (snd s)) ev then 1 else 0) +
     awaited cfg evs (exec_step cfg ck ev (env (fst s), snd s))"

lemma awaited_rank:
  "awaited cfg evs s + rank (ex_pc (snd (exec_run cfg evs s))) \<le> rank (ex_pc (snd s))"
proof (induction evs arbitrary: s)
  case (Cons a evs)
  obtain ck env ev where a: "a = (ck, env, ev)" by (cases a)
  let ?s = "exec_step cfg ck ev (env (fst s), snd s)"
  have "(if awaits (ex_pc (snd s)) ev then 1 else 0) + rank (ex_pc (snd ?s)) \<le> rank (ex_pc (snd s))"
    using rank_awaited [of "snd s" ev cfg ck "env (fst s)"]
      rank_step [of cfg ck ev "env (fst s)" "snd s"] by auto
  with Cons.IH [of ?s] show ?case by (simp add: a)
qed simp

section \<open>The local variables\<close>

text \<open>
  Once a lost lease has been noticed nothing that costs money is awaited, and the renewal loop
  never outlives the processing.
\<close>

definition exec_ok :: "exec_state \<Rightarrow> bool" where
  "exec_ok e \<longleftrightarrow>
     (lease_lost e \<longrightarrow> \<not> leased_work (ex_pc e) \<and> \<not> renewing e) \<and>
     (renewing e \<longrightarrow> rank (ex_pc e) > 1)"

lemma exec_ok_start: "exec_ok (start_exec tid)"
  by (simp add: exec_ok_def start_exec_def)

lemma exec_ok_step:
  assumes "exec_ok e"
  shows "exec_ok (snd (exec_step cfg ck ev (db, e)))"
  using assms unfolding exec_ok_def
  by (cases "ex_pc e"; cases ev) (auto simp: exec_defs leased_work_def split: exec_splits)

lemma exec_ok_run: "exec_ok (snd s) \<Longrightarrow> exec_ok (snd (exec_run cfg evs s))"
proof (induction evs arbitrary: s)
  case (Cons a evs)
  obtain ck env ev where "a = (ck, env, ev)" by (cases a)
  with Cons exec_ok_step show ?case by simp
qed simp

text \<open>C12: \<open>process\<close> always comes to an end. Whatever happens around it, it waits for at
  most eight events (its transactions, the transcription, the summary), and while it has not
  exited there is an event it is waiting for; if it has noticed the loss of its lease it is not
  waiting for the transcriber or the model, and its renewal loop has stopped.\<close>

theorem process_terminates:
  shows "awaited cfg evs (db, start_exec tid) \<le> 8 \<and>
    (let e = snd (exec_run cfg evs (db, start_exec tid))
     in (awaited cfg evs (db, start_exec tid) = 8 \<longrightarrow> (\<exists>out. ex_pc e = Exited out)) \<and>
        ((\<exists>out. ex_pc e = Exited out) \<or>
         (\<exists>ev \<in> {Tx Commit, AsrResult (Inr []), SummaryResult (Inr JNull)}. awaits (ex_pc e) ev)) \<and>
        (lease_lost e \<longrightarrow> \<not> leased_work (ex_pc e) \<and> \<not> renewing e))"
proof -
  let ?e = "snd (exec_run cfg evs (db, start_exec tid))"
  have r: "awaited cfg evs (db, start_exec tid) + rank (ex_pc ?e) \<le> 8"
    using awaited_rank [of cfg evs "(db, start_exec tid)"] by (simp add: start_exec_def)
  have zero: "rank p = 0 \<Longrightarrow> \<exists>out. p = Exited out" for p
    by (cases p) auto
  have wait: "(\<exists>out. p = Exited out) \<or>
      (\<exists>ev \<in> {Tx Commit, AsrResult (Inr []), SummaryResult (Inr JNull)}. awaits p ev)" for p
    by (cases p) auto
  have "exec_ok ?e"
    by (rule exec_ok_run) (simp add: exec_ok_start)
  with r zero [of "ex_pc ?e"] wait [of "ex_pc ?e"] show ?thesis
    by (auto simp: exec_ok_def Let_def)
qed

text \<open>A concrete run: the sample task 13 transcribed and summarized by its owner.\<close>

definition sample_cfg :: exec_cfg where
  "sample_cfg = \<lparr>worker_id = w0, lease_seconds = 300, max_retries = 3, has_summarizer = True,
     allow_mock_llm = False\<rparr>"

definition good_events ::
  "clock list \<Rightarrow> (nat \<Rightarrow> database \<Rightarrow> database) \<Rightarrow> pstr \<Rightarrow> json \<Rightarrow> (clock \<times> (database \<Rightarrow> database) \<times> event) list" where
  "good_events cks env tr sm =
     zip cks (zip (map env [0, 1, 2, 3, 4, 5, 6])
       [Tx Commit, Tx Commit, Tx Commit, AsrResult (Inr tr), Tx Commit, SummaryResult (Inr sm), Tx Commit])"

theorem process_terminates_witness:
  "awaited sample_cfg (good_events (replicate 7 ck0) (\<lambda>_ db. db) [] JNull) (sample_db, start_exec 13) \<le> 8"
  using process_terminates [of sample_cfg "good_events (replicate 7 ck0) (\<lambda>_ db. db) [] JNull" sample_db 13]
  by blast

section \<open>The path to done\<close>

text \<open>Interference that leaves the task and its recording alone.\<close>

definition leaves_alone :: "nat \<Rightarrow> uuid \<Rightarrow> uuid \<Rightarrow> (database \<Rightarrow> database) \<Rightarrow> bool" where
  "leaves_alone M tid rid f \<longleftrightarrow>
     (\<forall>db. db_ok M db \<longrightarrow> db_ok M (f db) \<and> get_by_id (f db) tid = get_by_id db tid \<and>
        recording_get_by_id (f db) rid = recording_get_by_id db rid)"

text \<open>What the run keeps: the row is the owner's, the recording is there.\<close>

definition owned_row :: "nat \<Rightarrow> exec_cfg \<Rightarrow> uuid \<Rightarrow> uuid \<Rightarrow> recording \<Rightarrow> task \<Rightarrow> database \<Rightarrow> bool" where
  "owned_row M cfg tid rid r t db \<longleftrightarrow>
     db_ok M db \<and> get_by_id db tid = Some t \<and> recording_id t = rid \<and>
     locked_by t = Some (worker_id cfg) \<and> recording_get_by_id db rid = Some r"

lemma owned_row_env:
  "leaves_alone M tid rid f \<Longrightarrow> owned_row M cfg tid rid r t db \<Longrightarrow> owned_row M cfg tid rid r t (f db)"
  by (simp add: leaves_alone_def owned_row_def)

lemma owned_row_owns: "owned_row M cfg tid rid r t db \<Longrightarrow> owns db (worker_id cfg) tid"
  by (simp add: owned_row_def owns_def)

lemma owned_row_id: "owned_row M cfg tid rid r t db \<Longrightarrow> task_id t = tid"
  unfolding owned_row_def using get_by_id_SomeD by blast

lemma recordings_kept [simp]:
  "recording_get_by_id (snd (renew_lease ck tid w n db)) rid = recording_get_by_id db rid"
  "recording_get_by_id (snd (mark_summarizing ck tid w tr db)) rid = recording_get_by_id db rid"
  by (simp_all add: recording_get_by_id_def renew_lease_def mark_summarizing_def)

lemma owned_row_renew:
  assumes "owned_row M cfg tid rid r t db"
  shows "owned_row M cfg tid rid r (renew_set ck n t) (snd (renew_lease ck tid (worker_id cfg) n db))"
  using assms owned_row_id [OF assms]
  by (auto simp: owned_row_def get_by_id_renew owner_guard_def renew_set_def db_ok_renew)

lemma owned_row_summarizing:
  assumes "owned_row M cfg tid rid r t db"
  shows "owned_row M cfg tid rid r (summarizing_set ck tr t)
    (snd (mark_summarizing ck tid (worker_id cfg) tr db))"
  using assms owned_row_id [OF assms]
  by (auto simp: owned_row_def get_by_id_summarizing owner_guard_def summarizing_set_def db_ok_summarizing)

lemma get_done_owned:
  assumes "owned_row M cfg tid rid r t db"
  shows "get_by_id (snd (mark_done ck tid (worker_id cfg) sm db)) tid = Some (done_set ck sm t)"
  using assms owned_row_id [OF assms]
  by (simp add: owned_row_def get_by_id_done owner_guard_def)

lemma step_fetch:
  assumes "owned_row M cfg tid rid r t db" and "status t = TRANSCRIBING"
  shows "exec_step cfg ck (Tx Commit) (db, start_exec tid) =
    (db, \<lparr>ex_task = tid, ex_pc = FirstRenew rid, lease_lost = False, renewing = False\<rparr>)"
  using assms by (simp add: exec_defs start_exec_def owned_row_def)

lemma step_first_renew:
  assumes "owned_row M cfg tid rid r t db" and "db_ok M db"
  shows "exec_step cfg ck (Tx Commit)
      (db, \<lparr>ex_task = tid, ex_pc = FirstRenew rid, lease_lost = False, renewing = False\<rparr>) =
    (snd (renew_lease ck tid (worker_id cfg) (lease_seconds cfg) db),
     \<lparr>ex_task = tid, ex_pc = ReadRecording rid, lease_lost = False, renewing = True\<rparr>)"
  using renew_lease_result [OF assms(2), of ck tid "worker_id cfg" "lease_seconds cfg"]
    owned_row_owns [OF assms(1)]
  by (simp add: exec_defs)

lemma step_read:
  assumes "owned_row M cfg tid rid r t db"
  shows "exec_step cfg ck (Tx Commit)
      (db, \<lparr>ex_task = tid, ex_pc = ReadRecording rid, lease_lost = False, renewing = True\<rparr>) =
    (db, \<lparr>ex_task = tid, ex_pc = Transcribe (file_path r), lease_lost = False, renewing = True\<rparr>)"
  using assms by (simp add: exec_defs owned_row_def)

lemma step_asr:
  "exec_step cfg ck (AsrResult (Inr tr))
      (db, \<lparr>ex_task = tid, ex_pc = Transcribe path, lease_lost = False, renewing = True\<rparr>) =
    (db, \<lparr>ex_task = tid, ex_pc = MarkSummarizing tr, lease_lost = False, renewing = True\<rparr>)"
  by (simp add: exec_defs)

lemma step_summarizing:
  assumes "owned_row M cfg tid rid r t db" and "db_ok M db"
  shows "exec_step cfg ck (Tx Commit)
      (db, \<lparr>ex_task = tid, ex_pc = MarkSummarizing tr, lease_lost = False, renewing = True\<rparr>) =
    (snd (mark_summarizing ck tid (worker_id cfg) tr db),
     \<lparr>ex_task = tid, ex_pc = Summarize tr, lease_lost = False, renewing = True\<rparr>)"
  using mark_summarizing_result [OF assms(2), of ck tid "worker_id cfg" tr] owned_row_owns [OF assms(1)]
  by (simp add: exec_defs)

lemma step_summary:
  assumes "summarize_result cfg q = Inr sm"
  shows "exec_step cfg ck (SummaryResult q)
      (db, \<lparr>ex_task = tid, ex_pc = Summarize tr, lease_lost = False, renewing = True\<rparr>) =
    (db, \<lparr>ex_task = tid, ex_pc = MarkDone sm, lease_lost = False, renewing = True\<rparr>)"
  using assms by (simp add: exec_defs)

lemma step_done:
  assumes "owned_row M cfg tid rid r t db" and "db_ok M db"
  shows "exec_step cfg ck (Tx Commit)
      (db, \<lparr>ex_task = tid, ex_pc = MarkDone sm, lease_lost = False, renewing = True\<rparr>) =
    (snd (mark_done ck tid (worker_id cfg) sm db),
     \<lparr>ex_task = tid, ex_pc = Exited Completed, lease_lost = False, renewing = False\<rparr>)"
  using mark_done_result [OF assms(2), of ck tid "worker_id cfg" sm] owned_row_owns [OF assms(1)]
  by (simp add: exec_defs)

text \<open>
  The successful path. If its transactions commit, the transcriber and the
  summarizer return, and meanwhile nobody touches the task and its recording, \<open>process\<close> ends
  as completed and the task is \<open>done\<close> with exactly that transcript and that summary, no
  error, no lock, and its failure count unchanged.\<close>

lemma process_success:
  assumes row: "owned_row M cfg tid rid r t db" and st: "status t = TRANSCRIBING"
    and env: "\<And>i. leaves_alone M tid rid (env i)"
    and sm: "summarize_result cfg (Inr q) = Inr sm"
  shows "let s = exec_run cfg (good_events [c0, c1, c2, c3, c4, c5, c6] env tr q) (db, start_exec tid)
    in ex_pc (snd s) = Exited Completed \<and>
       (\<exists>u. get_by_id (fst s) tid = Some u \<and> status u = DONE \<and> transcript u = Some tr \<and>
          summary u = Some sm \<and> error_msg u = None \<and> locked_by u = None \<and>
          lease_expires_at u = None \<and> retry_count u = retry_count t)"
proof -
  let ?w = "worker_id cfg"
  let ?t1 = "renew_set c1 (lease_seconds cfg) t"
  let ?t4 = "summarizing_set c4 tr ?t1"
  have ok: "db_ok M d" if "owned_row M cfg tid rid r u d" for u d
    using that by (simp add: owned_row_def)
  define d1 where "d1 = snd (renew_lease c1 tid ?w (lease_seconds cfg) (env 1 (env 0 db)))"
  define d4 where "d4 = snd (mark_summarizing c4 tid ?w tr (env 4 (env 3 (env 2 d1))))"
  define d6 where "d6 = snd (mark_done c6 tid ?w sm (env 6 (env 5 d4)))"
  have r0: "owned_row M cfg tid rid r t (env 0 db)" and r1: "owned_row M cfg tid rid r t (env 1 (env 0 db))"
    by (simp_all add: owned_row_env env row)
  have r1': "owned_row M cfg tid rid r ?t1 d1"
    unfolding d1_def by (rule owned_row_renew [OF r1])
  have r2: "owned_row M cfg tid rid r ?t1 (env 2 d1)"
    and r4: "owned_row M cfg tid rid r ?t1 (env 4 (env 3 (env 2 d1)))"
    by (simp_all add: owned_row_env env r1')
  have r4': "owned_row M cfg tid rid r ?t4 d4"
    unfolding d4_def by (rule owned_row_summarizing [OF r4])
  have r6: "owned_row M cfg tid rid r ?t4 (env 6 (env 5 d4))"
    by (simp add: owned_row_env env r4')
  have run: "exec_run cfg (good_events [c0, c1, c2, c3, c4, c5, c6] env tr q) (db, start_exec tid) =
      (d6, \<lparr>ex_task = tid, ex_pc = Exited Completed, lease_lost = False, renewing = False\<rparr>)"
    using step_fetch [OF r0 st, of c0] step_first_renew [OF r1 ok [OF r1], of c1]
      step_read [OF r2, of c2] step_asr step_summarizing [OF r4 ok [OF r4], of c4 tr]
      step_summary [OF sm] step_done [OF r6 ok [OF r6], of c6 sm]
    by (simp add: good_events_def d1_def d4_def d6_def)
  have "get_by_id d6 tid = Some (done_set c6 sm ?t4)"
    unfolding d6_def by (rule get_done_owned [OF r6])
  then show ?thesis
    by (simp add: run Let_def done_set_def summarizing_set_def renew_set_def)
qed

lemma sample_owned: "owned_row 3 sample_cfg 13 3 (sample_recording 3 (asc ''c'') 50) busy_task sample_db"
  using sample_db_ok
  by (simp add: owned_row_def recording_get_by_id_def sample_cfg_def)
    (simp add: sample_db_def sample_recording_def new_recording_def busy_task_def sample_task_def new_task_def)

lemma process_success_witness:
  "ex_pc (snd (exec_run sample_cfg (good_events [ck0, ck0, ck0, ck0, ck0, ck0, ck0] (\<lambda>_ db. db) (asc ''hi'') JNull)
      (sample_db, start_exec 13))) = Exited Completed"
proof -
  have "leaves_alone 3 13 3 (\<lambda>db. db)" by (simp add: leaves_alone_def)
  moreover have "summarize_result sample_cfg (Inr JNull) = Inr JNull"
    by (simp add: summarize_result_def sample_cfg_def)
  moreover have "status busy_task = TRANSCRIBING" by (simp add: busy_task_def)
  ultimately show ?thesis
    using process_success [OF sample_owned, of "\<lambda>_ db. db" JNull JNull ck0 ck0 ck0 ck0 ck0 ck0 ck0 "asc ''hi''"]
    by (simp add: Let_def)
qed

section \<open>Ownership and completion\<close>

lemma mark_done_row:
  assumes "db_ok M db" and "fst (mark_done ck tid w sm db)"
  shows "owns db w tid \<and> (\<exists>u. get_by_id (snd (mark_done ck tid w sm db)) tid = Some u \<and>
    status u = DONE \<and> summary u = Some sm \<and> locked_by u = None)"
proof -
  have own: "owns db w tid"
    using assms mark_done_result by blast
  then obtain t where t: "get_by_id db tid = Some t" "locked_by t = Some w"
    by (auto simp: owns_def split: option.splits)
  with get_by_id_SomeD [OF t(1)] own show ?thesis
    by (simp add: get_by_id_done owner_guard_def done_set_def)
qed

text \<open>C13: fencing of the executor. One step of \<open>process\<close> can change only the row of its
  own task, and only while that row is locked by its worker; it never touches a recording.
  It reports completion only in the step that turned the row it still owned into \<open>done\<close>
  with the summary it was about to store.\<close>

theorem process_fenced:
  assumes ok: "db_ok M db" and step: "exec_step cfg ck ev (db, e) = (db', e')"
  shows "recordings db' = recordings db \<and>
    (\<forall>k t. get_by_id db k = Some t \<and> (k \<noteq> ex_task e \<or> locked_by t \<noteq> Some (worker_id cfg)) \<longrightarrow>
       get_by_id db' k = Some t) \<and>
    (ex_pc e' = Exited Completed \<and> ex_pc e \<noteq> Exited Completed \<longrightarrow>
       owns db (worker_id cfg) (ex_task e) \<and>
       (\<exists>sm u. ex_pc e = MarkDone sm \<and> get_by_id db' (ex_task e) = Some u \<and> status u = DONE \<and>
          summary u = Some sm \<and> locked_by u = None))"
proof -
  have eff: "owner_effect cfg ck (ex_task e) db db'"
    using exec_step_effect [of cfg ck e db ev] by (simp add: step)
  have recs: "recordings db' = recordings db"
    using eff by (auto simp: owner_effect_def)
  have frame: "get_by_id db' k = Some t"
    if "get_by_id db k = Some t" "k \<noteq> ex_task e \<or> locked_by t \<noteq> Some (worker_id cfg)" for k t
    using owner_effect_get [OF eff that(1)] that(2) by auto
  have complete: "\<exists>sm. ex_pc e = MarkDone sm \<and> fst (mark_done ck (ex_task e) (worker_id cfg) sm db) \<and>
      db' = snd (mark_done ck (ex_task e) (worker_id cfg) sm db)"
    if "ex_pc e' = Exited Completed" "ex_pc e \<noteq> Exited Completed"
    using step that
    by (cases ev; cases "ex_pc e")
      (auto simp: exec_defs task_tx_def split: tx.splits exec_splits if_splits)
  show ?thesis
    using recs frame complete mark_done_row [OF ok] by blast
qed

theorem process_fenced_witness:
  "get_by_id (fst (exec_step (sample_cfg\<lparr>worker_id := w1\<rparr>) ck0 (Tx Commit)
     (sample_db, (start_exec 13)\<lparr>ex_pc := HandleFailure []\<rparr>))) 13 = Some busy_task"
proof -
  let ?s = "exec_step (sample_cfg\<lparr>worker_id := w1\<rparr>) ck0 (Tx Commit)
     (sample_db, (start_exec 13)\<lparr>ex_pc := HandleFailure []\<rparr>)"
  have "locked_by busy_task \<noteq> Some w1"
    by (simp add: busy_task_def w0_def w1_def asc_def)
  with process_fenced [OF sample_db_ok, of "sample_cfg\<lparr>worker_id := w1\<rparr>" ck0 "Tx Commit"
      "(start_exec 13)\<lparr>ex_pc := HandleFailure []\<rparr>" "fst ?s" "snd ?s"] sample_get(3)
  show ?thesis by simp
qed

section \<open>Exceptions\<close>

text \<open>The events by which a program point receives an exception.\<close>

fun raises :: "exec_cfg \<Rightarrow> pc \<Rightarrow> event \<Rightarrow> exn \<Rightarrow> bool" where
  "raises cfg (Transcribe _) (AsrResult (Inl e)) x = (x = e)"
| "raises cfg (Summarize _) (SummaryResult r) x = (summarize_result cfg r = Inl x)"
| "raises cfg Fetch (Tx (Abort _ e)) x = (x = e)"
| "raises cfg (FirstRenew _) (Tx (Abort _ e)) x = (x = e)"
| "raises cfg (ReadRecording _) (Tx (Abort _ e)) x = (x = e)"
| "raises cfg (MarkSummarizing _) (Tx (Abort _ e)) x = (x = e)"
| "raises cfg (MarkDone _) (Tx (Abort _ e)) x = (x = e)"
| "raises cfg _ _ _ = False"

lemma raises_step:
  assumes "raises cfg (ex_pc e) ev x"
  shows "snd (exec_step cfg ck ev (db, e)) = leave e (HandleFailure (exn_str x))"
  using assms by (cases "(cfg, ex_pc e, ev, x)" rule: raises.cases)
    (auto simp: exec_defs split: sum.splits)

lemma failure_step:
  "exec_step cfg ck (Tx Commit) (db, leave e (HandleFailure msg)) =
    (snd (mark_failure ck (ex_task e) (worker_id cfg) msg (max_retries cfg) db),
     leave e (Exited (case fst (mark_failure ck (ex_task e) (worker_id cfg) msg (max_retries cfg) db) of
        None \<Rightarrow> FailureNotApplied | Some (n, st) \<Rightarrow> Failed n st)))"
  by (simp add: exec_defs split: option.splits prod.splits)



text \<open>
  An ambiguous commit of the final transaction is harmless. If the server applied
  \<open>mark_done\<close> but the connection failed before \<open>process\<close> heard of it, the failure
  bookkeeping that follows finds the lock gone, does not apply, and the task stays \<open>done\<close>
  with its summary.\<close>

lemma ambiguous_done_is_safe:
  assumes ok: "db_ok M db" and own: "owns db (worker_id cfg) (ex_task e)"
    and pc: "ex_pc e = MarkDone sm"
  shows "let s1 = exec_step cfg ck (Tx (Abort True x)) (db, e);
             s2 = exec_step cfg ck' (Tx Commit) s1
    in fst s2 = fst s1 \<and> ex_pc (snd s2) = Exited FailureNotApplied \<and>
       (\<exists>u. get_by_id (fst s2) (ex_task e) = Some u \<and> status u = DONE \<and> summary u = Some sm)"
proof -
  let ?d = "snd (mark_done ck (ex_task e) (worker_id cfg) sm db)"
  have row: "\<exists>u. get_by_id ?d (ex_task e) = Some u \<and> status u = DONE \<and> summary u = Some sm \<and> locked_by u = None"
    using mark_done_row [OF ok] mark_done_result [OF ok] own by blast
  then have no: "\<not> owns ?d (worker_id cfg) (ex_task e)"
    by (auto simp: owns_def)
  have s1: "exec_step cfg ck (Tx (Abort True x)) (db, e) = (?d, leave e (HandleFailure (exn_str x)))"
    by (simp add: exec_defs pc)
  have "mark_failure ck' (ex_task e) (worker_id cfg) (exn_str x) (max_retries cfg) ?d = (None, ?d)"
    by (rule mark_failure_not_owned [OF db_ok_done [OF ok] no])
  with row show ?thesis
    by (simp add: s1 failure_step Let_def) (auto simp: leave_def)
qed

lemma ambiguous_done_is_safe_witness:
  "ex_pc (snd (exec_step sample_cfg ck0 (Tx Commit)
     (exec_step sample_cfg ck0 (Tx (Abort True (OtherError [])))
       (sample_db, (start_exec 13)\<lparr>ex_pc := MarkDone JNull\<rparr>)))) = Exited FailureNotApplied"
proof -
  have "owns sample_db (worker_id sample_cfg) (ex_task ((start_exec 13)\<lparr>ex_pc := MarkDone JNull\<rparr>))"
    by (simp add: owns_def sample_cfg_def start_exec_def busy_task_def)
  from ambiguous_done_is_safe [OF sample_db_ok this, of JNull ck0 "OtherError []" ck0] show ?thesis
    by (simp add: Let_def)
qed

text \<open>
  A renewal that raises (a broken connection, a timeout) silently ends the
  renewal loop: whatever happens to the task afterwards, no later tick changes anything,
  \<open>lease_lost\<close> stays unset and the work goes on, so the lease runs out under a live
  executor. Only a renewal that \<^emph>\<open>returns\<close> false stops the work.\<close>

lemma renewal_exception_is_silent:
  assumes r: "renewing e" "\<not> lease_lost e" and work: "leased_work (ex_pc e)" and ok: "db_ok M db"
  shows "(let e' = snd (exec_step cfg ck (RenewTick (Abort b x)) (db, e))
     in ex_pc e' = ex_pc e \<and> \<not> lease_lost e' \<and>
       (\<forall>ck' t db'. exec_step cfg ck' (RenewTick t) (db', e') = (db', e'))) \<and>
    (owns db (worker_id cfg) (ex_task e) \<or>
     ex_pc (snd (exec_step cfg ck (RenewTick Commit) (db, e))) = Exited LostLease)"
proof (rule conjI)
  show "let e' = snd (exec_step cfg ck (RenewTick (Abort b x)) (db, e))
    in ex_pc e' = ex_pc e \<and> \<not> lease_lost e' \<and>
       (\<forall>ck' t db'. exec_step cfg ck' (RenewTick t) (db', e') = (db', e'))"
    using r by (simp add: exec_step_def exec_renew_def Let_def)
  show "owns db (worker_id cfg) (ex_task e) \<or>
      ex_pc (snd (exec_step cfg ck (RenewTick Commit) (db, e))) = Exited LostLease"
    using r work renew_lease_result [OF ok, of ck "ex_task e" "worker_id cfg" "lease_seconds cfg"]
    by (cases "owns db (worker_id cfg) (ex_task e)")
      (simp_all add: exec_step_def exec_renew_def leave_def Let_def)
qed

lemma renewal_exception_is_silent_witness:
  "let e = (start_exec 13)\<lparr>ex_pc := Transcribe [], renewing := True\<rparr>;
       e' = snd (exec_step sample_cfg ck0 (RenewTick (Abort False (OSError []))) (sample_db, e))
   in ex_pc e' = Transcribe [] \<and> \<not> lease_lost e' \<and>
     exec_step sample_cfg ck0 (RenewTick Commit) (empty_db, e') = (empty_db, e')"
  using renewal_exception_is_silent
    [of "(start_exec 13)\<lparr>ex_pc := Transcribe [], renewing := True\<rparr>" 3 sample_db sample_cfg ck0 False "OSError []"]
    sample_db_ok
  by (simp add: Let_def leased_work_def start_exec_def)

end
