(* ===== verification/System_Properties.thy ===== *)
theory System_Properties
  imports System Executor_Properties
begin

text \<open>
  What holds of the whole system in every reachable state, and the refinement of the abstract
  life of a task.
\<close>

section \<open>Invariants\<close>

definition sys_ok :: "nat \<Rightarrow> (nat \<Rightarrow> disp_cfg) \<Rightarrow> system \<Rightarrow> bool" where
  "sys_ok M cf s \<longleftrightarrow> db_ok M (sys_db s) \<and> (\<forall>i. worker_ok (cf i) (sys_workers s i))"

definition retries_bounded :: "nat \<Rightarrow> (nat \<Rightarrow> disp_cfg) \<Rightarrow> bool" where
  "retries_bounded M cf \<longleftrightarrow> (\<forall>i. max_retries (exec_of (cf i)) \<le> int M)"

lemma db_ok_move:
  assumes "db_move cfg db db'" and "db_ok M db" and "max_retries (exec_of cfg) \<le> int M"
  shows "db_ok M db'"
  using assms(1)
proof cases
  case owner
  then show ?thesis using assms db_ok_owner_effect by blast
next
  case (claim ck lk rc n)
  have "db_ok M (if rc then snd (reclaim_in_flight ck (worker_id (exec_of cfg)) False msg_expired db) else db)"
    using assms(2) by auto
  then show ?thesis unfolding claim claim_body_def by (rule db_ok_claim)
qed (use assms(2) in auto)

lemma db_ok_api_step: "api_step db db' \<Longrightarrow> db_ok M db \<Longrightarrow> db_ok M db'"
  by (erule api_step.cases) (auto intro: db_ok_insert_pair db_ok_delete)

lemma worker_ok_step:
  assumes "worker_step cfg s s'" and "db_ok M (fst s)" and "worker_ok cfg (snd s)"
  shows "worker_ok cfg (snd s')"
  using assms(1)
proof cases
  case (coroutine ck i ev)
  then show ?thesis using worker_ok_proc_step [OF assms(3), of ck i ev "fst s"] by simp
next
  case (saturated ck mt x)
  then show ?thesis using worker_ok_loop_saturated [OF assms(3), of ck mt x "fst s"] by simp
next
  case (claims ck mt lk x)
  then show ?thesis using worker_ok_loop_claim [OF assms(2,3), of ck mt lk x] by simp
next
  case (starts ck mt x r)
  then show ?thesis using worker_ok_start [OF assms(3), of ck mt x "fst s"] by simp
next
  case (stops ck x r)
  then show ?thesis using worker_ok_stop [OF assms(3), of ck x "fst s"] by simp
qed (use assms(3) in \<open>auto intro: worker_ok_done_callback worker_ok_loop_top worker_ok_loop_wake
       worker_ok_submit worker_ok_new\<close>)

lemma sys_ok_step:
  assumes "sys_step cf a s s'" and "sys_ok M cf s" and "retries_bounded M cf"
  shows "sys_ok M cf s'"
  using assms(1)
proof cases
  case (worker i db' ws')
  have ok: "db_ok M (sys_db s)" "worker_ok (cf i) (sys_workers s i)"
    using assms(2) by (simp_all add: sys_ok_def)
  have "db_ok M db'"
    using worker_step_move [OF worker(3)] ok(1) assms(3)
    by (auto simp: retries_bounded_def intro: db_ok_move)
  moreover have "worker_ok (cf i) ws'"
    using worker_ok_step [OF worker(3)] ok by simp
  ultimately show ?thesis
    using assms(2) by (simp add: worker(2) sys_ok_def)
next
  case (api db')
  then show ?thesis
    using assms(2) db_ok_api_step by (auto simp: sys_ok_def)
qed

lemma sys_ok_init: "sys_ok M cf \<lparr>sys_db = empty_db, sys_workers = (\<lambda>_. new_worker)\<rparr>"
  by (simp add: sys_ok_def db_ok_empty worker_ok_new)

lemma sys_ok_reachable: "sys_reachable cf s \<Longrightarrow> retries_bounded M cf \<Longrightarrow> sys_ok M cf s"
  by (induction rule: sys_reachable.induct) (auto intro: sys_ok_init sys_ok_step)

section \<open>The life of a task\<close>

datatype life = Absent | Queued | Running pstr | Finished | Dead

definition life_of :: "task \<Rightarrow> life" where
  "life_of t =
     (if status t = DONE then Finished
      else if status t = FAILED then Dead
      else case locked_by t of None \<Rightarrow> Queued | Some w \<Rightarrow> Running w)"

definition life :: "database \<Rightarrow> uuid \<Rightarrow> life" where
  "life db tid = (case get_by_id db tid of None \<Rightarrow> Absent | Some t \<Rightarrow> life_of t)"

text \<open>
  Who may do what: only the worker that holds a task finishes it or lets it die; any worker
  may put a task back whose lease has run out, or take it over; only the API adds, retries and
  removes tasks.
\<close>

inductive life_step :: "pstr option \<Rightarrow> life \<Rightarrow> life \<Rightarrow> bool" where
  same: "life_step a l l"
| submit: "life_step None Absent Queued"
| retry: "life_step None Dead Queued"
| remove: "life_step None l Absent"
| claim: "life_step (Some w) Queued (Running w)"
| release: "life_step (Some w) (Running v) Queued"
| takeover: "life_step (Some w) (Running v) (Running w)"
| finish: "life_step (Some w) (Running w) Finished"
| die: "life_step (Some w) (Running w) Dead"

inductive_simps life_step_Finished: "life_step a Finished l"
inductive_simps life_step_to_Finished: "life_step a l Finished"

lemma life_of_ok:
  assumes "task_ok M t"
  shows "life_of t = (case status t of PENDING \<Rightarrow> Queued | DONE \<Rightarrow> Finished | FAILED \<Rightarrow> Dead
    | _ \<Rightarrow> Running (the (locked_by t)))"
  using assms by (auto simp: life_of_def task_ok_def split: TaskStatus.splits option.splits)

lemma life_renamed [simp]:
  "life_of (claim_set ck w lease t) = Running w"
  "life_of (done_set ck sm t) = Finished"
  "life_of (release_set ck msg t) = Queued"
  "life_of (requeue_set ck t) = Queued"
  "life_of (new_task ck tid rid) = Queued"
  "life_of (failure_set ck msg m t) = (if retry_count t + 1 \<le> m then Queued else Dead)"
  by (simp_all add: life_of_def row_defs new_task_def Let_def)

lemma task_ok_get: "db_ok M db \<Longrightarrow> get_by_id db tid = Some t \<Longrightarrow> task_ok M t"
  using get_by_id_SomeD db_ok_taskD by blast

lemma life_owner_assign:
  assumes "owner_assign cfg ck S" and "task_ok M t" and "locked_by t = Some (worker_id cfg)"
  shows "life_step (Some (worker_id cfg)) (life_of t) (life_of (S t))"
proof -
  have run: "life_of t = Running (worker_id cfg)"
    using assms(2,3) by (auto simp: life_of_def task_ok_def)
  have "life_of (renew_set ck l t) = life_of t" "life_of (summarizing_set ck tr t) = life_of t" for l tr
    using assms(2,3) by (auto simp: life_of_def row_defs task_ok_def)
  with assms(1) run show ?thesis
    by cases (auto intro: life_step.intros)
qed

lemma owner_effect_None:
  "owner_effect cfg ck tid db db' \<Longrightarrow> get_by_id db k = None \<Longrightarrow> get_by_id db' k = None"
proof -
  assume o: "owner_effect cfg ck tid db db'" and n: "get_by_id db k = None"
  obtain S where S: "owner_assign cfg ck S"
    "db' = db\<lparr>tasks := sql_update (owner_guard tid (worker_id cfg)) S (tasks db)\<rparr>"
    using o unfolding owner_effect_def by blast
  have "keyed_update task_id S"
    using owner_assign_key [OF S(1)] by unfold_locales
  from keyed_update.by_key_update [OF this] n show ?thesis
    by (simp add: S(2) get_by_id_def)
qed

lemma life_move:
  assumes mv: "db_move cfg db db'" and ok: "db_ok M db"
  shows "life_step (Some (worker_id (exec_of cfg))) (life db tid) (life db' tid)"
  using mv
proof cases
  case stay
  then show ?thesis by (simp add: same)
next
  case (owner ck k)
  show ?thesis
  proof (cases "get_by_id db tid")
    case None
    with owner_effect_None [OF owner None] show ?thesis by (simp add: life_def same)
  next
    case (Some t)
    obtain S where "owner_assign (exec_of cfg) ck S" "get_by_id db' tid =
        Some (if tid = k \<and> locked_by t = Some (worker_id (exec_of cfg)) then S t else t)"
      using owner_effect_get [OF owner Some] by blast
    then show ?thesis
      using life_owner_assign [of "exec_of cfg" ck S M t] task_ok_get [OF ok Some] Some
      by (auto simp: life_def same)
  qed
next
  case (recover ck own msg)
  then show ?thesis
    using task_ok_get [OF ok]
    by (auto simp: life_def get_by_id_reclaim reclaim_guard_def life_of_ok [of M]
        intro: life_step.intros split: option.splits)
next
  case (abort ck ids msg)
  then show ?thesis
    using task_ok_get [OF ok]
    by (auto simp: life_def get_by_id_aborted aborted_guard_def life_of_ok [of M]
        intro: life_step.intros split: option.splits)
next
  case (claim ck lk rc n)
  let ?w = "worker_id (exec_of cfg)" and ?l = "lease_seconds (exec_of cfg)"
  define db1 where "db1 = (if rc then snd (reclaim_in_flight ck ?w False msg_expired db) else db)"
  have ok1: "db_ok M db1" using ok by (auto simp: db1_def)
  have eq: "db' = snd (claim_pending ck lk n ?w ?l db1)"
    by (simp add: claim claim_body_def db1_def)
  have one: "life_step (Some ?w) (life db tid) (life db1 tid)"
    using task_ok_get [OF ok]
    by (auto simp: db1_def life_def get_by_id_reclaim reclaim_guard_def life_of_ok [of M]
        intro: life_step.intros split: option.splits)
  show ?thesis
  proof (cases "tid \<in> set (fst (claim_pending ck lk n ?w ?l db1))")
    case False
    then show ?thesis
      using one by (simp add: eq life_def get_by_id_claim [OF ok1])
  next
    case True
    then have "tid \<in> set (pick_pending ck lk n db1)"
      by (simp add: claim_pending_ids(1) [OF ok1] split: if_splits)
    then obtain t1 where t1: "get_by_id db1 tid = Some t1" "status t1 = PENDING"
      using picked_get [OF ok1] unfolding pick_guard_def by blast
    have "life db1 tid = Queued"
      using t1 task_ok_get [OF ok1 t1(1)] by (simp add: life_def life_of_ok)
    moreover have "life db' tid = Running ?w"
      using True t1(1) by (simp add: eq life_def get_by_id_claim [OF ok1])
    ultimately show ?thesis
      using one by (auto elim!: life_step.cases intro: life_step.intros)
  qed
qed

lemma life_api:
  assumes "api_step db db'" and ok: "db_ok M db"
  shows "life_step None (life db tid) (life db' tid)"
  using assms(1)
proof cases
  case (upload ck rid k name path sz h p)
  obtain r t where p: "p = (r, t)" by (cases p)
  note ins = insert_pair_Inr [OF upload [unfolded p]]
  have idt: "task_id t = k" by (simp add: ins(2) new_task_def)
  have "get_by_id db' tid = (case get_by_id db tid of
      None \<Rightarrow> (if k = tid then Some t else None) | Some u \<Rightarrow> Some u)"
    using idt by (simp add: ins(3) get_by_id_def by_key_append split: option.splits)
  then show ?thesis
    by (auto simp: life_def ins(2) intro: life_step.intros split: option.splits)
next
  case (retry ck k)
  then show ?thesis
    using task_ok_get [OF ok]
    by (auto simp: life_def get_by_id_requeue requeue_guard_def life_of_ok [of M]
        intro: life_step.intros split: option.splits)
next
  case (delete rid)
  have "get_by_id db' tid = get_by_id db tid \<or> get_by_id db' tid = None"
  proof (cases "get_by_id db' tid")
    case (Some t)
    then have "t \<in> set (tasks db)" "task_id t = tid"
      using get_by_id_SomeD [OF Some]
      by (auto simp: delete delete_recording_row_def delete_by_recording_def)
    then show ?thesis
      using get_by_id_task [OF ok] Some by auto
  qed simp
  then show ?thesis
    by (auto simp: life_def intro: life_step.intros)
qed

section \<open>Done rows\<close>

lemma done_move:
  assumes mv: "db_move cfg db db'" and ok: "db_ok M db"
    and t: "get_by_id db tid = Some t" "status t = DONE"
  shows "get_by_id db' tid = Some t"
proof -
  have free: "locked_by t = None"
    using task_ok_get [OF ok t(1)] t(2) by (simp add: task_ok_def)
  show ?thesis
    using mv
  proof cases
    case (owner ck k)
    then show ?thesis using owner_effect_get [OF owner t(1)] free t(1) by auto
  next
    case (claim ck lk rc n)
    let ?w = "worker_id (exec_of cfg)"
    define db1 where "db1 = (if rc then snd (reclaim_in_flight ck ?w False msg_expired db) else db)"
    have ok1: "db_ok M db1" using ok by (auto simp: db1_def)
    have g1: "get_by_id db1 tid = Some t"
      using t by (simp add: db1_def get_by_id_reclaim reclaim_guard_def)
    have "tid \<notin> set (fst (claim_pending ck lk n ?w (lease_seconds (exec_of cfg)) db1))"
      using picked_get [OF ok1, of tid ck lk n] g1 t(2)
      by (auto simp: claim_pending_ids(1) [OF ok1] pick_guard_def split: if_splits)
    then have "get_by_id (snd (claim_pending ck lk n ?w (lease_seconds (exec_of cfg)) db1)) tid = Some t"
      using g1 by (simp add: get_by_id_claim [OF ok1])
    then show ?thesis by (simp add: claim claim_body_def db1_def)
  qed (use t in \<open>auto simp: get_by_id_reclaim reclaim_guard_def get_by_id_aborted aborted_guard_def\<close>)
qed

lemma done_api:
  assumes st: "api_step db db'" and ok: "db_ok M db"
    and t: "get_by_id db tid = Some t" "status t = DONE"
  shows "get_by_id db' tid = Some t \<or> get_by_id db' tid = None"
  using st
proof cases
  case (upload ck rid k name path sz h p)
  obtain r u where p: "p = (r, u)" by (cases p)
  show ?thesis
    using insert_pair_Inr(3) [OF upload [unfolded p]] t(1) by (simp add: get_by_id_def by_key_append)
next
  case (delete rid)
  show ?thesis
  proof (cases "get_by_id db' tid")
    case (Some u)
    then have "u \<in> set (tasks db)" "task_id u = tid"
      using get_by_id_SomeD [OF Some]
      by (auto simp: delete delete_recording_row_def delete_by_recording_def)
    then show ?thesis
      using get_by_id_task [OF ok] Some t(1) by auto
  qed simp
qed (use t in \<open>auto simp: get_by_id_requeue requeue_guard_def\<close>)

section \<open>Properties of the system\<close>


text \<open>A reachable state: one upload, and worker 0 has started.\<close>

definition started_worker :: worker_state where
  "started_worker = new_worker\<lparr>d_pc := LoopTop, started := True\<rparr>"

definition one_task_db :: database where
  "one_task_db = \<lparr>recordings = [new_recording ck0 1 (asc ''a.wav'') (asc ''/u/a'') 4 (asc ''ff'')],
     tasks = [new_task ck0 11 1]\<rparr>"

lemma one_task_insert:
  "insert_pair ck0 1 11 (asc ''a.wav'') (asc ''/u/a'') 4 (asc ''ff'') empty_db =
    Inr ((new_recording ck0 1 (asc ''a.wav'') (asc ''/u/a'') 4 (asc ''ff''), new_task ck0 11 1), one_task_db)"
  by (simp add: insert_pair_def create_recording_def create_task_def empty_db_def one_task_db_def
      new_recording_def new_task_def asc_def)

definition sample_system :: system where
  "sample_system = \<lparr>sys_db = one_task_db, sys_workers = (\<lambda>_. new_worker)\<rparr>"

lemma sample_system_reachable: "sys_reachable (\<lambda>_. sample_disp) sample_system"
proof -
  let ?s = "\<lparr>sys_db = empty_db, sys_workers = (\<lambda>_. new_worker)\<rparr>"
  have "api_step (sys_db ?s) one_task_db"
    using upload [OF one_task_insert] by simp
  from sys_step.api [OF this, of "\<lambda>_. sample_disp"] show ?thesis
    unfolding sample_system_def by (auto intro: sys_reachable.intros)
qed


text \<open>C7.
  The system refines the life of a task: whatever step is taken, a task goes from queued to
  running only by a worker that claims it for itself, only the worker holding it finishes it or
  lets it die, other workers may only put it back or take it over, and only the API adds,
  retries and removes tasks.
\<close>

theorem system_refines_life:
  assumes "db_ok M (sys_db s)" and "sys_step cf a s s'"
  shows "life_step (case a of Worker i \<Rightarrow> Some (worker_id (exec_of (cf i))) | Api \<Rightarrow> None)
    (life (sys_db s) tid) (life (sys_db s') tid)"
  using assms(2)
proof cases
  case (worker i db' ws')
  then show ?thesis
    using life_move [OF _ assms(1)] worker_step_move [OF worker(3)] by simp
next
  case (api db')
  then show ?thesis
    using life_api [OF _ assms(1)] by simp
qed

text \<open>Worker \<open>w0\<close> finishing the sample task: the last step of its coroutine.\<close>

definition finishing_worker :: worker_state where
  "finishing_worker = sample_worker\<lparr>procs :=
     [\<lparr>ex_task = 13, ex_pc = MarkDone mock_summary, lease_lost = False, renewing = False\<rparr>]\<rparr>"

definition finishing_system :: system where
  "finishing_system = \<lparr>sys_db = sample_db, sys_workers = (\<lambda>_. finishing_worker)\<rparr>"

definition finished_system :: system where
  "finished_system =
     (let r = proc_step sample_disp ck0 0 (Tx Commit) (sample_db, finishing_worker)
      in \<lparr>sys_db = fst r, sys_workers = (\<lambda>_. finishing_worker)(0 := snd r)\<rparr>)"

lemma finishing_step: "sys_step (\<lambda>_. sample_disp) (Worker 0) finishing_system finished_system"
proof -
  let ?r = "proc_step sample_disp ck0 0 (Tx Commit) (sample_db, finishing_worker)"
  have "worker_step sample_disp (sys_db finishing_system, sys_workers finishing_system 0)
      (fst ?r, snd ?r)"
    using coroutine [of sample_disp "(sample_db, finishing_worker)" ck0 0 "Tx Commit"]
    by (simp add: finishing_system_def)
  from sys_step.worker [OF this] show ?thesis
    by (simp add: finished_system_def finishing_system_def Let_def)
qed

lemma finished_db: "sys_db finished_system = snd (mark_done ck0 13 w0 mock_summary sample_db)"
  by (simp add: finished_system_def Let_def proc_step_def finishing_worker_def sample_worker_def
      exec_step_def exec_tx_def sample_disp_id split: prod.split)

lemma finished_row: "get_by_id (sys_db finished_system) 13 = Some (done_set ck0 mock_summary busy_task)"
  by (simp add: finished_db get_by_id_done owner_guard_def busy_task_def sample_task_def new_task_def)

theorem system_refines_life_witness:
  "life_step (Some w0) (Running w0) Finished"
proof -
  have a: "db_ok 3 (sys_db finishing_system)"
    using sample_db_ok by (simp add: finishing_system_def)
  have "life (sys_db finishing_system) 13 = Running w0" "life (sys_db finished_system) 13 = Finished"
    by (simp_all add: life_def finished_row finishing_system_def)
      (simp add: life_of_def busy_task_def)
  with system_refines_life [OF a finishing_step, of 13] show ?thesis
    by (simp add: sample_disp_id)
qed

text \<open>C11.
  A finished task stays as it is: no step of any worker changes its row, and no step of the
  API does except the deletion of its recording.
\<close>

theorem done_is_final:
  assumes "db_ok M (sys_db s)" and "sys_step cf a s s'"
    and "get_by_id (sys_db s) tid = Some t" and "status t = DONE"
  shows "get_by_id (sys_db s') tid = Some t \<or> (a = Api \<and> get_by_id (sys_db s') tid = None)"
  using assms(2)
proof cases
  case (worker i db' ws')
  then show ?thesis
    using done_move [OF _ assms(1,3,4)] worker_step_move [OF worker(3)] by simp
next
  case (api db')
  then show ?thesis
    using done_api [OF _ assms(1,3,4)] by auto
qed

theorem done_is_final_witness:
  "get_by_id (sys_db finished_system) 13 = Some (done_set ck0 mock_summary busy_task)"
proof -
  have ok: "db_ok 3 (sys_db finished_system)"
    unfolding finished_db by (rule db_ok_done [OF sample_db_ok])
  have "sys_step (\<lambda>_. sample_disp) (Worker 0) finished_system
      \<lparr>sys_db = sys_db finished_system, sys_workers = (sys_workers finished_system)(0 := new_worker)\<rparr>"
    by (rule sys_step.worker) (rule crash)
  from done_is_final [OF ok this finished_row] show ?thesis
    by (simp add: done_set_def)
qed

section \<open>From the upload to the result\<close>

text \<open>Only the new task can be claimed.\<close>

lemma claim_only_new:
  assumes "insert_pair ck rid tid name path sz h db = Inr ((r, t), db1)"
    and "\<forall>u \<in> set (tasks db). \<not> pick_guard ck1 lk u" and "pick_guard ck1 lk t" and "0 < b"
  shows "pick_pending ck1 lk b db1 = [tid]"
proof -
  have "filter (pick_guard ck1 lk) (tasks db) = []"
    using assms(2) by (simp add: filter_empty_conv)
  moreover have "task_id t = tid"
    using insert_pair_Inr(2) [OF assms(1)] by (simp add: new_task_def)
  ultimately show ?thesis
    using insert_pair_Inr(3) [OF assms(1)] assms(3,4)
    by (simp add: pick_pending_def sql_where_def sql_order_limit_def)
qed

text \<open>A free worker's claim right after the insertion takes exactly the new task.\<close>

lemma new_task_claimed:
  assumes ok: "db_ok M db" and ins: "insert_pair ck rid tid name path sz h db = Inr ((r, t), db1)"
    and late: "utcnow ck \<le> sql_utc_now ck1"
    and alone: "\<forall>u \<in> set (tasks db). \<not> pick_guard ck1 (\<lambda>_. False) u"
    and free: "d_pc ws = Claiming b" "0 < b" "\<not> reclaim_due cfg mt ws"
    and loop: "loop_claim cfg ck1 mt (\<lambda>_. False) Commit (db1, ws) = (db2, ws2)"
  shows "ws2 = (schedule_task tid ws)\<lparr>d_pc := LoopTop\<rparr> \<and>
    owned_row M (exec_of cfg) tid rid r (claim_set ck1 (worker_id (exec_of cfg)) (lease_seconds (exec_of cfg)) t) db2"
proof -
  let ?w = "worker_id (exec_of cfg)" and ?l = "lease_seconds (exec_of cfg)"
  note ip = insert_pair_Inr [OF ins]
  have ok1: "db_ok M db1" using db_ok_insert_pair [OF ins ok] .
  have "pick_guard ck1 (\<lambda>_. False) t"
    using late by (simp add: ip(2) pick_guard_def new_task_def)
  from claim_only_new [OF ins alone this free(2)]
  have pick: "pick_pending ck1 (\<lambda>_. False) b db1 = [tid]" .
  have idt: "task_id t = tid" by (simp add: ip(2) new_task_def)
  have "filter (claim_guard [tid]) (tasks db) = []"
    using ip(6) by (auto simp: filter_empty_conv claim_guard_def)
  then have cr: "claim_rows ck1 ?w ?l [tid] db1 =
      ([tid], db1\<lparr>tasks := sql_update (claim_guard [tid]) (claim_set ck1 ?w ?l) (tasks db1)\<rparr>)"
    using idt by (simp add: claim_rows_def sql_returning_def ip(3) claim_guard_def claim_set_def)
  have body: "claim_body cfg ck1 (\<lambda>_. False) (reclaim_due cfg mt ws) b db1 = claim_rows ck1 ?w ?l [tid] db1"
    using free(2,3) pick by (simp add: claim_body_def claim_pending_rows)
  have eq: "db2 = snd (claim_rows ck1 ?w ?l [tid] db1)" "ws2 = (schedule_task tid ws)\<lparr>d_pc := LoopTop\<rparr>"
    using loop_claim_commit [OF free(1), of "[tid]" cfg ck1 "\<lambda>_. False" mt db1] loop free(3) cr body
    by simp_all
  have "get_by_id db1 tid = Some t"
    using get_by_id_task [OF ok1, of t] idt by (simp add: ip(3))
  then have get2: "get_by_id db2 tid = Some (claim_set ck1 ?w ?l t)"
    using idt by (simp add: eq(1) claim_rows_def get_by_id_def claim_row.by_key_update claim_guard_def)
  have ok2: "db_ok M db2"
    using db_ok_claim [OF ok1, of ck1 "\<lambda>_. False" b ?w ?l] free(2)
    by (simp add: eq(1) claim_pending_rows pick)
  have "rec_id r = rid" "by_key rec_id rid (recordings db) = None"
    using ip(4) by (simp_all add: ip(1) new_recording_def by_key_None_iff)
  then have "recording_get_by_id db2 rid = Some r"
    by (simp add: eq(1) claim_rows_def ip(3) recording_get_by_id_def by_key_append)
  with ok2 get2 eq(2) show ?thesis
    by (simp add: owned_row_def claim_set_def ip(2) new_task_def)
qed

text \<open>C8.
  From the upload to the result: a recording and its task are inserted, no other task is
  claimable, and a worker with a free slot runs its loop once.  Then the task has a coroutine,
  and if the transcriber and the summarizer return and nobody interferes with the task, that
  coroutine ends as completed and leaves the task \<open>done\<close> with exactly their results and no
  failure counted.  (The claim must come no earlier than the upload on the database's clock.)
\<close>

theorem upload_processed:
  assumes ok: "db_ok M db" and ins: "insert_pair ck rid tid name path sz h db = Inr ((r, t), db1)"
    and late: "utcnow ck \<le> sql_utc_now ck1"
    and alone: "\<forall>u \<in> set (tasks db). \<not> pick_guard ck1 (\<lambda>_. False) u"
    and free: "d_pc ws = Claiming b" "0 < b" "\<not> reclaim_due cfg mt ws"
    and loop: "loop_claim cfg ck1 mt (\<lambda>_. False) Commit (db1, ws) = (db2, ws2)"
    and env: "\<And>i. leaves_alone M tid rid (env i)"
    and sm: "summarize_result (exec_of cfg) (Inr q) = Inr sm"
  shows "map_of (running ws2) (uuid_str tid) = Some (length (procs ws)) \<and>
    (let s = exec_run (exec_of cfg) (good_events [c0, c1, c2, c3, c4, c5, c6] env tr q)
               (db2, procs ws2 ! length (procs ws))
     in ex_pc (snd s) = Exited Completed \<and>
        (\<exists>u. get_by_id (fst s) tid = Some u \<and> status u = DONE \<and> transcript u = Some tr \<and>
           summary u = Some sm \<and> error_msg u = None \<and> retry_count u = 0))"
proof -
  note ip = insert_pair_Inr [OF ins]
  note claimed = new_task_claimed [OF ok ins late alone free loop]
  let ?t2 = "claim_set ck1 (worker_id (exec_of cfg)) (lease_seconds (exec_of cfg)) t"
  have st: "status ?t2 = TRANSCRIBING" and rc: "retry_count ?t2 = 0"
    by (simp_all add: claim_set_def ip(2) new_task_def)
  have "procs ws2 ! length (procs ws) = start_exec tid"
    "map_of (running ws2) (uuid_str tid) = Some (length (procs ws))"
    by (simp_all add: conjunct1 [OF claimed] schedule_task_fields)
  then show ?thesis
    using process_success [OF conjunct2 [OF claimed] st, of env q sm c0 c1 c2 c3 c4 c5 c6 tr, OF env sm] rc
    by (auto simp: Let_def)
qed

theorem upload_processed_witness:
  "map_of (running (snd (loop_claim sample_disp ck0 0 (\<lambda>_. False) Commit
       (one_task_db, new_worker\<lparr>d_pc := Claiming 1\<rparr>)))) (uuid_str 11) = Some 0"
proof -
  have l: "leaves_alone 3 11 1 (\<lambda>db. db)" by (simp add: leaves_alone_def)
  have "\<not> reclaim_due sample_disp 0 (new_worker\<lparr>d_pc := Claiming 1\<rparr>)"
    "utcnow ck0 \<le> sql_utc_now ck0" "\<forall>u \<in> set (tasks empty_db). \<not> pick_guard ck0 (\<lambda>_. False) u"
    "summarize_result (exec_of sample_disp) (Inr JNull) = Inr mock_summary"
    "d_pc (new_worker\<lparr>d_pc := Claiming 1\<rparr>) = Claiming 1"
    by (simp_all add: reclaim_due_def sample_disp_def new_worker_def sample_defs empty_db_def
        summarize_result_def)
  from upload_processed [OF db_ok_empty one_task_insert this(2,3,5) _ this(1)
      prod.collapse [symmetric] l this(4)]
  show ?thesis by (simp add: new_worker_def)
qed

end
