(* ===== verification/Repository_Properties.thy ===== *)
theory Repository_Properties
  imports Repositories Sample_Data
begin

text \<open>
  The repositories: an upload inserts a recording and its task once per content hash, also in a
  race; the pages of the listing are the recordings in order, each once and with its own task; a
  deletion removes a recording with its task and nothing else.
\<close>

section \<open>The contract of the creation\<close>

text \<open>
  What the upload service relies on: a recording that uses the path of the call exists
  afterwards only if the call says it created it, or if the commit failed after the server had
  applied it.
\<close>

definition path_free :: "pstr \<Rightarrow> database \<Rightarrow> bool" where
  "path_free path db \<longleftrightarrow> path \<notin> file_path ` set (recordings db)"

definition env_leaves_path :: "pstr \<Rightarrow> interference \<Rightarrow> bool" where
  "env_leaves_path path env \<longleftrightarrow> (\<forall>i db. path_free path db \<longrightarrow> path_free path (env i db))"

definition ambiguous :: "tx \<Rightarrow> bool" where
  "ambiguous x = (case x of Commit \<Rightarrow> False | Abort applied _ \<Rightarrow> applied | CancelTx applied \<Rightarrow> applied)"

lemma insert_pair_tx_cases:
  assumes "insert_pair_tx ck rid tid x name path sz h db = (res, db')"
  shows "(\<exists>e. insert_pair ck rid tid name path sz h db = Inl e \<and> res = Raised e \<and> db' = db) \<or>
    (\<exists>p dbp. insert_pair ck rid tid name path sz h db = Inr (p, dbp) \<and>
       (res = Returned p \<and> x = Commit \<and> db' = dbp \<or>
        (res = TxCancelled \<or> (\<exists>e. res = Raised e)) \<and> x \<noteq> Commit \<and> db' = (if ambiguous x then dbp else db)))"
  using assms
  by (auto simp: insert_pair_tx_def ambiguous_def task_tx_def split: sum.splits tx.splits)

lemma insert_pair_tx_path:
  assumes "insert_pair_tx ck rid tid x name path sz h db = (res, db')" and "path_free path db"
    and "\<not> ambiguous x" and "\<forall>p. res \<noteq> Returned p"
  shows "path_free path db'"
  using insert_pair_tx_cases [OF assms(1)] assms by auto

lemma create_not_created:
  assumes "create_recording_and_task ck rid tid env x name path sz h db = (res, db')"
    and "path_free path db" and "env_leaves_path path env" and "\<not> ambiguous x"
    and "\<forall>r t. res \<noteq> Returned (r, t, True)"
  shows "path_free path db'"
proof -
  have env: "path_free path d \<Longrightarrow> path_free path (env i d)" for i d
    using assms(3) by (simp add: env_leaves_path_def)
  obtain r1 db1 where ins: "insert_pair_tx ck rid tid x name path sz h (env 0 db) = (r1, db1)"
    by (cases "insert_pair_tx ck rid tid x name path sz h (env 0 db)") auto
  have "path_free path db1" if "\<forall>p. r1 \<noteq> Returned p"
    using insert_pair_tx_path [OF ins env [OF assms(2)] assms(4) that] .
  then show ?thesis
    using assms(1,2,5) env
    by (auto simp: create_recording_and_task_def Let_def ins
        split: option.splits prod.splits tx_result.splits exn.splits)
qed

lemma create_created:
  assumes "create_recording_and_task ck rid tid env x name path sz h db = (Returned (r, t, True), db')"
  shows "r = new_recording ck rid name path sz h" and "t = Some (new_task ck tid rid)"
    and "r \<in> set (recordings db')" and "new_task ck tid rid \<in> set (tasks db')"
proof -
  obtain r1 db1 where ins: "insert_pair_tx ck rid tid x name path sz h (env 0 db) = (r1, db1)"
    by (cases "insert_pair_tx ck rid tid x name path sz h (env 0 db)") auto
  obtain u where u: "r1 = Returned (r, u)" "t = Some u" "db1 = db'"
    using assms
    by (auto simp: create_recording_and_task_def Let_def ins
        split: option.splits prod.splits tx_result.splits exn.splits)
  then have "insert_pair ck rid tid name path sz h (env 0 db) = Inr ((r, u), db')"
    using insert_pair_tx_cases [OF ins] by auto
  note i = insert_pair_Inr [OF this]
  show "r = new_recording ck rid name path sz h" "t = Some (new_task ck tid rid)"
    "r \<in> set (recordings db')" "new_task ck tid rid \<in> set (tasks db')"
    using i u by auto
qed

section \<open>One recording per hash\<close>

definition fits :: "pstr \<Rightarrow> pstr \<Rightarrow> int \<Rightarrow> pstr \<Rightarrow> bool" where
  "fits name path sz h \<longleftrightarrow> length name \<le> 255 \<and> length path \<le> 1000 \<and> length h \<le> 64 \<and>
     - (2 ^ 31) \<le> sz \<and> sz < 2 ^ 31"

lemma insert_pair_fresh:
  assumes "db_ok M db" and "fits name path sz h" and "h \<notin> file_hash ` set (recordings db)"
    and "rid \<notin> rec_id ` set (recordings db)" and "tid \<notin> task_id ` set (tasks db)"
  shows "insert_pair ck rid tid name path sz h db =
    Inr ((new_recording ck rid name path sz h, new_task ck tid rid),
      \<lparr>recordings = recordings db @ [new_recording ck rid name path sz h],
       tasks = tasks db @ [new_task ck tid rid]\<rparr>)"
proof -
  have "rid \<notin> recording_id ` set (tasks db)"
    using assms(1,4) by (auto simp: db_ok_def)
  then show ?thesis
    using assms by (auto simp: insert_pair_def create_recording_def create_task_def fits_def
        new_recording_def new_task_def)
qed

lemma insert_pair_dup:
  assumes "h \<in> file_hash ` set (recordings db)" and "fits name path sz h"
    and "rid \<notin> rec_id ` set (recordings db)"
  shows "insert_pair ck rid tid name path sz h db = Inl (IntegrityError (asc ''ix_recordings_file_hash''))"
  using assms by (auto simp: insert_pair_def create_recording_def fits_def new_recording_def)

lemma by_hash_found:
  assumes "db_ok M db" and "r \<in> set (recordings db)"
  shows "recording_get_by_hash db (file_hash r) = Some r"
proof -
  have "recording_get_by_hash db (file_hash r) = by_key file_hash (file_hash r) (recordings db)"
    by (simp add: recording_get_by_hash_def by_key_def)
  then show ?thesis
    using assms by (simp add: db_ok_def by_key_in)
qed

text \<open>C24.
  The race for a hash: both sessions have looked for the hash and found nothing, and the other
  one inserts and commits first.  Then the insert of this session hits the unique index, it is
  rolled back, and the call returns the other's recording and task with \<open>created = False\<close>:
  the database holds what the other session committed and nothing of this one.
\<close>

theorem create_race_lost:
  assumes "db_ok M db" and "h \<notin> file_hash ` set (recordings db)"
    and "insert_pair ck' rid' tid' name' path' sz' h db = Inr ((r', t'), db')"
    and "env = (\<lambda>i d. if i = 0 then db' else d)"
    and "fits name path sz h" and "rid \<noteq> rid'" and "rid \<notin> rec_id ` set (recordings db)"
  shows "create_recording_and_task ck rid tid env x name path sz h db =
    (Returned (r', Some t', False), db')"
proof -
  note i = insert_pair_Inr [OF assms(3)]
  have ok': "db_ok M db'" using db_ok_insert_pair [OF assms(3,1)] .
  have h': "h \<in> file_hash ` set (recordings db')"
    by (simp add: i(3) i(1) new_recording_def)
  have rid: "rid \<notin> rec_id ` set (recordings db')"
    using assms(6,7) by (simp add: i(3) i(1) new_recording_def)
  have r': "recording_get_by_hash db' h = Some r'"
    using by_hash_found [OF ok', of r'] by (simp add: i(3) i(1) new_recording_def)
  have t': "get_by_recording db' (rec_id r') = Some t'"
    unfolding get_by_recording_iff [OF ok'] by (simp add: i(1-3) new_recording_def new_task_def)
  have "recording_get_by_hash db h = None"
    using assms(2) by (simp add: recording_get_by_hash_None_iff)
  then show ?thesis
    using insert_pair_dup [OF h' assms(5) rid] r' t' assms(4)
    by (simp add: create_recording_and_task_def insert_pair_tx_def)
qed

theorem create_race_lost_witness:
  "fst (create_recording_and_task ck0 2 12
     (\<lambda>i d. if i = 0 then snd (projr (insert_pair ck0 1 11 (asc ''a.wav'') (asc ''/u/a'') 4 (asc ''ff'') empty_db)) else d)
     Commit (asc ''b.wav'') (asc ''/u/b'') 4 (asc ''ff'') empty_db) =
   Returned (new_recording ck0 1 (asc ''a.wav'') (asc ''/u/a'') 4 (asc ''ff''), Some (new_task ck0 11 1), False)"
proof -
  have none: "asc ''ff'' \<notin> file_hash ` set (recordings empty_db)" "2 \<notin> rec_id ` set (recordings empty_db)"
    "1 \<notin> rec_id ` set (recordings empty_db)" "11 \<notin> task_id ` set (tasks empty_db)"
    by (simp_all add: empty_db_def)
  have f: "fits (asc ''a.wav'') (asc ''/u/a'') 4 (asc ''ff'')" "fits (asc ''b.wav'') (asc ''/u/b'') 4 (asc ''ff'')"
    by (simp_all add: fits_def asc_def)
  note i = insert_pair_fresh [OF db_ok_empty f(1) none(1,3,4), of ck0]
  show ?thesis
    using create_race_lost [OF db_ok_empty none(1) i refl f(2) _ none(2), of ck0 12 Commit]
    unfolding i by (simp cong: if_cong)
qed

text \<open>
  Uploading the same content again: the first call inserts a recording and a pending task, any
  later call with the same hash returns exactly these, says that nothing was created, and
  leaves the database as it is.
\<close>

lemma create_idempotent:
  assumes "db_ok M db" and "fits name path sz h" and "h \<notin> file_hash ` set (recordings db)"
    and "rid \<notin> rec_id ` set (recordings db)" and "tid \<notin> task_id ` set (tasks db)"
  shows "\<exists>r t db'. create_recording_and_task ck rid tid quiet Commit name path sz h db =
      (Returned (r, Some t, True), db') \<and> db_ok M db' \<and>
    file_path r = path \<and> file_hash r = h \<and> recording_id t = rec_id r \<and> status t = PENDING \<and>
    recordings db' = recordings db @ [r] \<and> tasks db' = tasks db @ [t] \<and>
    (\<forall>ck2 rid2 tid2 x name2 path2 sz2.
       create_recording_and_task ck2 rid2 tid2 quiet x name2 path2 sz2 h db' =
         (Returned (r, Some t, False), db'))"
proof -
  let ?r = "new_recording ck rid name path sz h" and ?t = "new_task ck tid rid"
  let ?db' = "\<lparr>recordings = recordings db @ [?r], tasks = tasks db @ [?t]\<rparr>"
  note i = insert_pair_fresh [OF assms]
  have ok': "db_ok M ?db'" using db_ok_insert_pair [OF i assms(1)] .
  have "recording_get_by_hash db h = None"
    using assms(3) by (simp add: recording_get_by_hash_None_iff)
  then have c: "create_recording_and_task ck rid tid quiet Commit name path sz h db =
      (Returned (?r, Some ?t, True), ?db')"
    by (simp add: create_recording_and_task_def insert_pair_tx_def i)
  have "recording_get_by_hash ?db' h = Some ?r"
    using by_hash_found [OF ok', of ?r] by (simp add: new_recording_def)
  moreover have "get_by_recording ?db' (rec_id ?r) = Some ?t"
    unfolding get_by_recording_iff [OF ok'] by (simp add: new_recording_def new_task_def)
  ultimately have "create_recording_and_task ck2 rid2 tid2 quiet x name2 path2 sz2 h ?db' =
      (Returned (?r, Some ?t, False), ?db')" for ck2 rid2 tid2 x name2 path2 sz2
    by (simp add: create_recording_and_task_def)
  with c ok' show ?thesis
    by (intro exI [of _ ?r] exI [of _ ?t] exI [of _ ?db'])
      (simp add: new_recording_def new_task_def)
qed

lemma create_idempotent_witness:
  "\<exists>r t db'. create_recording_and_task ck0 1 11 quiet Commit (asc ''a.wav'') (asc ''/u/a'') 4 (asc ''ff'') empty_db =
     (Returned (r, Some t, True), db') \<and> recordings db' = [r]"
proof -
  have "fits (asc ''a.wav'') (asc ''/u/a'') 4 (asc ''ff'')" by (simp add: fits_def asc_def)
  from create_idempotent [OF db_ok_empty [of 0] this, of 1 11 ck0]
  obtain r t db' where "create_recording_and_task ck0 1 11 quiet Commit (asc ''a.wav'') (asc ''/u/a'') 4
      (asc ''ff'') empty_db = (Returned (r, Some t, True), db')" "recordings db' = recordings empty_db @ [r]"
    by (auto simp: empty_db_def)
  then show ?thesis by (simp add: empty_db_def)
qed

section \<open>Listing\<close>

lemma by_recording_foldl:
  "foldl (\<lambda>m t. m(recording_id t \<mapsto> t)) m ts rid =
    (case by_key recording_id rid (rev ts) of None \<Rightarrow> m rid | Some t \<Rightarrow> Some t)"
  by (induction ts rule: rev_induct) (auto split: option.splits)

lemma by_recording_eq:
  assumes "distinct (map recording_id ts)"
  shows "by_recording ts rid = by_key recording_id rid ts"
proof -
  have d: "distinct (map recording_id (rev ts))"
    using assms by (simp add: rev_map [symmetric])
  have "by_key recording_id rid (rev ts) = by_key recording_id rid ts"
  proof (cases "by_key recording_id rid ts")
    case (Some t)
    then show ?thesis
      using by_key_SomeD [OF Some] by_key_Some_iff [OF d, of rid t] by simp
  next
    case None
    then have "rid \<notin> recording_id ` set (rev ts)" by (simp add: by_key_None_iff)
    then have "by_key recording_id rid (rev ts) = None"
      by (simp only: by_key_None_iff not_False_eq_True)
    with None show ?thesis by simp
  qed
  then show ?thesis
    by (simp add: by_recording_def by_recording_foldl split: option.splits)
qed

text \<open>The newest first.\<close>

definition in_order :: "database \<Rightarrow> recording list" where
  "in_order db = sort_key (\<lambda>r. - rec_created_at r) (recordings db)"

lemma page_tasks:
  assumes "db_ok M db" and "r \<in> set rs"
  shows "by_recording (list_by_recording_ids db (map rec_id rs)) (rec_id r) = get_by_recording db (rec_id r)"
proof -
  let ?ts = "list_by_recording_ids db (map rec_id rs)"
  have ts: "?ts = sql_where (\<lambda>t. recording_id t \<in> rec_id ` set rs) (tasks db)"
    using assms(2) by (auto simp: list_by_recording_ids_def)
  have d: "distinct (map recording_id ?ts)"
    using assms(1) unfolding ts by (simp add: db_ok_def sql_where_def distinct_map_filter)
  have "by_key recording_id (rec_id r) ?ts = by_key recording_id (rec_id r) (tasks db)"
    using assms(2) unfolding ts by_key_def sql_where_def filter_filter
    by (intro arg_cong [of _ _ first] filter_cong refl) auto
  then show ?thesis
    by (simp add: by_recording_eq [OF d] get_by_recording_by_key)
qed

lemma page_items:
  assumes "db_ok M db"
  shows "repo_list_page quiet (int (Suc p)) (int n) db =
    ((map (\<lambda>r. (r, get_by_recording db (rec_id r))) (take n (drop (p * n) (in_order db))),
      int (length (recordings db))), db)"
proof -
  have o: "nat ((int (Suc p) - 1) * int n) = p * n"
    by (simp add: nat_mult_distrib)
  have "recording_list_page db ((int (Suc p) - 1) * int n) (int n) = take n (drop (p * n) (in_order db))"
    by (simp only: recording_list_page_def o in_order_def nat_int)
  then show ?thesis
    using page_tasks [OF assms] by (auto simp: repo_list_page_def Let_def count_all_def)
qed



section \<open>Deleting\<close>

lemma by_key_sql_delete_other:
  "(\<And>r. r \<in> set rs \<Longrightarrow> key r = k \<Longrightarrow> \<not> G r) \<Longrightarrow> by_key key k (sql_delete G rs) = by_key key k rs"
  by (induction rs) (auto simp: sql_delete_def)

text \<open>
  Deleting a recording returns the path of its file and removes the recording and its task; no
  other recording and no other task is touched.
\<close>

lemma delete_spec:
  assumes "db_ok M db" and "recording_get_by_id db rid = Some r"
    and "repo_delete quiet Commit rid db = (res, db')"
  shows "res = Returned (Some (file_path r)) \<and> db_ok M db' \<and>
    recordings db' = filter (\<lambda>q. rec_id q \<noteq> rid) (recordings db) \<and>
    tasks db' = filter (\<lambda>t. recording_id t \<noteq> rid) (tasks db) \<and>
    recording_get_by_hash db' (file_hash r) = None"
proof -
  have r: "r \<in> set (recordings db)" "rec_id r = rid"
    using recording_get_by_id_SomeD [OF assms(2)] by auto
  have eq: "res = Returned (Some (file_path r))"
    "recordings db' = filter (\<lambda>q. rec_id q \<noteq> rid) (recordings db)"
    "tasks db' = filter (\<lambda>t. recording_id t \<noteq> rid) (tasks db)"
    using assms(2,3) r(2)
    by (auto simp: repo_delete_def delete_recording_row_def delete_by_recording_def sql_delete_def)
  have ok': "db_ok M db'"
    using db_ok_repo_delete [OF benign_quiet assms(1), of Commit rid] assms(3) by simp
  have "file_hash q \<noteq> file_hash r" if "q \<in> set (recordings db)" "rec_id q \<noteq> rid" for q
    using assms(1) r that distinct_key_eq [of file_hash "recordings db" q r] by (auto simp: db_ok_def)
  then have "recording_get_by_hash db' (file_hash r) = None"
    by (fastforce simp: recording_get_by_hash_None_iff eq)
  with eq ok' show ?thesis by simp
qed

lemma delete_spec_witness:
  "fst (repo_delete quiet Commit 3 sample_db) = Returned (Some (asc ''/u/c''))"
proof -
  have "recording_get_by_id sample_db 3 = Some (sample_recording 3 (asc ''c'') 50)"
    by (simp add: recording_get_by_id_def sample_db_def sample_recording_def new_recording_def)
  from delete_spec [OF sample_db_ok this prod.collapse [symmetric]] show ?thesis
    by (simp add: sample_recording_def new_recording_def asc_def)
qed

end
