(* ===== verification/Task_Service.thy ===== *)
theory Task_Service
  imports Repositories Dispatcher
begin

text \<open>
  \<open>api/service/task.py\<close>: reading and retrying a task.  The service holds the worker of its
  own process (\<open>None\<close> where the process runs none); each repository call is a transaction
  of its own, and other sessions may commit between two of them.
\<close>

section \<open>Messages\<close>

text \<open>"task does not exist: id".\<close>

definition msg_task_missing :: "uuid \<Rightarrow> pstr" where
  [msg_defs]: "msg_task_missing tid = [20219, 21153, 19981, 23384, 22312] @ asc '': '' @ uuid_str tid"

text \<open>"only a failed task can be retried, current status: status".\<close>

definition msg_not_retryable :: "TaskStatus \<Rightarrow> pstr" where
  [msg_defs]: "msg_not_retryable st =
     [20165] @ asc '' failed '' @ [29366, 24577, 21487, 37325, 35797, 65292, 24403, 21069, 29366, 24577] @
     asc '': '' @ status_value st"

section \<open>Results\<close>

text \<open>What a service call ends with: a value, an exception, or it is cancelled.\<close>

text \<open>Telling the worker: without a worker nothing happens.\<close>

definition submit_opt :: "worker_state option \<Rightarrow> uuid \<Rightarrow> exn + worker_state option" where
  "submit_opt wk tid =
     (case wk of None \<Rightarrow> Inr None
      | Some ws \<Rightarrow> (case worker_submit tid ws of Inl e \<Rightarrow> Inl e | Inr ws' \<Rightarrow> Inr (Some ws')))"

definition submitted ::
  "worker_state option \<Rightarrow> uuid \<Rightarrow> 'a \<Rightarrow> database \<Rightarrow> 'a tx_result \<times> database \<times> worker_state option" where
  "submitted wk tid v db =
     (case submit_opt wk tid of Inl e \<Rightarrow> (Raised e, db, wk) | Inr wk' \<Rightarrow> (Returned v, db, wk'))"

section \<open>The service\<close>

definition task_service_get :: "uuid \<Rightarrow> database \<Rightarrow> exn + task" where
  "task_service_get tid db =
     (case task_repo_get_by_id tid db of
        None \<Rightarrow> Inl (TaskNotFoundError (msg_task_missing tid))
      | Some t \<Rightarrow> Inr t)"

text \<open>
  \<open>retry\<close>: requeue; if that did not apply look at the task; if it is failed (it became so
  again meanwhile) try once more.  \<open>x1\<close>, \<open>x2\<close> are the ends of the two requeue transactions.
\<close>

definition task_service_retry ::
  "clock \<Rightarrow> interference \<Rightarrow> tx \<Rightarrow> tx \<Rightarrow> uuid \<Rightarrow> database \<Rightarrow> worker_state option \<Rightarrow>
     task tx_result \<times> database \<times> worker_state option" where
  "task_service_retry ck env x1 x2 tid db wk =
     (case task_repo_requeue_failed ck x1 tid db of
        (Raised e, db1) \<Rightarrow> (Raised e, db1, wk)
      | (TxCancelled, db1) \<Rightarrow> (TxCancelled, db1, wk)
      | (Returned (Some t), db1) \<Rightarrow> submitted wk (task_id t) t db1
      | (Returned None, db1) \<Rightarrow>
          (let db2 = env 0 db1 in
           case task_repo_get_by_id tid db2 of
             None \<Rightarrow> (Raised (TaskNotFoundError (msg_task_missing tid)), db2, wk)
           | Some t \<Rightarrow>
               (if status t \<in> set RECOVERABLE_STATUSES then (Returned t, db2, wk)
                else if status t = FAILED then
                  (case task_repo_requeue_failed ck x2 tid (env 1 db2) of
                     (Raised e, db3) \<Rightarrow> (Raised e, db3, wk)
                   | (TxCancelled, db3) \<Rightarrow> (TxCancelled, db3, wk)
                   | (Returned (Some t'), db3) \<Rightarrow> submitted wk (task_id t') t' db3
                   | (Returned None, db3) \<Rightarrow>
                       (let db4 = env 2 db3 in
                        case task_repo_get_by_id tid db4 of
                          None \<Rightarrow> (Raised (TaskNotFoundError (msg_task_missing tid)), db4, wk)
                        | Some t' \<Rightarrow>
                            (if status t' \<in> set RECOVERABLE_STATUSES then (Returned t', db4, wk)
                             else (Raised (TaskNotRetryableError (msg_not_retryable (status t'))), db4, wk))))
                else (Raised (TaskNotRetryableError (msg_not_retryable (status t))), db2, wk))))"

end
