(* ===== verification/Task_Service_Properties.thy ===== *)
theory Task_Service_Properties
  imports Task_Service Sample_Data
begin

text \<open>
  Retrying a task: what it does in each status, and what its answer means when other sessions
  change the task at the same time.
\<close>

section \<open>One requeue\<close>

lemma requeue_tx_cases:
  assumes "db_ok M db" and "task_repo_requeue_failed ck x tid db = (res, db')"
  shows "(res = Returned None \<and> db' = db \<and> (\<forall>t. get_by_id db tid = Some t \<longrightarrow> status t \<noteq> FAILED)) \<or>
    (\<exists>t. get_by_id db tid = Some t \<and> status t = FAILED \<and>
       (res = Returned (Some (requeue_set ck t)) \<and> db' = snd (requeue_failed ck tid db) \<or>
        (res = TxCancelled \<or> (\<exists>e. res = Raised e))))"
proof (cases "fst (requeue_failed ck tid db)")
  case None
  have "status t \<noteq> FAILED" if "get_by_id db tid = Some t" for t
    using requeue_failed_result [OF assms(1), of ck tid] None that by (auto split: if_splits)
  moreover have "res = Returned None \<and> db' = db"
    using assms(2) None by (cases "requeue_failed ck tid db") (auto simp: task_repo_requeue_failed_def)
  ultimately show ?thesis by blast
next
  case (Some u)
  obtain t where "get_by_id db tid = Some t" "status t = FAILED" "u = requeue_set ck t"
    using requeue_failed_result [OF assms(1), of ck tid] Some by (auto split: option.splits if_splits)
  then show ?thesis
    using assms(2) Some
    by (cases "requeue_failed ck tid db")
      (auto simp: task_repo_requeue_failed_def task_tx_def split: tx.splits)
qed

lemma requeue_row:
  assumes "db_ok M db" and "get_by_id db tid = Some t" and "status t = FAILED"
  shows "get_by_id (snd (requeue_failed ck tid db)) k =
    (if k = tid then Some (requeue_set ck t) else get_by_id db k)"
proof (cases "k = tid")
  case True
  then show ?thesis
    using assms(2,3) get_by_id_SomeD [OF assms(2)] by (simp add: get_by_id_requeue requeue_guard_def)
next
  case False
  have "map_option (\<lambda>t. if requeue_guard tid t then requeue_set ck t else t) (get_by_id db k) = get_by_id db k"
    using False get_by_id_SomeD [of db k] by (cases "get_by_id db k") (auto simp: requeue_guard_def)
  then show ?thesis using False by (simp add: get_by_id_requeue)
qed

lemma submitted_cases:
  assumes "submitted wk tid v db = (res, db', wk')"
  shows "db' = db" and "res = Returned v \<or> (\<exists>e. res = Raised e \<and> wk' = wk)"
  using assms by (auto simp: submitted_def split: sum.splits)

section \<open>Properties\<close>

text \<open>C26.
  A retry nobody interferes with.  An unknown task is reported as such.  A failed task goes
  back into the queue with its failures, error, transcript and summary wiped, claimable at
  once, and no other task changes; the answer is the new row, or the exception of a worker that
  has not been started (the task stays requeued).  A task that is queued or being processed is
  returned as it is.  A done task is refused.  In the last three cases nothing is written.
\<close>

theorem retry_spec:
  assumes "db_ok M db" and "task_service_retry ck quiet Commit x2 tid db wk = (res, db', wk')"
  shows "case get_by_id db tid of
      None \<Rightarrow> res = Raised (TaskNotFoundError (msg_task_missing tid)) \<and> db' = db
    | Some t \<Rightarrow>
        (case status t of
           FAILED \<Rightarrow>
             (let u = t\<lparr>status := PENDING, retry_count := 0, error_msg := None, transcript := None,
                    summary := None, locked_by := None, lease_expires_at := None,
                    next_retry_at := sql_utc_now ck, task_updated_at := sql_utc_now ck\<rparr>
              in (\<forall>k. get_by_id db' k = (if k = tid then Some u else get_by_id db k)) \<and>
                 pick_guard ck (\<lambda>_. False) u \<and>
                 (if wk = None \<or> started (the wk) then res = Returned u
                  else res = Raised (RuntimeError msg_not_started)))
         | DONE \<Rightarrow> res = Raised (TaskNotRetryableError (msg_not_retryable DONE)) \<and> db' = db
         | _ \<Rightarrow> res = Returned t \<and> db' = db)"
proof -
  have no_fail: "task_repo_requeue_failed ck Commit tid db = (Returned None, db)"
    if "\<forall>t. get_by_id db tid = Some t \<longrightarrow> status t \<noteq> FAILED"
    using requeue_tx_cases [OF assms(1), of ck Commit tid] that
    by (cases "task_repo_requeue_failed ck Commit tid db") auto
  show ?thesis
  proof (cases "get_by_id db tid")
    case None
    then show ?thesis
      using no_fail assms(2) by (auto simp: task_service_retry_def task_repo_get_by_id_def)
  next
    case (Some t)
    show ?thesis
    proof (cases "status t = FAILED")
      case True
      have "fst (requeue_failed ck tid db) = Some (requeue_set ck t)"
        using Some True by (simp add: requeue_failed_result [OF assms(1)])
      moreover have "task_id (requeue_set ck t) = tid"
        using get_by_id_SomeD [OF Some] by (simp add: requeue_set_def)
      ultimately have sub: "submitted wk tid (requeue_set ck t) (snd (requeue_failed ck tid db)) = (res, db', wk')"
        using assms(2) by (simp add: task_service_retry_def task_repo_requeue_failed_eq [OF assms(1)])
      then have "db' = snd (requeue_failed ck tid db)"
        "if wk = None \<or> started (the wk) then res = Returned (requeue_set ck t)
         else res = Raised (RuntimeError msg_not_started)"
        by (auto simp: submitted_def submit_opt_def worker_submit_def split: option.splits if_splits)
      then show ?thesis
        using Some True requeue_row [OF assms(1) Some True, of ck]
        by (simp add: Let_def requeue_set_def pick_guard_def)
    next
      case False
      then show ?thesis
        using Some no_fail assms(2)
        by (cases "status t") (auto simp: task_service_retry_def task_repo_get_by_id_def)
    qed
  qed
qed

theorem retry_spec_witness:
  "fst (task_service_retry ck0 quiet Commit Commit 13 sample_db None) = Returned busy_task"
proof -
  obtain res db' wk' where r: "task_service_retry ck0 quiet Commit Commit 13 sample_db None = (res, db', wk')"
    by (cases "task_service_retry ck0 quiet Commit Commit 13 sample_db None")
  have "status busy_task = TRANSCRIBING" by (simp add: busy_task_def)
  with retry_spec [OF sample_db_ok r] show ?thesis by (simp add: r)
qed

text \<open>How a retry with commits of other sessions in between can end.\<close>

text \<open>
  The answer of a retry is the state of the task when it answers, whatever other sessions do
  meanwhile: a returned task is queued or being processed and is the row as it stands in the
  database, a refusal names the status the row has, one that cannot be retried, and "does not
  exist" means that there is no row.  Otherwise the worker was not started.
\<close>

lemma retry_answer_current:
  assumes "db_ok M db" and "benign M env"
    and "task_service_retry ck env Commit Commit tid db wk = (res, db', wk')"
  shows "(\<exists>t. res = Returned t \<and> get_by_id db' tid = Some t \<and> status t \<in> set RECOVERABLE_STATUSES) \<or>
    (\<exists>t. res = Raised (TaskNotRetryableError (msg_not_retryable (status t))) \<and>
       get_by_id db' tid = Some t \<and> status t \<in> set TERMINAL_STATUSES) \<or>
    (res = Raised (TaskNotFoundError (msg_task_missing tid)) \<and> get_by_id db' tid = None) \<or>
    (\<exists>ws. wk = Some ws \<and> \<not> started ws \<and> res = Raised (RuntimeError msg_not_started))"
proof -
  have sub: "(\<exists>t. res = Returned t \<and> get_by_id db' tid = Some t \<and> status t \<in> set RECOVERABLE_STATUSES) \<or>
      (\<exists>ws. wk = Some ws \<and> \<not> started ws \<and> res = Raised (RuntimeError msg_not_started))"
    if h: "task_repo_requeue_failed ck Commit tid d = (Returned (Some u), d1)" "db_ok M d"
      "submitted wk (task_id u) u d1 = (res, db', wk')" for d d1 u
  proof -
    obtain t where t: "get_by_id d tid = Some t" "status t = FAILED" "u = requeue_set ck t"
      "d1 = snd (requeue_failed ck tid d)"
      using requeue_tx_cases [OF h(2,1)] by auto
    then have "get_by_id d1 tid = Some u" "status u = PENDING"
      using requeue_row [OF h(2) t(1,2), of ck tid] by (simp_all add: requeue_set_def)
    then show ?thesis
      using h(3)
      by (auto simp: submitted_def submit_opt_def worker_submit_def split: option.splits if_splits)
  qed
  have tx: "\<exists>o1 d1. task_repo_requeue_failed ck Commit tid d = (Returned o1, d1) \<and> (o1 = None \<longrightarrow> d1 = d)"
    if "db_ok M d" for d
    using task_repo_requeue_failed_eq [OF that, of ck tid] requeue_failed_none [OF that, of ck tid] by auto
  obtain o1 db1 where o1: "task_repo_requeue_failed ck Commit tid db = (Returned o1, db1)"
    "o1 = None \<longrightarrow> db1 = db"
    using tx [OF assms(1)] by blast
  show ?thesis
  proof (cases o1)
    case (Some u)
    then show ?thesis
      using sub [OF _ assms(1)] o1 assms(3) by (auto simp: task_service_retry_def)
  next
    case None
    define db2 where "db2 = env 0 db"
    have ok: "db_ok M (env 1 db2)" using assms(1,2) by (simp add: db2_def benign_def)
    obtain o2 db3 where o2: "task_repo_requeue_failed ck Commit tid (env 1 db2) = (Returned o2, db3)"
      using tx [OF ok] by blast
    show ?thesis
    proof (cases o2)
      case (Some u)
      then show ?thesis
        using sub [OF o2 [unfolded Some] ok] o1 o2 None assms(3)
        by (auto simp: task_service_retry_def task_repo_get_by_id_def terminal_iff db2_def Let_def
            split: option.splits if_splits)
    next
      case o2n: None
      show ?thesis
        using o1 o2 o2n None assms(3)
        by (auto simp: task_service_retry_def task_repo_get_by_id_def terminal_iff db2_def Let_def
            split: option.splits if_splits)
    qed
  qed
qed

lemma retry_answer_current_witness:
  "task_service_retry ck0 quiet Commit Commit 13 sample_db None = (Returned busy_task, sample_db, None) \<and>
   status busy_task \<in> set RECOVERABLE_STATUSES"
proof -
  have st: "status busy_task = TRANSCRIBING" by (simp add: busy_task_def)
  have "task_repo_requeue_failed ck0 Commit 13 sample_db = (Returned None, sample_db)"
    using requeue_failed_none [OF sample_db_ok, of ck0 13] st
    by (simp add: task_repo_requeue_failed_eq [OF sample_db_ok] requeue_failed_result [OF sample_db_ok])
  then have r: "task_service_retry ck0 quiet Commit Commit 13 sample_db None = (Returned busy_task, sample_db, None)"
    using st by (simp add: task_service_retry_def task_repo_get_by_id_def)
  from retry_answer_current [OF sample_db_ok benign_quiet r] r show ?thesis by auto
qed

end
