(* ===== verification/File_Util.thy ===== *)
theory File_Util
  imports Sessions Py_Str "HOL-Library.List_Lexorder"
begin

text \<open>
  \<open>api/utils/file.py\<close> and the upload settings of \<open>api/config/settings.py\<close>: the check of
  the extension, the chunked and hashed staging of an upload as a \<open>.part\<close> file, its commit
  by a rename and its removal.

  The file system maps paths to contents.  What the operating system answers is an argument:
  for each blocking call a \<open>tx\<close> that says whether it succeeds, raises or is cancelled, and in
  the last two cases whether it had its effect all the same (a cancelled \<open>to_thread\<close> does not
  stop the thread).  Parameters that stand for library tables: \<open>uni\<close>, Unicode's lower case of
  a text that is not ASCII; \<open>sha256\<close>, the hex digest of the bytes; \<open>pylist\<close>, the \<open>str\<close> of a
  list of texts.
\<close>

section \<open>Extensions\<close>

definition ascii_lower :: "nat \<Rightarrow> nat" where
  "ascii_lower c = (if 65 \<le> c \<and> c \<le> 90 then c + 32 else c)"

definition py_lower :: "(pstr \<Rightarrow> pstr) \<Rightarrow> pstr \<Rightarrow> pstr" where
  "py_lower uni s = (if list_all (\<lambda>c. c < 128) s then map ascii_lower s else uni s)"

text \<open>\<open>s.split(c)\<close> for a one-character separator.\<close>

fun split_on :: "nat \<Rightarrow> pstr \<Rightarrow> pstr list" where
  "split_on c [] = [[]]"
| "split_on c (x # xs) =
     (if x = c then [] # split_on c xs
      else case split_on c xs of [] \<Rightarrow> [[x]] | w # ws \<Rightarrow> (x # w) # ws)"

text \<open>\<open>PurePosixPath.name\<close>: the last component, where empty ones and \<open>.\<close> do not count.\<close>

definition path_name :: "pstr \<Rightarrow> pstr" where
  "path_name s =
     (let parts = filter (\<lambda>p. p \<noteq> [] \<and> p \<noteq> asc ''.'') (split_on 47 s)
      in if parts = [] then [] else last parts)"

text \<open>
  \<open>str(Path(s))\<close>: the root (two slashes stay two, more are one), then the components that
  count, or \<open>.\<close> if there is nothing; and the text of \<open>dir / name\<close> for a path \<open>dir\<close> and a
  single component.
\<close>

definition path_str :: "pstr \<Rightarrow> pstr" where
  "path_str s =
     (let root = (if take 1 s \<noteq> [47] then []
                  else if take 2 s = [47, 47] \<and> take 3 s \<noteq> [47, 47, 47] then [47, 47] else [47]);
          p = root @ concat (map (\<lambda>x. x @ [47]) (filter (\<lambda>p. p \<noteq> [] \<and> p \<noteq> asc ''.'') (split_on 47 s)))
      in if p = [] then asc ''.'' else if p = root then root else butlast p)"

definition path_child :: "pstr \<Rightarrow> pstr \<Rightarrow> pstr" where
  "path_child dir name =
     (if dir = asc ''.'' then name else if dir = [47] \<or> dir = [47, 47] then dir @ name
      else dir @ asc ''/'' @ name)"

text \<open>
  \<open>PurePath.suffix\<close>: from the last dot on, unless it is the first or the last character of
  the name.
\<close>

definition path_suffix :: "pstr \<Rightarrow> pstr" where
  "path_suffix s =
     (let name = path_name s; ext = rev (takeWhile (\<lambda>c. c \<noteq> 46) (rev name))
      in if 46 \<in> set name \<and> ext \<noteq> [] \<and> length ext + 1 < length name then 46 # ext else [])"

definition ext_of :: "(pstr \<Rightarrow> pstr) \<Rightarrow> pstr \<Rightarrow> pstr" where
  "ext_of uni filename = py_lower uni (path_suffix filename)"

text \<open>"only these audio extensions ..., got: name (or (empty))".\<close>

definition msg_bad_ext :: "pstr \<Rightarrow> pstr \<Rightarrow> pstr" where
  [msg_defs]: "msg_bad_ext exts filename =
     [20165, 25903, 25345, 38899, 39057, 25193, 23637, 21517] @ asc '' '' @ exts @
     [65292, 25910, 21040] @ asc '': '' @ (if filename = [] then [40, 31354, 41] else filename)"

definition validate_extension ::
  "(pstr \<Rightarrow> pstr) \<Rightarrow> (pstr list \<Rightarrow> pstr) \<Rightarrow> pstr \<Rightarrow> pstr list \<Rightarrow> exn + pstr" where
  "validate_extension uni pylist filename allowed =
     (let ext = ext_of uni filename
      in if filename = [] \<or> ext \<notin> set allowed
         then Inl (InvalidUploadError (msg_bad_ext (pylist (sort (remdups allowed))) filename))
         else Inr ext)"

text \<open>The settings: \<open>allowed_ext_set\<close> (as a list) and \<open>max_file_size_bytes\<close>.\<close>

definition allowed_ext_set :: "(pstr \<Rightarrow> pstr) \<Rightarrow> pstr \<Rightarrow> pstr list" where
  "allowed_ext_set uni s =
     map (\<lambda>e. asc ''.'' @ lstrip_by (\<lambda>c. c = 46) (py_lower uni (strip e)))
       (filter (\<lambda>e. strip e \<noteq> []) (split_on 44 s))"

definition max_file_size_bytes :: "int \<Rightarrow> int" where
  "max_file_size_bytes mb = mb * 1024 * 1024"

section \<open>Files\<close>

type_synonym bytes = "nat list"
type_synonym fs = "pstr \<Rightarrow> bytes option"

text \<open>\<open>remove_file\<close>: an \<open>OSError\<close> other than a missing file is swallowed, the file stays.\<close>

definition remove_file :: "(pstr \<Rightarrow> bool) \<Rightarrow> pstr \<Rightarrow> fs \<Rightarrow> fs" where
  "remove_file unlink_ok path fs = (if unlink_ok path then fs(path := None) else fs)"

text \<open>\<open>_ChunkSink\<close>: the open file, with all it has been given so far.\<close>

record chunk_sink =
  sink_path :: pstr
  sink_data :: bytes

definition sink_size :: "chunk_sink \<Rightarrow> int" where
  "sink_size s = int (length (sink_data s))"

definition sink_write :: "bytes \<Rightarrow> chunk_sink \<Rightarrow> fs \<Rightarrow> chunk_sink \<times> fs" where
  "sink_write chunk s fs =
     (let s' = s\<lparr>sink_data := sink_data s @ chunk\<rparr> in (s', fs(sink_path s \<mapsto> sink_data s')))"

definition sink_finalize :: "(bytes \<Rightarrow> pstr) \<Rightarrow> chunk_sink \<Rightarrow> pstr" where
  "sink_finalize sha256 s = sha256 (sink_data s)"

definition sink_abort :: "(pstr \<Rightarrow> bool) \<Rightarrow> chunk_sink \<Rightarrow> fs \<Rightarrow> fs" where
  "sink_abort unlink_ok s fs = remove_file unlink_ok (sink_path s) fs"

section \<open>Staging\<close>

record staged_upload =
  tmp_path :: pstr
  final_path :: pstr
  staged_sha :: pstr
  staged_size :: int

text \<open>What the environment answers while a file is staged.\<close>

record staging_io =
  mkdir_res :: "exn option"
  open_res :: tx
  read_res :: "nat \<Rightarrow> bytes tx_result"
  write_res :: "nat \<Rightarrow> tx"
  close_res :: tx
  unlink_ok :: "pstr \<Rightarrow> bool"

text \<open>"file larger than n MB" and "file is empty".\<close>

definition msg_too_large :: "int \<Rightarrow> pstr" where
  [msg_defs]: "msg_too_large mb =
     [25991, 20214, 22823, 23567, 19981, 33021, 36229, 36807] @ int_str mb @ asc ''MB''"

definition msg_empty_file :: pstr where
  [msg_defs]: "msg_empty_file = [25991, 20214, 20869, 23481, 20026, 31354]"

text \<open>
  The loop: read a chunk, stop at the end of the data, refuse what would exceed the limit,
  write.  It ends because every further round writes at least one byte below the limit.
\<close>

function stage_loop ::
  "staging_io \<Rightarrow> int \<Rightarrow> int \<Rightarrow> nat \<Rightarrow> chunk_sink \<times> fs \<Rightarrow> unit tx_result \<times> chunk_sink \<times> fs" where
  "stage_loop io maxb mb i (s, fs) =
     (case read_res io i of
        Raised e \<Rightarrow> (Raised e, s, fs)
      | TxCancelled \<Rightarrow> (TxCancelled, s, fs)
      | Returned chunk \<Rightarrow>
          (if chunk = [] then (Returned (), s, fs)
           else if sink_size s + int (length chunk) > maxb
             then (Raised (InvalidUploadError (msg_too_large mb)), s, fs)
           else (case write_res io i of
                   Commit \<Rightarrow> stage_loop io maxb mb (i + 1) (sink_write chunk s fs)
                 | Abort applied e \<Rightarrow>
                     (case (if applied then sink_write chunk s fs else (s, fs)) of
                        (s', fs') \<Rightarrow> (Raised e, s', fs'))
                 | CancelTx applied \<Rightarrow>
                     (case (if applied then sink_write chunk s fs else (s, fs)) of
                        (s', fs') \<Rightarrow> (TxCancelled, s', fs')))))"
  by pat_completeness auto
termination
  by (relation "measure (\<lambda>(io, maxb, mb, i, s, fs). nat (maxb + 1 - sink_size s))")
    (auto simp: sink_write_def sink_size_def Let_def)

declare stage_loop.simps [simp del]

definition stage_upload ::
  "(bytes \<Rightarrow> pstr) \<Rightarrow> staging_io \<Rightarrow> uuid \<Rightarrow> pstr \<Rightarrow> pstr \<Rightarrow> int \<Rightarrow> int \<Rightarrow> fs \<Rightarrow>
     staged_upload tx_result \<times> fs" where
  "stage_upload sha256 io u ext dir maxb mb fs =
     (case mkdir_res io of
        Some e \<Rightarrow> (Raised e, fs)
      | None \<Rightarrow>
          (let final = path_child dir (uuid_hex u @ ext); tmp = final @ asc ''.part'';
               sink = \<lparr>sink_path = tmp, sink_data = []\<rparr>
           in case open_res io of
                Abort applied e \<Rightarrow> (Raised e, if applied then fs(tmp \<mapsto> []) else fs)
              | CancelTx applied \<Rightarrow> (TxCancelled, if applied then fs(tmp \<mapsto> []) else fs)
              | Commit \<Rightarrow>
                  (case stage_loop io maxb mb 0 (sink, fs(tmp \<mapsto> [])) of
                     (Raised e, s, fs1) \<Rightarrow> (Raised e, sink_abort (unlink_ok io) s fs1)
                   | (TxCancelled, s, fs1) \<Rightarrow> (TxCancelled, sink_abort (unlink_ok io) s fs1)
                   | (Returned _, s, fs1) \<Rightarrow>
                       (if sink_size s = 0
                        then (Raised (InvalidUploadError msg_empty_file), sink_abort (unlink_ok io) s fs1)
                        else (case close_res io of
                                Commit \<Rightarrow>
                                  (Returned \<lparr>tmp_path = tmp, final_path = final,
                                     staged_sha = sink_finalize sha256 s, staged_size = sink_size s\<rparr>, fs1)
                              | Abort _ e \<Rightarrow> (Raised e, sink_abort (unlink_ok io) s fs1)
                              | CancelTx _ \<Rightarrow> (TxCancelled, sink_abort (unlink_ok io) s fs1))))))"

text \<open>\<open>commit\<close>: \<open>os.replace\<close>, all or nothing; \<open>discard\<close> removes the \<open>.part\<close> file.\<close>

definition replace_file :: "pstr \<Rightarrow> pstr \<Rightarrow> fs \<Rightarrow> fs" where
  "replace_file src dst fs = fs(src := None, dst := fs src)"

definition staged_commit :: "tx \<Rightarrow> staged_upload \<Rightarrow> fs \<Rightarrow> pstr tx_result \<times> fs" where
  "staged_commit x st fs =
     (let fs' = replace_file (tmp_path st) (final_path st) fs
      in case x of
           Commit \<Rightarrow> (Returned (final_path st), fs')
         | Abort applied e \<Rightarrow> (Raised e, if applied then fs' else fs)
         | CancelTx applied \<Rightarrow> (TxCancelled, if applied then fs' else fs))"

definition staged_discard :: "(pstr \<Rightarrow> bool) \<Rightarrow> staged_upload \<Rightarrow> fs \<Rightarrow> fs" where
  "staged_discard unl st fs = remove_file unl (tmp_path st) fs"

end
