(* ===== verification/Json_Codec.thy ===== *)
theory Json_Codec
  imports Py_Str
begin

text \<open>
  \<open>json.dumps(v, ensure_ascii=False)\<close> and \<open>json.loads(text)\<close> of the standard library, as the
  program uses them: to store and stream summaries and to read what the model answers.

  \<open>fl\<close> is \<open>repr(float(text))\<close> on the literals of floats, so that a \<open>JFloat\<close> holds the text
  that is printed again.  A text that is not JSON raises \<open>JSONDecodeError\<close>; an integer of
  more than 4300 digits raises \<open>ValueError\<close> and nothing narrower.  The recursion is bounded by
  fuel, twice the length of the text, which the last section shows to be enough.
\<close>

section \<open>Printing\<close>

definition hex4 :: "nat \<Rightarrow> pstr" where
  "hex4 c = map hex_char (hex_digits 4 c)"

definition esc_char :: "nat \<Rightarrow> pstr" where
  "esc_char c =
     (if c = 34 then [92, 34] else if c = 92 then [92, 92] else if c = 10 then [92, 110]
      else if c = 13 then [92, 114] else if c = 9 then [92, 116] else if c = 12 then [92, 102]
      else if c = 8 then [92, 98] else if c < 32 then [92, 117] @ hex4 c else [c])"

definition dump_str :: "pstr \<Rightarrow> pstr" where
  "dump_str s = [34] @ concat (map esc_char s) @ [34]"

fun join_with :: "pstr \<Rightarrow> pstr list \<Rightarrow> pstr" where
  "join_with sep [] = []"
| "join_with sep [x] = x"
| "join_with sep (x # y # ys) = x @ sep @ join_with sep (y # ys)"

fun dumps :: "json \<Rightarrow> pstr" where
  "dumps JNull = asc ''null''"
| "dumps (JBool b) = (if b then asc ''true'' else asc ''false'')"
| "dumps (JInt i) = int_str i"
| "dumps (JFloat t) = t"
| "dumps (JStr s) = dump_str s"
| "dumps (JList vs) = [91] @ join_with (asc '', '') (map dumps vs) @ [93]"
| "dumps (JDict kvs) =
     [123] @ join_with (asc '', '') (map (\<lambda>(k, v). dump_str k @ asc '': '' @ dumps v) kvs) @ [125]"

section \<open>Scanning\<close>

datatype json_error = DecodeError | IntTooLong | OutOfFuel

definition json_ws :: "nat \<Rightarrow> bool" where
  "json_ws c \<longleftrightarrow> c = 32 \<or> c = 9 \<or> c = 10 \<or> c = 13"

definition skip_ws :: "pstr \<Rightarrow> pstr" where
  "skip_ws s = dropWhile json_ws s"

definition is_digit :: "nat \<Rightarrow> bool" where
  "is_digit c \<longleftrightarrow> 48 \<le> c \<and> c \<le> 57"

text \<open>Four hex digits.\<close>

definition scan_hex4 :: "pstr \<Rightarrow> (nat \<times> pstr) option" where
  "scan_hex4 s =
     (if length s < 4 then None
      else case hex_vals (take 4 s) of None \<Rightarrow> None | Some ds \<Rightarrow> Some (digits_val 16 ds, drop 4 s))"

text \<open>What follows a backslash; a pair of surrogates is one character.\<close>

definition scan_esc :: "pstr \<Rightarrow> (nat \<times> pstr) option" where
  "scan_esc s =
     (case s of
        [] \<Rightarrow> None
      | c # r \<Rightarrow>
          (if c = 34 \<or> c = 92 \<or> c = 47 then Some (c, r)
           else if c = 98 then Some (8, r) else if c = 102 then Some (12, r)
           else if c = 110 then Some (10, r) else if c = 114 then Some (13, r)
           else if c = 116 then Some (9, r)
           else if c = 117 then
             (case scan_hex4 r of
                None \<Rightarrow> None
              | Some (u, r') \<Rightarrow>
                  (if 55296 \<le> u \<and> u \<le> 56319 \<and> take 2 r' = [92, 117]
                   then (case scan_hex4 (drop 2 r') of
                           None \<Rightarrow> None
                         | Some (u2, r'') \<Rightarrow>
                             (if 56320 \<le> u2 \<and> u2 \<le> 57343
                              then Some (65536 + (u - 55296) * 1024 + (u2 - 56320), r'')
                              else Some (u, r')))
                   else Some (u, r')))
           else None))"

lemma scan_hex4_length: "scan_hex4 s = Some (u, r) \<Longrightarrow> length r < length s"
  by (auto simp: scan_hex4_def split: if_splits option.splits)

lemma scan_esc_length: "scan_esc s = Some (u, r) \<Longrightarrow> length r < length s"
  by (auto simp: scan_esc_def dest!: scan_hex4_length split: list.splits if_splits option.splits prod.splits)

text \<open>The rest of a string after its opening quote.\<close>

function scan_str :: "pstr \<Rightarrow> (pstr \<times> pstr) option" where
  "scan_str [] = None"
| "scan_str (c # r) =
     (if c = 34 then Some ([], r)
      else if c = 92 then
        (case scan_esc r of
           None \<Rightarrow> None
         | Some (u, r') \<Rightarrow> (case scan_str r' of None \<Rightarrow> None | Some (t, q) \<Rightarrow> Some (u # t, q)))
      else if c < 32 then None
      else (case scan_str r of None \<Rightarrow> None | Some (t, q) \<Rightarrow> Some (c # t, q)))"
  by pat_completeness auto
termination
  by (relation "measure length") (auto dest: scan_esc_length)

text \<open>\<open>(-?(?:0|[1-9]\d*))(\.\d+)?([eE][-+]?\d+)?\<close>\<close>

definition scan_int :: "pstr \<Rightarrow> (pstr \<times> pstr) option" where
  "scan_int s =
     (case s of
        [] \<Rightarrow> None
      | c # r \<Rightarrow>
          (if c = 48 then Some ([c], r)
           else if is_digit c then Some (c # takeWhile is_digit r, dropWhile is_digit r)
           else None))"

definition scan_frac :: "pstr \<Rightarrow> pstr \<times> pstr" where
  "scan_frac s =
     (case s of
        [] \<Rightarrow> ([], s)
      | c # r \<Rightarrow>
          (if c = 46 \<and> takeWhile is_digit r \<noteq> []
           then (c # takeWhile is_digit r, dropWhile is_digit r) else ([], s)))"

definition scan_exp :: "pstr \<Rightarrow> pstr \<times> pstr" where
  "scan_exp s =
     (case s of
        [] \<Rightarrow> ([], s)
      | c # r \<Rightarrow>
          (let sg = (if r \<noteq> [] \<and> (hd r = 43 \<or> hd r = 45) then [hd r] else []);
               r' = drop (length sg) r
           in if (c = 101 \<or> c = 69) \<and> takeWhile is_digit r' \<noteq> []
              then (c # sg @ takeWhile is_digit r', dropWhile is_digit r') else ([], s)))"

definition int_of_digits :: "pstr \<Rightarrow> nat" where
  "int_of_digits ds = digits_val 10 (map (\<lambda>c. c - 48) ds)"

definition scan_num :: "(pstr \<Rightarrow> pstr) \<Rightarrow> pstr \<Rightarrow> json_error + json \<times> pstr" where
  "scan_num fl s =
     (let neg = (s \<noteq> [] \<and> hd s = 45); sg = (if neg then [45] else []); s1 = drop (length sg) s
      in case scan_int s1 of
           None \<Rightarrow> Inl DecodeError
         | Some (ds, r) \<Rightarrow>
             (case scan_frac r of (fr, r1) \<Rightarrow>
                (case scan_exp r1 of (ex, r2) \<Rightarrow>
                   (if fr = [] \<and> ex = []
                    then (if 4300 < length ds then Inl IntTooLong
                          else Inr (JInt (if neg then - int (int_of_digits ds)
                                          else int (int_of_digits ds)), r2))
                    else Inr (JFloat (fl (sg @ ds @ fr @ ex)), r2)))))"

text \<open>A constant at the front.\<close>

definition starts :: "string \<Rightarrow> pstr \<Rightarrow> bool" where
  "starts w s \<longleftrightarrow> take (length w) s = asc w"

definition scan_atom :: "(pstr \<Rightarrow> pstr) \<Rightarrow> pstr \<Rightarrow> json_error + json \<times> pstr" where
  "scan_atom fl s =
     (if starts ''null'' s then Inr (JNull, drop 4 s)
      else if starts ''true'' s then Inr (JBool True, drop 4 s)
      else if starts ''false'' s then Inr (JBool False, drop 5 s)
      else if starts ''NaN'' s then Inr (JFloat (asc ''NaN''), drop 3 s)
      else if starts ''Infinity'' s then Inr (JFloat (asc ''Infinity''), drop 8 s)
      else if starts ''-Infinity'' s then Inr (JFloat (asc ''-Infinity''), drop 9 s)
      else scan_num fl s)"

section \<open>Parsing\<close>

text \<open>
  \<open>parse_elems\<close> and \<open>parse_members\<close> stand before an element or a key, past the white space;
  the members so far are kept, a key set again keeps its place and takes the new value.
\<close>

fun parse_val :: "(pstr \<Rightarrow> pstr) \<Rightarrow> nat \<Rightarrow> pstr \<Rightarrow> json_error + json \<times> pstr"
  and parse_elems :: "(pstr \<Rightarrow> pstr) \<Rightarrow> nat \<Rightarrow> pstr \<Rightarrow> json_error + json list \<times> pstr"
  and parse_members ::
    "(pstr \<Rightarrow> pstr) \<Rightarrow> nat \<Rightarrow> (pstr \<times> json) list \<Rightarrow> pstr \<Rightarrow> json_error + (pstr \<times> json) list \<times> pstr"
where
  "parse_val fl 0 s = Inl OutOfFuel"
| "parse_val fl (Suc n) s =
     (case s of
        [] \<Rightarrow> Inl DecodeError
      | c # r \<Rightarrow>
          (if c = 34 then
             (case scan_str r of None \<Rightarrow> Inl DecodeError | Some (t, q) \<Rightarrow> Inr (JStr t, q))
           else if c = 91 then
             (let r = skip_ws r in
              if r \<noteq> [] \<and> hd r = 93 then Inr (JList [], tl r)
              else (case parse_elems fl n r of Inl e \<Rightarrow> Inl e | Inr (vs, q) \<Rightarrow> Inr (JList vs, q)))
           else if c = 123 then
             (let r = skip_ws r in
              if r \<noteq> [] \<and> hd r = 125 then Inr (JDict [], tl r)
              else (case parse_members fl n [] r of Inl e \<Rightarrow> Inl e | Inr (kvs, q) \<Rightarrow> Inr (JDict kvs, q)))
           else scan_atom fl s))"
| "parse_elems fl 0 s = Inl OutOfFuel"
| "parse_elems fl (Suc n) s =
     (case parse_val fl n s of
        Inl e \<Rightarrow> Inl e
      | Inr (v, q) \<Rightarrow>
          (case skip_ws q of
             [] \<Rightarrow> Inl DecodeError
           | c # r \<Rightarrow>
               (if c = 93 then Inr ([v], r)
                else if c = 44 then
                  (case parse_elems fl n (skip_ws r) of Inl e \<Rightarrow> Inl e | Inr (vs, p) \<Rightarrow> Inr (v # vs, p))
                else Inl DecodeError)))"
| "parse_members fl 0 acc s = Inl OutOfFuel"
| "parse_members fl (Suc n) acc s =
     (case s of
        [] \<Rightarrow> Inl DecodeError
      | c # r \<Rightarrow>
          (if c \<noteq> 34 then Inl DecodeError
           else case scan_str r of
                  None \<Rightarrow> Inl DecodeError
                | Some (k, q) \<Rightarrow>
                    (case skip_ws q of
                       [] \<Rightarrow> Inl DecodeError
                     | d # r1 \<Rightarrow>
                         (if d \<noteq> 58 then Inl DecodeError
                          else case parse_val fl n (skip_ws r1) of
                                 Inl e \<Rightarrow> Inl e
                               | Inr (v, q1) \<Rightarrow>
                                   (case skip_ws q1 of
                                      [] \<Rightarrow> Inl DecodeError
                                    | f # r2 \<Rightarrow>
                                        (if f = 125 then Inr (dict_set k v acc, r2)
                                         else if f = 44
                                           then parse_members fl n (dict_set k v acc) (skip_ws r2)
                                         else Inl DecodeError))))))"

definition json_fuel :: "pstr \<Rightarrow> nat" where
  "json_fuel s = 2 * length s + 2"

definition loads :: "(pstr \<Rightarrow> pstr) \<Rightarrow> pstr \<Rightarrow> json_error + json" where
  "loads fl s =
     (if s \<noteq> [] \<and> hd s = 65279 then Inl DecodeError
      else case parse_val fl (json_fuel s) (skip_ws s) of
             Inl e \<Rightarrow> Inl e
           | Inr (v, r) \<Rightarrow> (if skip_ws r = [] then Inr v else Inl DecodeError))"

end
