(* ===== verification/Llm.thy ===== *)
theory Llm
  imports Json_Codec
begin

text \<open>
  \<open>api/core/llm/llm.py\<close> and \<open>api/service/summarizer.py\<close>.  The OpenAI client and pydantic
  are not part of the repository, so what they do is an argument: \<open>ans k rq\<close> is what the
  endpoint answers to the request \<open>rq\<close> of the k-th attempt (a response or an exception),
  \<open>validate\<close> is \<open>SummaryResult.model_validate\<close> (the fields, or the text of its
  \<open>ValidationError\<close>), \<open>err_str\<close> the text of an exception and \<open>float_of\<close> Python's \<open>float\<close>
  on a header.  Delays are in microseconds; what is slept is part of the result.
\<close>

section \<open>Requests, responses and errors\<close>

record llm_cfg =
  model :: pstr
  max_tokens :: int
  llm_max_retries :: nat
  base_backoff :: time

record llm_request =
  rq_messages :: "(pstr \<times> pstr) list"
  rq_max_tokens :: int
  rq_json_object :: bool
  rq_stream :: bool

record llm_choice =
  finish_reason :: "pstr option"
  content :: "pstr option"

type_synonym llm_response = "llm_choice list"

datatype parse_fault = EmptyChoices | Truncated pstr | EmptyContent | NoJson pstr

datatype llm_error =
    LLMParseError parse_fault
  | ValidationError pstr
  | RateLimitError "pstr option"
  | APIConnectionError pstr
  | APIStatusError int pstr
  | UnknownError pstr

text \<open>The HTTP status of an \<open>APIStatusError\<close>, of which \<open>RateLimitError\<close> is the 429.\<close>

definition status_code :: "llm_error \<Rightarrow> int option" where
  "status_code e = (case e of RateLimitError _ \<Rightarrow> Some 429 | APIStatusError c _ \<Rightarrow> Some c | _ \<Rightarrow> None)"

definition is_retriable_api_status :: "int \<Rightarrow> bool" where
  "is_retriable_api_status c \<longleftrightarrow> 500 \<le> c \<or> c = 429"

record summary_result =
  sr_summary :: pstr
  sr_key_points :: "pstr list"
  sr_todos :: "pstr list"

definition model_dump :: "summary_result \<Rightarrow> json" where
  "model_dump r = JDict
     [(asc ''summary'', JStr (sr_summary r)),
      (asc ''key_points'', JList (map JStr (sr_key_points r))),
      (asc ''todos'', JList (map JStr (sr_todos r)))]"

section \<open>Prompts\<close>

definition system_prompt :: pstr where
  [msg_defs]: "system_prompt =
     [20320, 26159, 19968, 20010, 19987, 19994, 30340, 20250, 35758] @ asc ''/'' @
     [24405, 38899, 25688, 35201, 21161, 25163, 12290, 20320, 24517, 39035, 20197, 32431] @
     asc '' JSON '' @
     [26684, 24335, 36820, 22238, 32467, 26524, 65292, 19981, 35201, 21253, 21547, 20219, 20309,
      20854, 20182, 25991, 23383, 65288, 22914] @ asc '' Markdown '' @
     [20195, 30721, 22359, 65289, 12290] @ asc ''JSON '' @
     [32467, 26500, 24517, 39035, 20005, 26684, 36981, 24490, 65306] @
     asc ''{\"summary\": \"'' @ [19968, 21477, 35805, 25688, 35201] @
     asc ''\", \"key_points\": [\"'' @ [35201, 28857] @ asc ''1\", \"'' @ [35201, 28857] @
     asc ''2\"], \"todos\": [\"'' @ [24453, 21150] @ asc ''1\"]}''"

definition user_prompt :: "pstr \<Rightarrow> pstr" where
  [msg_defs]: "user_prompt transcript =
     [35831, 23545, 20197, 19979, 24405, 38899, 36716, 20889, 25991, 26412, 36827, 34892, 25688,
      35201, 21644, 24453, 21150, 25552, 21462, 65306, 10, 10] @ transcript"

definition llm_messages :: "pstr \<Rightarrow> (pstr \<times> pstr) list" where
  "llm_messages transcript = [(asc ''system'', system_prompt), (asc ''user'', user_prompt transcript)]"

section \<open>Extracting the JSON object\<close>

text \<open>The index of the first occurrence of a text.\<close>

fun find_sub :: "pstr \<Rightarrow> pstr \<Rightarrow> nat option" where
  "find_sub p [] = (if p = [] then Some 0 else None)"
| "find_sub p (x # xs) =
     (if take (length p) (x # xs) = p then Some 0
      else case find_sub p xs of None \<Rightarrow> None | Some i \<Rightarrow> Some (Suc i))"

definition fence :: pstr where
  "fence = [96, 96, 96]"

text \<open>
  Group 1 of the first match of a fenced block, optionally marked \<open>json\<close>, without the white
  space at both ends: the text up to the next fence, since the group is lazy.
\<close>

definition fenced_block :: "pstr \<Rightarrow> pstr option" where
  "fenced_block s =
     (case find_sub fence s of
        None \<Rightarrow> None
      | Some i \<Rightarrow>
          (let r = drop (i + 3) s;
               r1 = (if starts ''json'' r then drop 4 r else r);
               r2 = lstrip_by is_space r1
           in case find_sub fence r2 of
                None \<Rightarrow> None
              | Some j \<Rightarrow> Some (rstrip_by is_space (take j r2))))"

text \<open>From the first opening brace to the last closing one after it.\<close>

definition braced_block :: "pstr \<Rightarrow> pstr option" where
  "braced_block s =
     (let t = dropWhile (\<lambda>c. c \<noteq> 123) s
      in if 125 \<in> set t then Some (rev (dropWhile (\<lambda>c. c \<noteq> 125) (rev t))) else None)"

text \<open>\<open>json.loads\<close> in one layer: an object, the next layer, or the \<open>ValueError\<close> of an over-long
  integer, which is not caught.\<close>

definition parse_layer ::
  "(pstr \<Rightarrow> pstr) \<Rightarrow> pstr option \<Rightarrow> (llm_error + (pstr \<times> json) list) \<Rightarrow> llm_error + (pstr \<times> json) list" where
  "parse_layer fl t other =
     (case t of
        None \<Rightarrow> other
      | Some s \<Rightarrow>
          (case loads fl s of
             Inr (JDict d) \<Rightarrow> Inr d
           | Inl IntTooLong \<Rightarrow> Inl (UnknownError (asc ''Exceeds the limit (4300 digits) for integer string conversion''))
           | _ \<Rightarrow> other))"

definition parse_json_safely :: "(pstr \<Rightarrow> pstr) \<Rightarrow> pstr \<Rightarrow> llm_error + (pstr \<times> json) list" where
  "parse_json_safely fl raw =
     parse_layer fl (Some raw)
       (parse_layer fl (fenced_block raw)
         (parse_layer fl (braced_block raw)
           (Inl (LLMParseError (NoJson (take 200 raw))))))"

section \<open>One call\<close>

type_synonym answers = "nat \<Rightarrow> llm_request \<Rightarrow> llm_error + llm_response"

definition check_response :: "llm_response \<Rightarrow> llm_error + pstr" where
  "check_response rs =
     (case rs of
        [] \<Rightarrow> Inl (LLMParseError EmptyChoices)
      | c # _ \<Rightarrow>
          (if finish_reason c = Some (asc ''length'')
           then Inl (LLMParseError (Truncated (take 200 (case content c of None \<Rightarrow> [] | Some t \<Rightarrow> t))))
           else case content c of
                  None \<Rightarrow> Inl (LLMParseError EmptyContent)
                | Some t \<Rightarrow> (if strip t = [] then Inl (LLMParseError EmptyContent) else Inr (strip t))))"

definition llm_request_of :: "llm_cfg \<Rightarrow> pstr \<Rightarrow> bool \<Rightarrow> bool \<Rightarrow> llm_request" where
  "llm_request_of cfg transcript js st =
     \<lparr>rq_messages = llm_messages transcript, rq_max_tokens = max_tokens cfg,
      rq_json_object = js, rq_stream = st\<rparr>"

text \<open>The requests made, and the content or an exception.\<close>

definition call_llm ::
  "llm_cfg \<Rightarrow> answers \<Rightarrow> nat \<Rightarrow> pstr \<Rightarrow> (llm_error + pstr) \<times> llm_request list" where
  "call_llm cfg ans k transcript =
     (let rq = llm_request_of cfg transcript True False;
          plain = llm_request_of cfg transcript False False;
          (res, made) =
            (case ans k rq of
               Inr rs \<Rightarrow> (Inr rs, [rq])
             | Inl e \<Rightarrow> (if status_code e = Some 400 then (ans k plain, [rq, plain]) else (Inl e, [rq])))
      in (case res of Inl e \<Rightarrow> Inl e | Inr rs \<Rightarrow> check_response rs, made))"

section \<open>Retrying\<close>

definition backoff_delay :: "llm_cfg \<Rightarrow> nat \<Rightarrow> time" where
  "backoff_delay cfg attempt = base_backoff cfg * 2 ^ (attempt - 1)"

definition rate_limit_delay ::
  "(pstr \<Rightarrow> time option) \<Rightarrow> llm_cfg \<Rightarrow> pstr option \<Rightarrow> nat \<Rightarrow> time" where
  "rate_limit_delay float_of cfg header attempt =
     (case header of
        None \<Rightarrow> backoff_delay cfg attempt
      | Some raw \<Rightarrow>
          (if raw = [] then backoff_delay cfg attempt
           else case float_of raw of None \<Rightarrow> backoff_delay cfg attempt | Some d \<Rightarrow> d))"

text \<open>One attempt: the call, the extraction, the validation.\<close>

definition llm_attempt ::
  "(pstr \<Rightarrow> pstr) \<Rightarrow> ((pstr \<times> json) list \<Rightarrow> pstr + summary_result) \<Rightarrow> llm_cfg \<Rightarrow> answers \<Rightarrow> nat \<Rightarrow> pstr \<Rightarrow>
     (llm_error + summary_result) \<times> llm_request list" where
  "llm_attempt fl validate cfg ans k transcript =
     (case call_llm cfg ans k transcript of
        (Inl e, made) \<Rightarrow> (Inl e, made)
      | (Inr raw, made) \<Rightarrow>
          (case parse_json_safely fl raw of
             Inl e \<Rightarrow> (Inl e, made)
           | Inr d \<Rightarrow> (case validate d of Inl m \<Rightarrow> (Inl (ValidationError m), made) | Inr r \<Rightarrow> (Inr r, made))))"

text \<open>The pause after a failed attempt, or \<open>None\<close> for a failure that is not retried.\<close>

definition retry_delay ::
  "(pstr \<Rightarrow> time option) \<Rightarrow> llm_cfg \<Rightarrow> llm_error \<Rightarrow> nat \<Rightarrow> time option" where
  "retry_delay float_of cfg e k =
     (case e of
        LLMParseError _ \<Rightarrow> Some (backoff_delay cfg k)
      | ValidationError _ \<Rightarrow> Some (backoff_delay cfg k)
      | RateLimitError h \<Rightarrow> Some (rate_limit_delay float_of cfg h k)
      | APIConnectionError _ \<Rightarrow> Some (backoff_delay cfg k)
      | APIStatusError c _ \<Rightarrow> (if is_retriable_api_status c then Some (backoff_delay cfg k) else None)
      | UnknownError _ \<Rightarrow> None)"

definition msg_failed :: "pstr \<Rightarrow> pstr" where
  [msg_defs]: "msg_failed t = asc ''LLM summarize failed: '' @ t"

definition msg_exhausted :: "nat \<Rightarrow> pstr \<Rightarrow> pstr" where
  [msg_defs]: "msg_exhausted n t = asc ''LLM summarize failed after '' @ nat_str n @ asc '' retries: '' @ t"

record llm_trace =
  tr_requests :: "llm_request list"
  tr_sleeps :: "time list"

text \<open>\<open>for attempt in range(1, max_retries + 1)\<close>; \<open>left\<close> attempts remain.\<close>

fun llm_loop ::
  "(pstr \<Rightarrow> pstr) \<Rightarrow> (pstr \<Rightarrow> time option) \<Rightarrow> (llm_error \<Rightarrow> pstr) \<Rightarrow>
   ((pstr \<times> json) list \<Rightarrow> pstr + summary_result) \<Rightarrow> llm_cfg \<Rightarrow> answers \<Rightarrow> pstr \<Rightarrow>
   nat \<Rightarrow> nat \<Rightarrow> llm_error option \<Rightarrow> llm_trace \<Rightarrow> (exn + summary_result) \<times> llm_trace" where
  "llm_loop fl float_of err_str validate cfg ans transcript k 0 prev tr =
     (Inl (RuntimeError (msg_exhausted (llm_max_retries cfg)
        (case prev of None \<Rightarrow> asc ''None'' | Some e \<Rightarrow> err_str e))), tr)"
| "llm_loop fl float_of err_str validate cfg ans transcript k (Suc left) prev tr =
     (case llm_attempt fl validate cfg ans k transcript of
        (Inr r, made) \<Rightarrow> (Inr r, tr\<lparr>tr_requests := tr_requests tr @ made\<rparr>)
      | (Inl e, made) \<Rightarrow>
          (case retry_delay float_of cfg e k of
             None \<Rightarrow> (Inl (RuntimeError (msg_failed (err_str e))), tr\<lparr>tr_requests := tr_requests tr @ made\<rparr>)
           | Some d \<Rightarrow>
               llm_loop fl float_of err_str validate cfg ans transcript (Suc k) left (Some e)
                 (tr\<lparr>tr_requests := tr_requests tr @ made,
                     tr_sleeps := tr_sleeps tr @ (if k < llm_max_retries cfg then [d] else [])\<rparr>)))"

definition msg_empty_transcript :: pstr where
  [msg_defs]: "msg_empty_transcript = asc ''transcript must not be empty''"

definition summarize_model ::
  "(pstr \<Rightarrow> pstr) \<Rightarrow> (pstr \<Rightarrow> time option) \<Rightarrow> (llm_error \<Rightarrow> pstr) \<Rightarrow>
   ((pstr \<times> json) list \<Rightarrow> pstr + summary_result) \<Rightarrow> llm_cfg \<Rightarrow> answers \<Rightarrow> pstr \<Rightarrow>
   (exn + summary_result) \<times> llm_trace" where
  "summarize_model fl float_of err_str validate cfg ans transcript =
     (let tr = \<lparr>tr_requests = [], tr_sleeps = []\<rparr>
      in if strip transcript = [] then (Inl (ValueError msg_empty_transcript), tr)
         else llm_loop fl float_of err_str validate cfg ans transcript 1 (llm_max_retries cfg) None tr)"

definition summarize ::
  "(pstr \<Rightarrow> pstr) \<Rightarrow> (pstr \<Rightarrow> time option) \<Rightarrow> (llm_error \<Rightarrow> pstr) \<Rightarrow>
   ((pstr \<times> json) list \<Rightarrow> pstr + summary_result) \<Rightarrow> llm_cfg \<Rightarrow> answers \<Rightarrow> pstr \<Rightarrow> exn + json" where
  "summarize fl float_of err_str validate cfg ans transcript =
     (case fst (summarize_model fl float_of err_str validate cfg ans transcript) of
        Inl e \<Rightarrow> Inl e | Inr r \<Rightarrow> Inr (model_dump r))"

text \<open>\<open>__init__\<close> refuses fewer than one attempt.\<close>

definition new_llm :: "llm_cfg \<Rightarrow> exn + llm_cfg" where
  "new_llm cfg = (if llm_max_retries cfg < 1 then Inl (ValueError (asc ''max_retries must be >= 1'')) else Inr cfg)"

section \<open>Streaming\<close>

type_synonym sse_event = "pstr \<times> json"

definition ev_delta :: "pstr \<Rightarrow> sse_event" where "ev_delta t = (asc ''delta'', JStr t)"
definition ev_done :: "json \<Rightarrow> sse_event" where "ev_done v = (asc ''done'', v)"
definition ev_error :: "pstr \<Rightarrow> sse_event" where "ev_error m = (asc ''error'', JStr m)"

text \<open>
  The answer to a streaming request: an exception, or chunks (without choices, or with the
  content of the first one) and the exception that may break them off.
\<close>

type_synonym llm_stream = "llm_error + pstr option option list \<times> llm_error option"

fun stream_texts :: "pstr option option list \<Rightarrow> pstr list" where
  "stream_texts [] = []"
| "stream_texts (c # cs) =
     (case c of
        Some (Some t) \<Rightarrow> (if t = [] then stream_texts cs else t # stream_texts cs)
      | _ \<Rightarrow> stream_texts cs)"

text \<open>The events, and the exception the generator itself raises, if any.\<close>

definition summarize_stream ::
  "(pstr \<Rightarrow> pstr) \<Rightarrow> (llm_error \<Rightarrow> pstr) \<Rightarrow> ((pstr \<times> json) list \<Rightarrow> pstr + summary_result) \<Rightarrow>
   llm_cfg \<Rightarrow> (llm_request \<Rightarrow> llm_stream) \<Rightarrow> pstr \<Rightarrow> sse_event list \<times> llm_error option" where
  "summarize_stream fl err_str validate cfg ans transcript =
     (if strip transcript = [] then ([ev_error msg_empty_transcript], None)
      else case ans (llm_request_of cfg transcript False True) of
        Inl e \<Rightarrow> ([ev_error (asc ''LLM stream failed: '' @ err_str e)], None)
      | Inr (cs, brk) \<Rightarrow>
          (let parts = stream_texts cs; deltas = map ev_delta parts
           in case brk of
                Some e \<Rightarrow> (deltas @ [ev_error (asc ''LLM stream failed: '' @ err_str e)], None)
              | None \<Rightarrow>
                  (let raw = strip (concat parts)
                   in if raw = [] then (deltas @ [ev_error (asc ''LLM returned empty stream content'')], None)
                      else case parse_json_safely fl raw of
                             Inl (LLMParseError f) \<Rightarrow>
                               (deltas @ [ev_error (asc ''Failed to parse streamed summary: '' @ err_str (LLMParseError f))], None)
                           | Inl e \<Rightarrow> (deltas, Some e)
                           | Inr d \<Rightarrow>
                               (case validate d of
                                  Inl m \<Rightarrow> (deltas @ [ev_error (asc ''Failed to parse streamed summary: '' @ err_str (ValidationError m))], None)
                                | Inr r \<Rightarrow> (deltas @ [ev_done (model_dump r)], None)))))"

text \<open>The stream of the placeholder summary, in pieces of eight characters.\<close>

definition mock_payload :: json where
  "mock_payload = JDict
     [(asc ''summary'', JStr [27169, 25311, 25688, 35201]),
      (asc ''key_points'', JList [JStr ([35201, 28857] @ asc ''1'')]),
      (asc ''todos'', JList [JStr ([24453, 21150] @ asc ''1'')])]"

definition mock_summarize_stream :: "nat \<Rightarrow> sse_event list" where
  "mock_summarize_stream chunk_size =
     map ev_delta (chunks_of chunk_size (dumps mock_payload)) @ [ev_done mock_payload]"

section \<open>\<open>SummarizerService\<close>\<close>

text \<open>Whether a summarizer is at hand (injected, or an API key to build one), and the mock switch.\<close>

record summarizer_service =
  has_llm :: bool
  allow_mock :: bool

definition can_stream :: "summarizer_service \<Rightarrow> bool" where
  "can_stream s \<longleftrightarrow> has_llm s \<or> allow_mock s"

definition service_stream ::
  "summarizer_service \<Rightarrow> (pstr \<Rightarrow> sse_event list \<times> llm_error option) \<Rightarrow> pstr \<Rightarrow>
     sse_event list \<times> llm_error option" where
  "service_stream s llm transcript =
     (if has_llm s then llm transcript
      else if allow_mock s then (mock_summarize_stream 8, None)
      else ([ev_error (asc ''LLM is not configured'')], None))"

end
