(* ===== verification/Recording_Service.thy ===== *)
theory Recording_Service
  imports Task_Service File_Util Llm
begin

text \<open>
  \<open>api/service/recording.py\<close>.  An upload goes through the file system, the database and the
  worker; each of its steps can fail or be cancelled, as \<open>upload_world\<close> says.
\<close>

section \<open>Messages\<close>

text \<open>"recording does not exist: id", "the recording exists but its task is missing".\<close>

definition msg_recording_not_found :: "uuid \<Rightarrow> pstr" where
  [msg_defs]: "msg_recording_not_found rid = [24405, 38899, 19981, 23384, 22312] @ asc '': '' @ uuid_str rid"

definition msg_task_lost :: pstr where
  [msg_defs]: "msg_task_lost = [24405, 38899, 23384, 22312, 20294, 22788, 29702, 20219, 21153, 32570, 22833]"

definition msg_page :: pstr where
  [msg_defs]: "msg_page = asc ''page '' @ [24517, 39035] @ asc '' >= 1''"

definition max_page_size :: int where
  "max_page_size = 100"

definition msg_page_size :: pstr where
  [msg_defs]: "msg_page_size = asc ''page_size '' @ [24517, 39035, 22312] @ asc '' 1~'' @
     int_str max_page_size @ asc '' '' @ [20043, 38388]"

definition msg_no_transcript :: pstr where
  [msg_defs]: "msg_no_transcript = [23578, 26080, 36716, 20889, 25991, 26412, 65292, 26080, 27861,
     27969, 24335, 25688, 35201]"

definition msg_no_llm_stream :: pstr where
  [msg_defs]: "msg_no_llm_stream = [26410, 37197, 32622] @ asc '' LLM_API_KEY'' @ [65292, 19988] @
     asc '' WORKER_ALLOW_MOCK_LLM=false'' @ [65292, 26080, 27861, 27969, 24335, 25688, 35201]"

definition require_task :: "task option \<Rightarrow> exn + task" where
  "require_task t = (case t of None \<Rightarrow> Inl (TaskNotFoundError msg_task_lost) | Some t \<Rightarrow> Inr t)"

section \<open>Upload\<close>

record upload_cfg =
  up_allowed :: "pstr list"
  up_dir :: pstr
  up_max_mb :: int
  up_uni :: "pstr \<Rightarrow> pstr"
  up_pylist :: "pstr list \<Rightarrow> pstr"
  up_sha256 :: "bytes \<Rightarrow> pstr"

record upload_world =
  w_io :: staging_io
  w_file_id :: uuid
  w_lookup :: tx
  w_lookup_env :: interference
  w_rename :: tx
  w_clock :: clock
  w_rec_id :: uuid
  w_task_id :: uuid
  w_env :: interference
  w_commit :: tx

text \<open>
  \<open>keep_file = created\<close>, and in the \<open>finally\<close> the file is removed unless it is kept: whatever
  \<open>create\<close> does, at the path it is given.
\<close>

definition create_keeping ::
  "(pstr \<Rightarrow> database \<Rightarrow> (recording \<times> task option \<times> bool) tx_result \<times> database) \<Rightarrow> (pstr \<Rightarrow> bool) \<Rightarrow>
   pstr \<Rightarrow> fs \<times> database \<Rightarrow> (recording \<times> task option \<times> bool) tx_result \<times> fs \<times> database" where
  "create_keeping create unl path s =
     (case s of (fs, db) \<Rightarrow>
        (case create path db of (res, db') \<Rightarrow>
           let keep = (case res of Returned (_, _, created) \<Rightarrow> created | _ \<Rightarrow> False)
           in (res, if keep then fs else remove_file unl path fs, db')))"

text \<open>The lookup by hash in a session of its own.\<close>

definition lookup_hash ::
  "tx \<Rightarrow> interference \<Rightarrow> pstr \<Rightarrow> database \<Rightarrow> (recording option \<times> task option) tx_result \<times> database" where
  "lookup_hash x env h db =
     (case x of
        Commit \<Rightarrow> (case repo_get_by_hash env h db of (p, db') \<Rightarrow> (Returned p, db'))
      | Abort _ e \<Rightarrow> (Raised e, db)
      | CancelTx _ \<Rightarrow> (TxCancelled, db))"

text \<open>After the recording is stored: a missing task is an error, a new task wakes the worker.\<close>

definition upload_answer ::
  "(recording \<times> task option \<times> bool) tx_result \<Rightarrow> fs \<times> database \<times> worker_state option \<Rightarrow>
     (recording \<times> task \<times> bool) tx_result \<times> fs \<times> database \<times> worker_state option" where
  "upload_answer res s =
     (case s of (fs, db, wk) \<Rightarrow>
        (case res of
           Raised e \<Rightarrow> (Raised e, s)
         | TxCancelled \<Rightarrow> (TxCancelled, s)
         | Returned (r, t, created) \<Rightarrow>
             (case require_task t of
                Inl e \<Rightarrow> (Raised e, s)
              | Inr t \<Rightarrow>
                  (if created
                   then (case submit_opt wk (task_id t) of
                           Inl e \<Rightarrow> (Raised e, s)
                         | Inr wk' \<Rightarrow> (Returned (r, t, True), fs, db, wk'))
                   else (Returned (r, t, False), s)))))"

definition upload ::
  "upload_cfg \<Rightarrow> upload_world \<Rightarrow> pstr \<Rightarrow> fs \<times> database \<times> worker_state option \<Rightarrow>
     (recording \<times> task \<times> bool) tx_result \<times> fs \<times> database \<times> worker_state option" where
  "upload cfg w filename s =
     (case s of (fs, db, wk) \<Rightarrow>
        (case validate_extension (up_uni cfg) (up_pylist cfg) filename (up_allowed cfg) of
           Inl e \<Rightarrow> (Raised e, s)
         | Inr ext \<Rightarrow>
             (case stage_upload (up_sha256 cfg) (w_io w) (w_file_id w) ext (up_dir cfg)
                     (max_file_size_bytes (up_max_mb cfg)) (up_max_mb cfg) fs of
                (Raised e, fs1) \<Rightarrow> (Raised e, fs1, db, wk)
              | (TxCancelled, fs1) \<Rightarrow> (TxCancelled, fs1, db, wk)
              | (Returned st, fs1) \<Rightarrow>
                  (case lookup_hash (w_lookup w) (w_lookup_env w) (staged_sha st) db of
                     (Raised e, db1) \<Rightarrow> (Raised e, fs1, db1, wk)
                   | (TxCancelled, db1) \<Rightarrow> (TxCancelled, fs1, db1, wk)
                   | (Returned (Some r, t), db1) \<Rightarrow>
                       upload_answer (Returned (r, t, False))
                         (staged_discard (unlink_ok (w_io w)) st fs1, db1, wk)
                   | (Returned (None, _), db1) \<Rightarrow>
                       (case staged_commit (w_rename w) st fs1 of
                          (Raised e, fs2) \<Rightarrow>
                            (Raised e, staged_discard (unlink_ok (w_io w)) st fs2, db1, wk)
                        | (TxCancelled, fs2) \<Rightarrow>
                            (TxCancelled, staged_discard (unlink_ok (w_io w)) st fs2, db1, wk)
                        | (Returned path, fs2) \<Rightarrow>
                            (case create_keeping
                                    (\<lambda>p. create_recording_and_task (w_clock w) (w_rec_id w) (w_task_id w)
                                       (w_env w) (w_commit w) filename p (staged_size st) (staged_sha st))
                                    (unlink_ok (w_io w)) path (fs2, w_lookup_env w 1 db1) of
                               (res, fs3, db2) \<Rightarrow> upload_answer res (fs3, db2, wk)))))))"

section \<open>Reading and deleting\<close>

definition list_recordings ::
  "interference \<Rightarrow> int \<Rightarrow> int \<Rightarrow> database \<Rightarrow> (exn + (recording \<times> task option) list \<times> int) \<times> database" where
  "list_recordings env page page_size db =
     (if page < 1 then (Inl (InvalidRequestError msg_page), db)
      else if page_size < 1 \<or> max_page_size < page_size then (Inl (InvalidRequestError msg_page_size), db)
      else case repo_list_page env page page_size db of (r, db') \<Rightarrow> (Inr r, db'))"

definition get_recording ::
  "interference \<Rightarrow> uuid \<Rightarrow> database \<Rightarrow> (exn + recording \<times> task) \<times> database" where
  "get_recording env rid db =
     (case repo_get_by_id env rid db of
        ((None, _), db') \<Rightarrow> (Inl (RecordingNotFoundError (msg_recording_not_found rid)), db')
      | ((Some r, t), db') \<Rightarrow>
          (case require_task t of Inl e \<Rightarrow> (Inl e, db') | Inr t \<Rightarrow> (Inr (r, t), db')))"

text \<open>The file goes after the row; an exception of the removal is only logged.\<close>

definition delete_recording ::
  "interference \<Rightarrow> tx \<Rightarrow> (pstr \<Rightarrow> bool) \<Rightarrow> uuid \<Rightarrow> fs \<times> database \<Rightarrow> unit tx_result \<times> fs \<times> database" where
  "delete_recording env x unl rid s =
     (case s of (fs, db) \<Rightarrow>
        (case repo_delete env x rid db of
           (Raised e, db') \<Rightarrow> (Raised e, fs, db')
         | (TxCancelled, db') \<Rightarrow> (TxCancelled, fs, db')
         | (Returned None, db') \<Rightarrow> (Raised (RecordingNotFoundError (msg_recording_not_found rid)), fs, db')
         | (Returned (Some path), db') \<Rightarrow> (Returned (), remove_file unl path fs, db')))"

section \<open>The summary stream\<close>

record stream_ctx =
  sc_task_id :: uuid
  sc_transcript :: pstr
  sc_existing :: "json option"

text \<open>\<open>task.summary or None\<close>: an empty object counts as none.\<close>

definition or_none :: "json option \<Rightarrow> json option" where
  "or_none v = (case v of None \<Rightarrow> None | Some j \<Rightarrow> (if json_truthy j then Some j else None))"

definition prepare_summary_stream ::
  "interference \<Rightarrow> summarizer_service option \<Rightarrow> uuid \<Rightarrow> database \<Rightarrow> (exn + stream_ctx) \<times> database" where
  "prepare_summary_stream env sm rid db =
     (case repo_get_by_id env rid db of
        ((None, _), db') \<Rightarrow> (Inl (RecordingNotFoundError (msg_recording_not_found rid)), db')
      | ((Some r, t), db') \<Rightarrow>
          (case require_task t of
             Inl e \<Rightarrow> (Inl e, db')
           | Inr t \<Rightarrow>
               (if or_none (summary t) \<noteq> None \<and> status t = DONE
                then (Inr \<lparr>sc_task_id = task_id t, sc_transcript = or_str (transcript t) [],
                           sc_existing = or_none (summary t)\<rparr>, db')
                else let tr = strip (or_str (transcript t) [])
                     in if tr = [] then (Inl (InvalidRequestError msg_no_transcript), db')
                        else if (case sm of None \<Rightarrow> True | Some s \<Rightarrow> \<not> can_stream s)
                          then (Inl (ServiceUnavailableError msg_no_llm_stream), db')
                        else (Inr \<lparr>sc_task_id = task_id t, sc_transcript = tr, sc_existing = None\<rparr>, db'))))"

text \<open>\<open>_REPLAY_CHUNK_SIZE\<close> characters per delta, then the stored summary.\<close>

definition replay_chunk_size :: nat where
  "replay_chunk_size = 16"

definition replay_stored_summary :: "json \<Rightarrow> sse_event list" where
  "replay_stored_summary v = map ev_delta (chunks_of replay_chunk_size (dumps v)) @ [ev_done v]"

definition stream_summary ::
  "summarizer_service option \<Rightarrow> (pstr \<Rightarrow> sse_event list \<times> llm_error option) \<Rightarrow> stream_ctx \<Rightarrow>
     sse_event list \<times> llm_error option" where
  "stream_summary sm llm ctx =
     (case sc_existing ctx of
        Some v \<Rightarrow> (replay_stored_summary v, None)
      | None \<Rightarrow>
          (case sm of
             None \<Rightarrow> ([ev_error (asc ''LLM is not configured'')], None)
           | Some s \<Rightarrow> service_stream s llm (sc_transcript ctx)))"

end
