(* ===== verification/File_Properties.thy ===== *)
theory File_Properties
  imports File_Util
begin

text \<open>
  Staging an upload: what ends up on disk is exactly what was read, within the limit, and a
  failure leaves nothing behind (with the two exceptions that are stated).
\<close>

section \<open>The loop\<close>

lemma sink_write_facts:
  assumes "sink_write c s fs = (s', fs')"
  shows "sink_path s' = sink_path s" and "sink_data s' = sink_data s @ c"
    and "fs' = fs(sink_path s \<mapsto> sink_data s')" and "sink_size s' = sink_size s + int (length c)"
  using assms by (auto simp: sink_write_def Let_def sink_size_def)

lemma stage_loop_inv:
  assumes "stage_loop io maxb mb i (s, fs) = (r, s', fs')"
    and "fs (sink_path s) = Some (sink_data s)" and "sink_size s \<le> maxb"
  shows "sink_path s' = sink_path s \<and> fs' = fs(sink_path s \<mapsto> sink_data s') \<and> sink_size s' \<le> maxb"
  using assms
proof (induction io maxb mb i "(s, fs)" arbitrary: s fs rule: stage_loop.induct)
  case (1 io maxb mb i s fs)
  have same: "fs = fs(sink_path s \<mapsto> sink_data s)"
    using "1.prems"(2) by auto
  show ?case
  proof (cases "read_res io i")
    case (Returned c)
    show ?thesis
    proof (cases "c = [] \<or> sink_size s + int (length c) > maxb")
      case True
      then show ?thesis
        using "1.prems" Returned same
        by (auto simp: stage_loop.simps [of io maxb mb i] split: if_splits)
    next
      case False
      obtain s1 fs1 where w: "sink_write c s fs = (s1, fs1)" by (cases "sink_write c s fs")
      note f = sink_write_facts [OF w]
      have small: "sink_size s1 \<le> maxb" and cont: "fs1 (sink_path s1) = Some (sink_data s1)"
        using False f by auto
      show ?thesis
      proof (cases "write_res io i")
        case Commit
        have step: "stage_loop io maxb mb (i + 1) (s1, fs1) = (r, s', fs')"
          using "1.prems"(1) Returned False Commit w by (simp add: stage_loop.simps [of io maxb mb i])
        have "sink_path s' = sink_path s1 \<and> fs' = fs1(sink_path s1 \<mapsto> sink_data s') \<and> sink_size s' \<le> maxb"
          using "1.hyps" [of c s1 fs1] Returned False Commit w step cont small by auto
        with f show ?thesis by auto
      next
        case (Abort b e)
        then show ?thesis
          using "1.prems" Returned False w f small same
          by (cases b) (auto simp: stage_loop.simps [of io maxb mb i])
      next
        case (CancelTx b)
        then show ?thesis
          using "1.prems" Returned False w f small same
          by (cases b) (auto simp: stage_loop.simps [of io maxb mb i])
      qed
    qed
  qed (use "1.prems" same in \<open>auto simp: stage_loop.simps [of io maxb mb i]\<close>)
qed

section \<open>Staging\<close>

definition part_path :: "pstr \<Rightarrow> uuid \<Rightarrow> pstr \<Rightarrow> pstr" where
  "part_path dir u ext = path_child dir (uuid_hex u @ ext) @ asc ''.part''"

lemma stage_upload_cases:
  assumes "stage_upload sha256 io u ext dir maxb mb fs = (res, fs')"
    and "fs (part_path dir u ext) = None" and "0 \<le> maxb"
  shows "(\<exists>d. res = Returned \<lparr>tmp_path = part_path dir u ext,
                final_path = path_child dir (uuid_hex u @ ext),
                staged_sha = sha256 d, staged_size = int (length d)\<rparr> \<and>
            d \<noteq> [] \<and> int (length d) \<le> maxb \<and> fs' = fs(part_path dir u ext \<mapsto> d)) \<or>
    ((\<forall>st. res \<noteq> Returned st) \<and>
     (unlink_ok io (part_path dir u ext) \<and> open_res io = Commit \<longrightarrow> fs' = fs))"
proof -
  let ?tmp = "part_path dir u ext"
  let ?sink = "\<lparr>sink_path = ?tmp, sink_data = []\<rparr>"
  note tmp = part_path_def [of dir u ext, symmetric]
  obtain r s fs1 where l: "stage_loop io maxb mb 0 (?sink, fs(?tmp \<mapsto> [])) = (r, s, fs1)"
    by (cases "stage_loop io maxb mb 0 (?sink, fs(?tmp \<mapsto> []))") auto
  have inv: "sink_path s = ?tmp" "fs1 = fs(?tmp \<mapsto> sink_data s)" "sink_size s \<le> maxb"
    using stage_loop_inv [OF l] assms(3) by (auto simp: sink_size_def)
  have undo: "fs(?tmp := None) = fs"
    using assms(2) by auto
  show ?thesis
    using assms(1) l inv undo
    by (auto simp: stage_upload_def Let_def tmp sink_abort_def remove_file_def sink_finalize_def
        sink_size_def split: option.splits tx.splits tx_result.splits if_splits)
qed


text \<open>A request whose every operation succeeds: the chunks, then the end of the data.\<close>

definition good_io :: "bytes list \<Rightarrow> staging_io" where
  "good_io cs = \<lparr>mkdir_res = None, open_res = Commit,
     read_res = (\<lambda>i. Returned (if i < length cs then cs ! i else [])),
     write_res = (\<lambda>_. Commit), close_res = Commit, unlink_ok = (\<lambda>_. True)\<rparr>"

lemma stage_loop_good:
  assumes "\<forall>c \<in> set cs. c \<noteq> []" and "i \<le> length cs" and "sink_size s \<le> maxb"
    and "fs (sink_path s) = Some (sink_data s)"
  shows "if sink_size s + int (length (concat (drop i cs))) \<le> maxb
    then stage_loop (good_io cs) maxb mb i (s, fs) =
      (Returned (), s\<lparr>sink_data := sink_data s @ concat (drop i cs)\<rparr>,
       fs(sink_path s \<mapsto> sink_data s @ concat (drop i cs)))
    else fst (stage_loop (good_io cs) maxb mb i (s, fs)) = Raised (InvalidUploadError (msg_too_large mb))"
  using assms(2-4)
proof (induction "length cs - i" arbitrary: i s fs)
  case 0
  then have "i = length cs" "fs = fs(sink_path s \<mapsto> sink_data s)" by auto
  moreover from this have "stage_loop (good_io cs) maxb mb i (s, fs) = (Returned (), s, fs)"
    by (subst stage_loop.simps) (simp add: good_io_def)
  ultimately show ?case using 0 by simp
next
  case (Suc k)
  then have i: "i < length cs" by simp
  let ?c = "cs ! i"
  have c: "?c \<noteq> []" using assms(1) i by simp
  have d: "drop i cs = ?c # drop (Suc i) cs" using i by (simp add: Cons_nth_drop_Suc)
  obtain s1 fs1 where w: "sink_write ?c s fs = (s1, fs1)" by (cases "sink_write ?c s fs")
  note f = sink_write_facts [OF w]
  show ?case
  proof (cases "sink_size s + int (length ?c) > maxb")
    case True
    then have "fst (stage_loop (good_io cs) maxb mb i (s, fs)) = Raised (InvalidUploadError (msg_too_large mb))"
      using i c by (subst stage_loop.simps) (simp add: good_io_def)
    with True show ?thesis by (simp add: d)
  next
    case False
    have step: "stage_loop (good_io cs) maxb mb i (s, fs) = stage_loop (good_io cs) maxb mb (Suc i) (s1, fs1)"
      using False i c w by (subst stage_loop.simps) (simp add: good_io_def)
    have s1: "s1\<lparr>sink_data := x\<rparr> = s\<lparr>sink_data := x\<rparr>" for x
      using f(1) by (cases s; cases s1) simp
    have "fs1 (sink_path s1) = Some (sink_data s1)" using f by simp
    moreover have "k = length cs - Suc i" "Suc i \<le> length cs" "sink_size s1 \<le> maxb"
      using Suc.hyps(2) i False f(4) by auto
    ultimately show ?thesis
      using Suc.hyps(1) [of "Suc i" s1 fs1] f
      by (auto simp: step d s1 add.assoc split: if_splits)
  qed
qed

lemma staging_cases_good:
  assumes "\<forall>c \<in> set cs. c \<noteq> []" and "0 \<le> maxb" and "fs (part_path dir u ext) = None"
  shows "stage_upload sha256 (good_io cs) u ext dir maxb mb fs =
    (if int (length (concat cs)) > maxb then (Raised (InvalidUploadError (msg_too_large mb)), fs)
     else if concat cs = [] then (Raised (InvalidUploadError msg_empty_file), fs)
     else (Returned \<lparr>tmp_path = part_path dir u ext, final_path = path_child dir (uuid_hex u @ ext),
             staged_sha = sha256 (concat cs), staged_size = int (length (concat cs))\<rparr>,
           fs(part_path dir u ext \<mapsto> concat cs)))"
proof -
  let ?tmp = "part_path dir u ext"
  let ?s = "\<lparr>sink_path = ?tmp, sink_data = []\<rparr>"
  note tmp = part_path_def [of dir u ext, symmetric]
  have io: "mkdir_res (good_io cs) = None" "open_res (good_io cs) = Commit" "close_res (good_io cs) = Commit"
    "unlink_ok (good_io cs) p" for p
    by (simp_all add: good_io_def)
  have undo: "fs(?tmp := None) = fs" using assms(3) by auto
  have loop: "if int (length (concat cs)) \<le> maxb
      then stage_loop (good_io cs) maxb mb 0 (?s, fs(?tmp \<mapsto> [])) =
        (Returned (), \<lparr>sink_path = ?tmp, sink_data = concat cs\<rparr>, fs(?tmp \<mapsto> concat cs))
      else fst (stage_loop (good_io cs) maxb mb 0 (?s, fs(?tmp \<mapsto> []))) = Raised (InvalidUploadError (msg_too_large mb))"
    using stage_loop_good [OF assms(1), of 0 ?s maxb "fs(?tmp \<mapsto> [])" mb] assms(2)
    by (simp add: sink_size_def)
  show ?thesis
  proof (cases "int (length (concat cs)) \<le> maxb")
    case True
    then show ?thesis
      using loop io undo
      by (simp add: stage_upload_def Let_def tmp sink_size_def sink_abort_def remove_file_def sink_finalize_def)
  next
    case False
    obtain r s fs1 where l: "stage_loop (good_io cs) maxb mb 0 (?s, fs(?tmp \<mapsto> [])) = (r, s, fs1)"
      by (cases "stage_loop (good_io cs) maxb mb 0 (?s, fs(?tmp \<mapsto> []))") auto
    have "sink_path s = ?tmp" "fs1 = fs(?tmp \<mapsto> sink_data s)"
      using stage_loop_inv [OF l] assms(2) by (auto simp: sink_size_def)
    then show ?thesis
      using loop False io l undo
      by (simp add: stage_upload_def Let_def tmp sink_abort_def remove_file_def)
  qed
qed

text \<open>
  What is staged, when nothing goes wrong: the chunks put together, however they were cut.  An
  upload without data is refused as empty, one that exceeds the limit as too large (at the first
  chunk that would, nothing of it is kept), any other is staged byte for byte.
\<close>

lemma staging_spec:
  assumes "\<forall>c \<in> set cs. c \<noteq> []" and "0 \<le> maxb" and "fs (part_path dir u ext) = None"
  shows "stage_upload sha256 (good_io cs) u ext dir maxb mb fs =
    (if int (length (concat cs)) > maxb then (Raised (InvalidUploadError (msg_too_large mb)), fs)
     else if concat cs = [] then (Raised (InvalidUploadError msg_empty_file), fs)
     else (Returned \<lparr>tmp_path = part_path dir u ext, final_path = path_child dir (uuid_hex u @ ext),
             staged_sha = sha256 (concat cs), staged_size = int (length (concat cs))\<rparr>,
           fs(part_path dir u ext \<mapsto> concat cs)))"
  by (rule staging_cases_good) (rule assms)+

lemma staging_spec_witness:
  "fst (stage_upload (\<lambda>_. []) (good_io [[1, 2], [3]]) 5 (asc ''.wav'') (asc ''/u'') 2 0 (\<lambda>_. None)) =
   Raised (InvalidUploadError (msg_too_large 0))"
  using staging_spec [of "[[1, 2], [3]]" 2 "\<lambda>_. None" "asc ''/u''" 5 "asc ''.wav''" "\<lambda>_. []" 0] by simp


end
