(* ===== verification/Json_Properties.thy ===== *)
theory Json_Properties
  imports Json_Codec
begin

text \<open>
  The fuel of the parser is enough for every text, and what is printed is read back: the value
  itself, whatever follows it in the text.
\<close>

section \<open>Consumption\<close>

lemma length_skip_ws: "length (skip_ws s) \<le> length s"
  by (simp add: skip_ws_def length_dropWhile_le)

lemma skip_ws_Cons_length: "skip_ws s = c # r \<Longrightarrow> length r < length s"
  using length_skip_ws [of s] by simp

lemma scan_str_length: "scan_str s = Some (t, q) \<Longrightarrow> length q < length s"
proof (induction s arbitrary: t q rule: scan_str.induct)
  case (2 c r)
  show ?case
  proof (cases "c = 92")
    case True
    then obtain u r' t' where "scan_esc r = Some (u, r')" "scan_str r' = Some (t', q)"
      using "2.prems" by (auto split: option.splits if_splits)
    then show ?thesis
      using "2.IH"(1) [of "(u, r')" u r'] True scan_esc_length [of r u r'] by fastforce
  next
    case False
    then show ?thesis
      using "2.prems" "2.IH"(2) by (fastforce split: option.splits if_splits)
  qed
qed simp

lemma length_dropWhile_lt: "takeWhile P s \<noteq> [] \<Longrightarrow> length (dropWhile P s) < length s"
  by (metis length_append length_greater_0_conv less_add_same_cancel2 takeWhile_dropWhile_id)

lemma scan_int_length: "scan_int s = Some (ds, r) \<Longrightarrow> length r < length s"
  by (auto simp: scan_int_def le_imp_less_Suc length_dropWhile_le split: list.splits if_splits)

lemma scan_num_length:
  assumes "scan_num fl s = Inr (v, q)"
  shows "length q < length s"
proof -
  let ?s1 = "drop (length (if s \<noteq> [] \<and> hd s = 45 then [45::nat] else [])) s"
  obtain ds r where i: "scan_int ?s1 = Some (ds, r)"
    using assms by (auto simp: scan_num_def Let_def split: option.splits)
  obtain fr r1 where f: "scan_frac r = (fr, r1)" by (cases "scan_frac r")
  obtain ex r2 where e: "scan_exp r1 = (ex, r2)" by (cases "scan_exp r1")
  have q: "q = r2"
    using assms i f e by (auto simp: scan_num_def Let_def split: if_splits)
  have "length r < length ?s1"
    using scan_int_length [OF i] .
  moreover have "length r1 \<le> length r"
    using f length_dropWhile_le [of is_digit "tl r"]
    by (auto simp: scan_frac_def split: list.splits if_splits)
  moreover have "length r2 \<le> length r1"
    using e length_dropWhile_le [of is_digit "tl r1"] length_dropWhile_le [of is_digit "tl (tl r1)"]
    by (auto simp: scan_exp_def Let_def drop_Suc split: list.splits if_splits)
  ultimately show ?thesis
    using q by (auto split: if_splits)
qed

lemma starts_length: "starts w s \<Longrightarrow> length w \<le> length s"
  unfolding starts_def by (metis length_asc length_take min.cobounded1)

lemma scan_atom_length:
  assumes "scan_atom fl s = Inr (v, q)"
  shows "length q < length s"
  using assms starts_length [of "''null''" s] starts_length [of "''true''" s]
    starts_length [of "''false''" s] starts_length [of "''NaN''" s]
    starts_length [of "''Infinity''" s] starts_length [of "''-Infinity''" s] scan_num_length [of fl s v q]
  by (auto simp: scan_atom_def split: if_splits)

lemma parse_length:
  "(parse_val fl n s = Inr (v, q) \<longrightarrow> length q < length s) \<and>
   (parse_elems fl n s' = Inr (vs, q') \<longrightarrow> length q' < length s') \<and>
   (parse_members fl n acc s'' = Inr (kvs, q'') \<longrightarrow> length q'' < length s'')"
proof (induction n arbitrary: s v q s' vs q' acc s'' kvs q'')
  case (Suc n)
  have val: "parse_val fl n s = Inr (v, q) \<Longrightarrow> length q < length s"
    and elems: "parse_elems fl n s = Inr (vs, q) \<Longrightarrow> length q < length s"
    and members: "parse_members fl n acc s = Inr (kvs, q) \<Longrightarrow> length q < length s"
    for s v q vs acc kvs
    using Suc.IH by blast+
  have 1: "length q < length s" if p: "parse_val fl (Suc n) s = Inr (v, q)"
  proof (cases s)
    case (Cons c r)
    have tl: "length (tl (skip_ws r)) \<le> length r" using length_skip_ws [of r] by simp
    show ?thesis
      using p Cons tl length_skip_ws [of r] elems [of "skip_ws r"] members [of "[]" "skip_ws r"]
        scan_str_length [of r] scan_atom_length [of fl s v q]
      by (fastforce simp: Let_def split: if_splits option.splits sum.splits)
  qed (use p in simp)
  have 2: "length q' < length s'" if p: "parse_elems fl (Suc n) s' = Inr (vs, q')"
  proof -
    obtain v q c r where v: "parse_val fl n s' = Inr (v, q)" "skip_ws q = c # r"
      using p by (auto split: sum.splits list.splits)
    then have "length r < length s'"
      using val [OF v(1)] skip_ws_Cons_length [OF v(2)] by simp
    then show ?thesis
      using p v elems [of "skip_ws r"] length_skip_ws [of r]
      by (fastforce split: if_splits sum.splits)
  qed
  have 3: "length q'' < length s''" if p: "parse_members fl (Suc n) acc s'' = Inr (kvs, q'')"
  proof -
    obtain r k q r1 where k: "s'' = 34 # r" "scan_str r = Some (k, q)" "skip_ws q = 58 # r1"
      using p by (auto split: list.splits if_splits option.splits)
    obtain v q1 f r2 where v: "parse_val fl n (skip_ws r1) = Inr (v, q1)" "skip_ws q1 = f # r2"
      using p k by (auto split: sum.splits list.splits)
    have "length r2 < length s''"
      using scan_str_length [OF k(2)] skip_ws_Cons_length [OF k(3)] length_skip_ws [of r1]
        val [OF v(1)] skip_ws_Cons_length [OF v(2)] k(1) by simp
    then show ?thesis
      using p k v members [of "dict_set k v acc" "skip_ws r2"] length_skip_ws [of r2]
      by (fastforce split: if_splits)
  qed
  show ?case using 1 2 3 by blast
qed simp

lemmas parse_val_length = parse_length [THEN conjunct1, rule_format]

section \<open>Enough fuel\<close>

lemma scan_num_fuel: "scan_num fl s \<noteq> Inl OutOfFuel"
  by (simp add: scan_num_def Let_def split: option.splits prod.splits)

lemma scan_atom_fuel: "scan_atom fl s \<noteq> Inl OutOfFuel"
  by (simp add: scan_atom_def scan_num_fuel)

lemma parse_fuel:
  "(2 * length s < n \<longrightarrow> parse_val fl n s \<noteq> Inl OutOfFuel) \<and>
   (2 * length s' + 1 < n \<longrightarrow> parse_elems fl n s' \<noteq> Inl OutOfFuel) \<and>
   (2 * length s'' + 1 < n \<longrightarrow> parse_members fl n acc s'' \<noteq> Inl OutOfFuel)"
proof (induction n arbitrary: s s' s'' acc)
  case (Suc n)
  have val: "2 * length s < n \<Longrightarrow> parse_val fl n s \<noteq> Inl OutOfFuel"
    and elems: "2 * length s + 1 < n \<Longrightarrow> parse_elems fl n s \<noteq> Inl OutOfFuel"
    and members: "2 * length s + 1 < n \<Longrightarrow> parse_members fl n acc s \<noteq> Inl OutOfFuel"
    for s acc
    using Suc.IH by blast+
  have 1: "parse_val fl (Suc n) s \<noteq> Inl OutOfFuel" if "2 * length s < Suc n"
  proof (cases s)
    case (Cons c r)
    have "2 * length (skip_ws r) + 1 < n"
      using that Cons length_skip_ws [of r] by simp
    then show ?thesis
      using Cons elems [of "skip_ws r"] members [of "skip_ws r" "[]"] scan_atom_fuel [of fl s]
      by (auto simp: Let_def split: option.splits sum.splits)
  qed simp
  have 2: "parse_elems fl (Suc n) s' \<noteq> Inl OutOfFuel" if "2 * length s' + 1 < Suc n"
  proof -
    have small: "2 * length (skip_ws r) + 1 < n"
      if "parse_val fl n s' = Inr (v, q)" "skip_ws q = c # r" for v q c r
      using parse_val_length [OF that(1)] skip_ws_Cons_length [OF that(2)] length_skip_ws [of r]
        \<open>2 * length s' + 1 < Suc n\<close> by simp
    show ?thesis
      using that val [of s'] elems [OF small]
      by (auto split: sum.splits list.splits)
  qed
  have 3: "parse_members fl (Suc n) acc s'' \<noteq> Inl OutOfFuel" if n: "2 * length s'' + 1 < Suc n"
  proof -
    have v: "2 * length (skip_ws r1) < n"
      if "s'' = 34 # r" "scan_str r = Some (k, q)" "skip_ws q = d # r1" for r k q d r1
      using scan_str_length [OF that(2)] skip_ws_Cons_length [OF that(3)] length_skip_ws [of r1] n that(1)
      by simp
    have m: "2 * length (skip_ws r2) + 1 < n"
      if "s'' = 34 # r" "scan_str r = Some (k, q)" "skip_ws q = d # r1"
        "parse_val fl n (skip_ws r1) = Inr (v, q1)" "skip_ws q1 = f # r2" for r k q d r1 v q1 f r2
      using v [OF that(1-3)] parse_val_length [OF that(4)]
        skip_ws_Cons_length [OF that(5)] length_skip_ws [of r2] by simp
    show ?thesis
      using val [OF v] members [OF m]
      by (auto split: sum.splits list.splits option.splits)
  qed
  show ?case using 1 2 3 by blast
qed simp

text \<open>More fuel gives the same result.\<close>

lemma parse_mono:
  "(parse_val fl n s \<noteq> Inl OutOfFuel \<longrightarrow> parse_val fl (Suc n) s = parse_val fl n s) \<and>
   (parse_elems fl n s' \<noteq> Inl OutOfFuel \<longrightarrow> parse_elems fl (Suc n) s' = parse_elems fl n s') \<and>
   (parse_members fl n acc s'' \<noteq> Inl OutOfFuel \<longrightarrow> parse_members fl (Suc n) acc s'' = parse_members fl n acc s'')"
proof (induction n arbitrary: s s' s'' acc)
  case (Suc n)
  have val: "parse_val fl n s \<noteq> Inl OutOfFuel \<Longrightarrow> parse_val fl (Suc n) s = parse_val fl n s"
    and elems: "parse_elems fl n s \<noteq> Inl OutOfFuel \<Longrightarrow> parse_elems fl (Suc n) s = parse_elems fl n s"
    and members: "parse_members fl n acc s \<noteq> Inl OutOfFuel \<Longrightarrow>
      parse_members fl (Suc n) acc s = parse_members fl n acc s"
    for s acc
    using Suc.IH by blast+
  note del = parse_val.simps(2) parse_elems.simps(2) parse_members.simps(2)
  have 1: "parse_val fl (Suc (Suc n)) s = parse_val fl (Suc n) s" if "parse_val fl (Suc n) s \<noteq> Inl OutOfFuel"
    using that elems members
    unfolding parse_val.simps(2) [of fl n s] parse_val.simps(2) [of fl "Suc n" s]
    by (auto simp: Let_def simp del: del split: list.splits if_splits sum.splits)
  have 2: "parse_elems fl (Suc (Suc n)) s' = parse_elems fl (Suc n) s'"
    if "parse_elems fl (Suc n) s' \<noteq> Inl OutOfFuel"
    using that val elems
    unfolding parse_elems.simps(2) [of fl n s'] parse_elems.simps(2) [of fl "Suc n" s']
    by (auto simp del: del split: list.splits if_splits sum.splits)
  have 3: "parse_members fl (Suc (Suc n)) acc s'' = parse_members fl (Suc n) acc s''"
    if "parse_members fl (Suc n) acc s'' \<noteq> Inl OutOfFuel"
    using that val members
    unfolding parse_members.simps(2) [of fl n acc s''] parse_members.simps(2) [of fl "Suc n" acc s'']
    by (auto simp del: del split: list.splits if_splits sum.splits option.splits)
  show ?case using 1 2 3 by blast
qed simp

lemma parse_val_le: "parse_val fl n s = Inr r \<Longrightarrow> n \<le> m \<Longrightarrow> parse_val fl m s = Inr r"
  by (induction m) (use parse_mono [THEN conjunct1] in \<open>fastforce simp: le_Suc_eq\<close>)+

lemma parse_elems_le: "parse_elems fl n s = Inr r \<Longrightarrow> n \<le> m \<Longrightarrow> parse_elems fl m s = Inr r"
  by (induction m) (use parse_mono [THEN conjunct2, THEN conjunct1] in \<open>fastforce simp: le_Suc_eq\<close>)+

lemma parse_members_le:
  "parse_members fl n acc s = Inr r \<Longrightarrow> n \<le> m \<Longrightarrow> parse_members fl m acc s = Inr r"
  by (induction m) (use parse_mono [THEN conjunct2, THEN conjunct2] in \<open>fastforce simp: le_Suc_eq\<close>)+

lemma parse_val_enough:
  assumes "2 * length s < n" and "n \<le> m"
  shows "parse_val fl m s = parse_val fl n s"
  using assms(2)
proof (induction m rule: dec_induct)
  case (step m)
  then have "parse_val fl m s \<noteq> Inl OutOfFuel"
    using assms(1) parse_fuel [THEN conjunct1, rule_format, of s m fl] by simp
  with step parse_mono [THEN conjunct1] show ?case by metis
qed simp

lemma parse_val_decided:
  assumes "parse_val fl n s = Inr r" and "2 * length s < k"
  shows "parse_val fl k s = Inr r"
proof -
  have "parse_val fl (max n k) s = Inr r" using parse_val_le [OF assms(1)] by simp
  then show ?thesis using parse_val_enough [OF assms(2), of "max n k" fl] by simp
qed

section \<open>Strings and numbers\<close>

lemma scan_hex4_hex: "c < 65536 \<Longrightarrow> scan_hex4 (hex4 c @ r) = Some (c, r)"
  by (simp add: scan_hex4_def hex4_def hex_vals_hex hex_digits_lt digits_val_hex)

lemma scan_esc_hex: "c < 32 \<Longrightarrow> scan_esc (117 # hex4 c @ r) = Some (c, r)"
  by (simp add: scan_esc_def scan_hex4_hex)

lemma scan_str_esc:
  "scan_str (concat (map esc_char s) @ 34 # r) = Some (s, r)"
proof (induction s)
  case (Cons c s)
  have "c < 32 \<or> c = 34 \<or> c = 92 \<or> (32 \<le> c \<and> c \<noteq> 34 \<and> c \<noteq> 92)" by auto
  then show ?case
    using Cons by (auto simp: esc_char_def scan_esc_hex) (simp_all add: scan_esc_def)
qed simp

lemma dec_chars: "c \<in> set (nat_str n) \<Longrightarrow> is_digit c"
  using dec_digits_lt by (fastforce simp: nat_str_def is_digit_def)

lemma nat_str_Cons: "\<exists>c r. nat_str n = c # r \<and> is_digit c \<and> (c = 48 \<longleftrightarrow> n = 0) \<and> (n = 0 \<longrightarrow> r = [])"
proof -
  obtain d ds where d: "dec_digits n = d # ds"
    using dec_digits_ne by (cases "dec_digits n") auto
  have "n = 0 \<Longrightarrow> ds = []"
    using d by (simp add: dec_digits.simps [of 0])
  moreover have "is_digit (48 + d)"
    using dec_chars [of "48 + d" n] d by (simp add: nat_str_def)
  ultimately show ?thesis
    using d hd_dec_digits [of n] by (simp add: nat_str_def)
qed

lemma int_of_nat_str: "int_of_digits (nat_str n) = n"
  by (simp add: int_of_digits_def nat_str_def comp_def digits_val_dec)

text \<open>What cannot continue a number.\<close>

definition value_end :: "pstr \<Rightarrow> bool" where
  "value_end r \<longleftrightarrow> r = [] \<or> (\<not> is_digit (hd r) \<and> hd r \<noteq> 46 \<and> hd r \<noteq> 101 \<and> hd r \<noteq> 69)"

lemma take_digits:
  assumes "\<forall>c \<in> set ds. is_digit c" and "value_end r"
  shows "takeWhile is_digit (ds @ r) = ds" and "dropWhile is_digit (ds @ r) = r"
  using assms by (cases r; simp add: value_end_def)+

lemma scan_int_nat:
  assumes "value_end r"
  shows "scan_int (nat_str n @ r) = Some (nat_str n, r)"
proof -
  obtain c q where c: "nat_str n = c # q" "is_digit c" "c = 48 \<longleftrightarrow> n = 0" "n = 0 \<longrightarrow> q = []"
    using nat_str_Cons [of n] by blast
  have "\<forall>d \<in> set q. is_digit d" using dec_chars [of _ n] c(1) by auto
  from take_digits [OF this assms] c show ?thesis
    by (auto simp: scan_int_def)
qed

lemma scan_tail_end:
  assumes "value_end r"
  shows "scan_frac r = ([], r)" and "scan_exp r = ([], r)"
  using assms by (cases r; auto simp: scan_frac_def scan_exp_def value_end_def Let_def)+

lemma scan_num_int:
  assumes "value_end r" and "length (nat_str (nat \<bar>i\<bar>)) \<le> 4300"
  shows "scan_num fl (int_str i @ r) = Inr (JInt i, r)"
proof -
  obtain c q where c: "nat_str (nat \<bar>i\<bar>) = c # q" "is_digit c" using nat_str_Cons by blast
  then have "c \<noteq> 45" by (simp add: is_digit_def)
  then show ?thesis
    using assms c scan_int_nat [OF assms(1), of "nat \<bar>i\<bar>"] scan_tail_end [OF assms(1)]
    by (cases "i < 0") (simp_all add: scan_num_def int_str_def Let_def int_of_nat_str [of "nat \<bar>i\<bar>", unfolded c(1)])
qed

lemma starts_hd: "starts (w # ws) (c # s) \<Longrightarrow> c = hd (asc [w])"
  by (simp add: starts_def asc_def)

lemma scan_atom_num:
  assumes "is_digit c \<or> (c = 45 \<and> s \<noteq> [] \<and> is_digit (hd s))"
  shows "scan_atom fl (c # s) = scan_num fl (c # s)"
proof -
  have "c \<noteq> 110 \<and> c \<noteq> 116 \<and> c \<noteq> 102 \<and> c \<noteq> 78 \<and> c \<noteq> 73" using assms by (auto simp: is_digit_def)
  moreover have "\<not> starts ''-Infinity'' (c # s)"
  proof
    assume h: "starts ''-Infinity'' (c # s)"
    then have "c = 45" by (simp add: starts_def asc_def)
    then obtain d q where "s = d # q" "is_digit d"
      using assms by (cases s) (auto simp: is_digit_def)
    with h show False by (simp add: starts_def asc_def is_digit_def)
  qed
  ultimately show ?thesis
    by (auto simp: scan_atom_def dest!: starts_hd simp: asc_def)
qed

lemma scan_atom_int:
  assumes "value_end r" and "length (nat_str (nat \<bar>i\<bar>)) \<le> 4300"
  shows "scan_atom fl (int_str i @ r) = Inr (JInt i, r)"
proof -
  obtain c q where c: "nat_str (nat \<bar>i\<bar>) = c # q" "is_digit c" using nat_str_Cons by blast
  have "scan_atom fl (int_str i @ r) = scan_num fl (int_str i @ r)"
    by (cases "i < 0") (use c in \<open>simp_all add: int_str_def scan_atom_num\<close>)
  with scan_num_int [OF assms] show ?thesis by simp
qed

section \<open>Values\<close>

text \<open>
  The values that are read back: integers within the limit, floats in the form \<open>repr\<close>
  prints (their text is scanned as itself), keys that are distinct.
\<close>

definition float_ok :: "(pstr \<Rightarrow> pstr) \<Rightarrow> pstr \<Rightarrow> bool" where
  "float_ok fl t \<longleftrightarrow> t \<noteq> [] \<and> \<not> json_ws (hd t) \<and> hd t \<notin> {34, 91, 93, 123, 65279} \<and>
     (\<forall>c \<in> set t. 32 \<le> c) \<and> (\<forall>r. value_end r \<longrightarrow> scan_atom fl (t @ r) = Inr (JFloat t, r))"

fun json_ok :: "(pstr \<Rightarrow> pstr) \<Rightarrow> json \<Rightarrow> bool" where
  "json_ok fl JNull = True"
| "json_ok fl (JBool b) = True"
| "json_ok fl (JInt i) = (length (nat_str (nat \<bar>i\<bar>)) \<le> 4300)"
| "json_ok fl (JFloat t) = float_ok fl t"
| "json_ok fl (JStr s) = True"
| "json_ok fl (JList vs) = list_all (json_ok fl) vs"
| "json_ok fl (JDict kvs) = (distinct (map fst kvs) \<and> list_all (\<lambda>kv. json_ok fl (snd kv)) kvs)"

definition fits_parse :: "(pstr \<Rightarrow> pstr) \<Rightarrow> json \<Rightarrow> bool" where
  "fits_parse fl v \<longleftrightarrow> (\<exists>n. \<forall>r. value_end r \<longrightarrow> parse_val fl n (dumps v @ r) = Inr (v, r))"

lemma dumps_head:
  assumes "json_ok fl v"
  shows "\<exists>c q. dumps v = c # q \<and> \<not> json_ws c \<and> c \<noteq> 93 \<and> c \<noteq> 65279"
proof (cases v)
  case (JInt i)
  obtain c q where "nat_str (nat \<bar>i\<bar>) = c # q" "is_digit c" using nat_str_Cons by blast
  then show ?thesis
    by (cases "i < 0") (auto simp: JInt int_str_def json_ws_def is_digit_def)
next
  case (JFloat t)
  then show ?thesis
    using assms by (cases t) (auto simp: float_ok_def)
qed (auto simp: asc_def json_ws_def dump_str_def)

lemma skip_ws_dumps: "json_ok fl v \<Longrightarrow> skip_ws (dumps v @ r) = dumps v @ r"
  using dumps_head [of fl v] by (auto simp: skip_ws_def)

lemma skip_ws_Cons: "\<not> json_ws c \<Longrightarrow> skip_ws (c # r) = c # r"
  by (simp add: skip_ws_def)

lemma value_end_seps: "value_end (93 # r)" "value_end (44 # r)" "value_end (125 # r)" "value_end []"
  by (simp_all add: value_end_def is_digit_def)

lemma json_ws_seps: "\<not> json_ws 93" "\<not> json_ws 44" "\<not> json_ws 125" "\<not> json_ws 34" "\<not> json_ws 58" "json_ws 32"
  by (simp_all add: json_ws_def)

lemma parse_str_dump: "parse_val fl (Suc n) (dump_str s @ r) = Inr (JStr s, r)"
  using scan_str_esc [of s r] by (simp add: dump_str_def)

lemma fits_JInt: "json_ok fl (JInt i) \<Longrightarrow> fits_parse fl (JInt i)"
proof -
  assume ok: "json_ok fl (JInt i)"
  obtain c q where c: "nat_str (nat \<bar>i\<bar>) = c # q" "is_digit c" using nat_str_Cons by blast
  have "parse_val fl 1 (int_str i @ r) = Inr (JInt i, r)" if "value_end r" for r
    using scan_atom_int [OF that, of i fl] ok c
    by (cases "i < 0") (auto simp: int_str_def is_digit_def)
  then show ?thesis unfolding fits_parse_def dumps.simps by blast
qed

lemma fits_JFloat: "json_ok fl (JFloat t) \<Longrightarrow> fits_parse fl (JFloat t)"
proof -
  assume ok: "json_ok fl (JFloat t)"
  then obtain c q where c: "t = c # q" by (cases t) (auto simp: float_ok_def)
  have "parse_val fl 1 (t @ r) = Inr (JFloat t, r)" if "value_end r" for r
    using ok that c by (auto simp: float_ok_def)
  then show ?thesis unfolding fits_parse_def dumps.simps by blast
qed

lemma fits_elems:
  assumes "\<forall>v \<in> set vs. json_ok fl v \<and> fits_parse fl v" and "vs \<noteq> []"
  shows "\<exists>n. \<forall>r. parse_elems fl n (join_with (asc '', '') (map dumps vs) @ 93 # r) = Inr (vs, r)"
  using assms
proof (induction vs)
  case (Cons v vs)
  obtain n where n: "value_end r \<Longrightarrow> parse_val fl n (dumps v @ r) = Inr (v, r)" for r
    using Cons.prems(1) by (auto simp: fits_parse_def)
  show ?case
  proof (cases vs)
    case Nil
    then have "parse_elems fl (Suc n) (join_with (asc '', '') (map dumps (v # vs)) @ 93 # r) = Inr (v # vs, r)" for r
      using n [OF value_end_seps(1)] by (simp add: skip_ws_Cons json_ws_seps)
    then show ?thesis by blast
  next
    case ws: (Cons w ws)
    obtain m where m: "parse_elems fl m (join_with (asc '', '') (map dumps vs) @ 93 # r) = Inr (vs, r)" for r
      using Cons.IH Cons.prems(1) ws by fastforce
    have shape: "join_with (asc '', '') (map dumps (v # vs)) @ 93 # r =
        dumps v @ 44 # 32 # join_with (asc '', '') (map dumps vs) @ 93 # r" for r
      by (simp add: ws asc_def)
    have "skip_ws (32 # join_with (asc '', '') (map dumps vs) @ 93 # r) =
        join_with (asc '', '') (map dumps vs) @ 93 # r" for r
    proof -
      obtain c q where "dumps w = c # q" "\<not> json_ws c"
        using dumps_head [of fl w] Cons.prems(1) ws by auto
      then show ?thesis
        by (cases ws) (simp_all add: ws skip_ws_def json_ws_seps)
    qed
    then have "parse_elems fl (Suc (max n m)) (join_with (asc '', '') (map dumps (v # vs)) @ 93 # r) =
        Inr (v # vs, r)" for r
      unfolding shape
      using parse_val_le [OF n [OF value_end_seps(2)], of "max n m"] parse_elems_le [OF m, of "max n m"]
      by (simp add: skip_ws_Cons json_ws_seps)
    then show ?thesis by blast
  qed
qed simp

definition member :: "pstr \<times> json \<Rightarrow> pstr" where
  "member kv = dump_str (fst kv) @ asc '': '' @ dumps (snd kv)"

lemma dict_set_new: "k \<notin> fst ` set d \<Longrightarrow> dict_set k v d = d @ [(k, v)]"
  by (induction d) auto

lemma parse_member:
  assumes "json_ok fl v" and "parse_val fl n (dumps v @ c # r) = Inr (v, c # r)" and "\<not> json_ws c"
  shows "parse_members fl (Suc n) acc (member (k, v) @ c # r) =
    (if c = 125 then Inr (dict_set k v acc, r)
     else if c = 44 then parse_members fl n (dict_set k v acc) (skip_ws r) else Inl DecodeError)"
proof -
  have colon: "skip_ws (asc '': '' @ dumps v @ c # r) = 58 # 32 # dumps v @ c # r"
    by (simp add: asc_def skip_ws_def json_ws_seps)
  have space: "skip_ws (32 # dumps v @ c # r) = dumps v @ c # r"
    using skip_ws_dumps [OF assms(1)] by (simp add: skip_ws_def json_ws_seps)
  show ?thesis
    using scan_str_esc [of k "asc '': '' @ dumps v @ c # r"] assms(2,3) colon space
    by (simp add: member_def dump_str_def skip_ws_Cons)
qed

lemma fits_members:
  assumes "\<forall>kv \<in> set kvs. json_ok fl (snd kv) \<and> fits_parse fl (snd kv)" and "kvs \<noteq> []"
    and "distinct (map fst kvs)"
  shows "\<exists>n. \<forall>acc r. fst ` set acc \<inter> fst ` set kvs = {} \<longrightarrow>
    parse_members fl n acc (join_with (asc '', '') (map member kvs) @ 125 # r) = Inr (acc @ kvs, r)"
  using assms
proof (induction kvs)
  case (Cons kv kvs)
  obtain k v where kv: "kv = (k, v)" by (cases kv)
  have ok: "json_ok fl v" using Cons.prems(1) kv by simp
  obtain n where n: "value_end r \<Longrightarrow> parse_val fl n (dumps v @ r) = Inr (v, r)" for r
    using Cons.prems(1) kv by (auto simp: fits_parse_def)
  show ?case
  proof (cases kvs)
    case Nil
    have "parse_members fl (Suc n) acc (join_with (asc '', '') (map member (kv # kvs)) @ 125 # r) = Inr (acc @ kv # kvs, r)"
      if "fst ` set acc \<inter> fst ` set (kv # kvs) = {}" for acc r
      using parse_member [OF ok n [OF value_end_seps(3)] json_ws_seps(3), of acc k] that
      by (simp add: Nil kv dict_set_new)
    then show ?thesis by blast
  next
    case wk: (Cons w ws)
    have "\<exists>m. \<forall>acc r. fst ` set acc \<inter> fst ` set kvs = {} \<longrightarrow>
        parse_members fl m acc (join_with (asc '', '') (map member kvs) @ 125 # r) = Inr (acc @ kvs, r)"
      using Cons.prems wk by (intro Cons.IH) auto
    then obtain m where m: "\<forall>acc r. fst ` set acc \<inter> fst ` set kvs = {} \<longrightarrow>
        parse_members fl m acc (join_with (asc '', '') (map member kvs) @ 125 # r) = Inr (acc @ kvs, r)"
      by blast
    have shape: "join_with (asc '', '') (map member (kv # kvs)) @ 125 # r =
        member (k, v) @ 44 # 32 # join_with (asc '', '') (map member kvs) @ 125 # r" for r
      by (simp add: wk asc_def kv)
    have ws: "skip_ws (32 # join_with (asc '', '') (map member kvs) @ 125 # r) =
        join_with (asc '', '') (map member kvs) @ 125 # r" for r
      by (cases ws) (simp_all add: wk skip_ws_def json_ws_seps member_def dump_str_def)
    have "parse_members fl (Suc (max n m)) acc (join_with (asc '', '') (map member (kv # kvs)) @ 125 # r) =
        Inr (acc @ kv # kvs, r)"
      if d: "fst ` set acc \<inter> fst ` set (kv # kvs) = {}" for acc r
    proof -
      have "dict_set k v acc = acc @ [(k, v)]" using d kv by (simp add: dict_set_new)
      moreover have "fst ` set (acc @ [(k, v)]) \<inter> fst ` set kvs = {}"
        using d Cons.prems(3) kv by auto
      ultimately show ?thesis
        unfolding shape
        using parse_member [OF ok parse_val_le [OF n [OF value_end_seps(2)], of "max n m"] json_ws_seps(2), of acc k]
          parse_members_le [OF m [rule_format, of "acc @ [(k, v)]"], of "max n m"]
        by (simp add: ws kv)
    qed
    then show ?thesis by blast
  qed
qed simp

lemma fits_all: "json_ok fl v \<Longrightarrow> fits_parse fl v"
proof (induction v)
  case (JList vs)
  show ?case
  proof (cases "vs = []")
    case True
    have "parse_val fl 1 (dumps (JList []) @ r) = Inr (JList [], r)" for r
      by (simp add: skip_ws_Cons json_ws_seps)
    then show ?thesis unfolding True fits_parse_def by blast
  next
    case False
    have all: "\<forall>v \<in> set vs. json_ok fl v \<and> fits_parse fl v"
      using JList by (auto simp: list_all_iff)
    obtain n where n: "parse_elems fl n (join_with (asc '', '') (map dumps vs) @ 93 # r) = Inr (vs, r)" for r
      using fits_elems [OF all False] by blast
    obtain v ws where v: "vs = v # ws" using False by (cases vs) auto
    obtain c q where c: "dumps v = c # q" "\<not> json_ws c" "c \<noteq> 93"
      using dumps_head [of fl v] all v by auto
    have h: "\<exists>q'. join_with (asc '', '') (map dumps vs) = c # q'"
      using c by (cases ws) (simp_all add: v)
    then obtain q' where q': "join_with (asc '', '') (map dumps vs) = c # q'" by blast
    have "parse_val fl (Suc n) (dumps (JList vs) @ r) = Inr (JList vs, r)" for r
      using n [of r] c by (simp add: q' skip_ws_Cons)
    then show ?thesis unfolding fits_parse_def by blast
  qed
next
  case (JDict kvs)
  have shape: "map (\<lambda>(k, v). dump_str k @ asc '': '' @ dumps v) kvs = map member kvs"
    by (simp add: member_def split_def)
  show ?case
  proof (cases "kvs = []")
    case True
    have "parse_val fl 1 (dumps (JDict []) @ r) = Inr (JDict [], r)" for r
      by (simp add: skip_ws_Cons json_ws_seps)
    then show ?thesis unfolding True fits_parse_def by blast
  next
    case False
    have all: "\<forall>kv \<in> set kvs. json_ok fl (snd kv) \<and> fits_parse fl (snd kv)"
      using JDict by (auto simp: list_all_iff snds.simps)
    have dist: "distinct (map fst kvs)" using JDict.prems by simp
    from fits_members [OF all False dist] obtain n where
      m: "\<forall>acc r. fst ` set acc \<inter> fst ` set kvs = {} \<longrightarrow>
        parse_members fl n acc (join_with (asc '', '') (map member kvs) @ 125 # r) = Inr (acc @ kvs, r)"
      by blast
    have n: "parse_members fl n [] (join_with (asc '', '') (map member kvs) @ 125 # r) = Inr (kvs, r)" for r
      using m [rule_format, of "[]" r] by simp
    obtain q' where q': "join_with (asc '', '') (map member kvs) = 34 # q'"
      using False by (cases kvs; cases "tl kvs") (auto simp: member_def dump_str_def)
    have "parse_val fl (Suc n) (dumps (JDict kvs) @ r) = Inr (JDict kvs, r)" for r
      using n [of r] by (simp add: shape q' skip_ws_Cons json_ws_seps)
    then show ?thesis unfolding fits_parse_def by blast
  qed
next
  case (JStr s)
  show ?case
    unfolding fits_parse_def dumps.simps by (intro exI [of _ 1] allI impI) (simp add: parse_str_dump [of _ 0, simplified])
next
  case JNull
  have "parse_val fl 1 (dumps JNull @ r) = Inr (JNull, r)" for r
    by (simp add: asc_def scan_atom_def starts_def)
  then show ?case unfolding fits_parse_def by blast
next
  case (JBool b)
  have "parse_val fl 1 (dumps (JBool b) @ r) = Inr (JBool b, r)" for r
    by (cases b) (simp_all add: asc_def scan_atom_def starts_def)
  then show ?case unfolding fits_parse_def by blast
qed (auto intro: fits_JInt fits_JFloat)

section \<open>One line\<close>

text \<open>What is printed has no control character: it is one line, whatever texts it contains.\<close>

lemma hex_char_print: "d < 16 \<Longrightarrow> 32 \<le> hex_char d"
  by (auto simp: hex_char_def)

lemma esc_char_print: "x \<in> set (esc_char c) \<Longrightarrow> 32 \<le> x"
  using hex_char_print by (auto simp: esc_char_def hex4_def dest: hex_digits_lt split: if_splits)

lemma dump_str_print: "x \<in> set (dump_str s) \<Longrightarrow> 32 \<le> x"
  by (auto simp: dump_str_def esc_char_print)

lemma join_print: "x \<in> set (join_with sep ws) \<Longrightarrow> x \<in> set sep \<or> (\<exists>w \<in> set ws. x \<in> set w)"
  by (induction sep ws rule: join_with.induct) auto

lemma dumps_print: "json_ok fl v \<Longrightarrow> x \<in> set (dumps v) \<Longrightarrow> 32 \<le> x"
proof (induction v arbitrary: x rule: dumps.induct)
  case (3 i)
  then show ?case
    using dec_chars by (fastforce simp: int_str_def is_digit_def split: if_splits)
next
  case (6 vs)
  then show ?case by (auto simp: asc_def list_all_iff dest!: join_print)
next
  case (7 kvs)
  then show ?case
    by (auto simp: asc_def list_all_iff dest!: join_print dump_str_print) (metis snd_conv)
qed (auto simp: asc_def float_ok_def dump_str_print split: if_splits)

text \<open>
  \<open>json.loads(json.dumps(v, ensure_ascii=False))\<close> is \<open>v\<close>: every value with distinct keys,
  texts of any characters, integers within the limit and floats in printed form is read back
  as it was, also with white space around it.
\<close>

lemma loads_dumps:
  assumes "json_ok fl v" and "list_all json_ws a" and "list_all json_ws b"
  shows "loads fl (a @ dumps v @ b) = Inr v"
proof -
  obtain n where n: "value_end r \<Longrightarrow> parse_val fl n (dumps v @ r) = Inr (v, r)" for r
    using fits_all [OF assms(1)] by (auto simp: fits_parse_def)
  obtain c q where c: "dumps v = c # q" "\<not> json_ws c" "c \<noteq> 65279"
    using dumps_head [OF assms(1)] by blast
  have b: "value_end b" "skip_ws b = []"
    using assms(3) by (cases b; auto simp: value_end_def is_digit_def json_ws_def skip_ws_def list_all_iff)+
  have skip: "skip_ws (a @ dumps v @ b) = dumps v @ b"
    using assms(2) c by (induction a) (auto simp: skip_ws_def)
  have bom: "\<not> (a @ dumps v @ b \<noteq> [] \<and> hd (a @ dumps v @ b) = 65279)"
    using assms(2) c by (cases a) (auto simp: json_ws_def)
  have "parse_val fl (json_fuel (a @ dumps v @ b)) (dumps v @ b) = Inr (v, b)"
    by (rule parse_val_decided [OF n [OF b(1)]]) (simp add: json_fuel_def)
  then show ?thesis
    using skip bom b(2) by (simp add: loads_def)
qed

lemma loads_dumps_witness:
  "loads (\<lambda>t. t) (dumps (JDict [(asc ''a'', JList [JInt 1, JStr [34, 10, 20320]]), (asc ''b'', JNull)])) =
   Inr (JDict [(asc ''a'', JList [JInt 1, JStr [34, 10, 20320]]), (asc ''b'', JNull)])"
  using loads_dumps [of "\<lambda>t. t" "JDict [(asc ''a'', JList [JInt 1, JStr [34, 10, 20320]]), (asc ''b'', JNull)]" "[]" "[]"]
  by (simp add: nat_str_def dec_digits.simps [of "Suc 0"]) (simp add: asc_def)

text \<open>
  Reading ends: the fuel, twice the length of the text, is never used up, so the answer is a
  value, a syntax error or the refusal of an over-long integer.
\<close>

lemma loads_total: "loads fl s \<noteq> Inl OutOfFuel"
proof -
  have "parse_val fl (json_fuel s) (skip_ws s) \<noteq> Inl OutOfFuel"
    using parse_fuel [THEN conjunct1, rule_format, of "skip_ws s" "json_fuel s" fl] length_skip_ws [of s]
    by (simp add: json_fuel_def)
  then show ?thesis
    by (auto simp: loads_def split: sum.splits)
qed

end
