(* ===== verification/Llm_Properties.thy ===== *)
theory Llm_Properties
  imports Llm Json_Properties
begin

text \<open>
  The summarizer: which attempt decides, what is asked and slept on the way, which JSON object
  is found in an answer, and the shape of the streams.
\<close>

section \<open>The retry loop\<close>

text \<open>The pause after the k-th attempt; \<open>None\<close> when that attempt decides.\<close>

definition attempt_delay ::
  "(pstr \<Rightarrow> pstr) \<Rightarrow> (pstr \<Rightarrow> time option) \<Rightarrow> ((pstr \<times> json) list \<Rightarrow> pstr + summary_result) \<Rightarrow>
   llm_cfg \<Rightarrow> answers \<Rightarrow> pstr \<Rightarrow> nat \<Rightarrow> time option" where
  "attempt_delay fl float_of validate cfg ans transcript k =
     (case fst (llm_attempt fl validate cfg ans k transcript) of
        Inr _ \<Rightarrow> None | Inl e \<Rightarrow> retry_delay float_of cfg e k)"

definition attempt_requests where
  "attempt_requests fl validate cfg ans transcript k = snd (llm_attempt fl validate cfg ans k transcript)"

lemma llm_loop_retried:
  assumes "\<forall>j. k \<le> j \<and> j < k + m \<longrightarrow> attempt_delay fl float_of validate cfg ans transcript j \<noteq> None"
    and "m \<le> left"
  shows "\<exists>prev'. (0 < m \<longrightarrow> fst (llm_attempt fl validate cfg ans (k + m - 1) transcript) = Inl (the prev') \<and> prev' \<noteq> None) \<and>
    llm_loop fl float_of err_str validate cfg ans transcript k left prev tr =
    llm_loop fl float_of err_str validate cfg ans transcript (k + m) (left - m) (if m = 0 then prev else prev')
      \<lparr>tr_requests = tr_requests tr @ concat (map (attempt_requests fl validate cfg ans transcript) [k..<k + m]),
       tr_sleeps = tr_sleeps tr @
         map (\<lambda>j. the (attempt_delay fl float_of validate cfg ans transcript j))
           (filter (\<lambda>j. j < llm_max_retries cfg) [k..<k + m])\<rparr>"
  using assms
proof (induction m arbitrary: k left prev tr)
  case (Suc m)
  obtain left' where l: "left = Suc left'" using Suc.prems(2) by (cases left) auto
  obtain d where d: "attempt_delay fl float_of validate cfg ans transcript k = Some d"
    using Suc.prems(1) by fastforce
  then obtain e made where a: "llm_attempt fl validate cfg ans k transcript = (Inl e, made)"
    "retry_delay float_of cfg e k = Some d"
    by (cases "llm_attempt fl validate cfg ans k transcript")
      (auto simp: attempt_delay_def split: sum.splits)
  let ?tr = "tr\<lparr>tr_requests := tr_requests tr @ made,
      tr_sleeps := tr_sleeps tr @ (if k < llm_max_retries cfg then [d] else [])\<rparr>"
  have up: "[k..<k + Suc m] = k # [Suc k..<Suc k + m]" by (simp add: upt_conv_Cons)
  have "\<forall>j. Suc k \<le> j \<and> j < Suc k + m \<longrightarrow> attempt_delay fl float_of validate cfg ans transcript j \<noteq> None"
    using Suc.prems(1) by auto
  from Suc.IH [OF this, of left' "Some e" ?tr] Suc.prems(2) l
  obtain prev' where p: "0 < m \<longrightarrow> fst (llm_attempt fl validate cfg ans (Suc k + m - 1) transcript) = Inl (the prev') \<and> prev' \<noteq> None"
    "llm_loop fl float_of err_str validate cfg ans transcript (Suc k) left' (Some e) ?tr =
     llm_loop fl float_of err_str validate cfg ans transcript (Suc k + m) (left' - m) (if m = 0 then Some e else prev')
      \<lparr>tr_requests = tr_requests ?tr @ concat (map (attempt_requests fl validate cfg ans transcript) [Suc k..<Suc k + m]),
       tr_sleeps = tr_sleeps ?tr @
         map (\<lambda>j. the (attempt_delay fl float_of validate cfg ans transcript j))
           (filter (\<lambda>j. j < llm_max_retries cfg) [Suc k..<Suc k + m])\<rparr>"
    by auto
  have step: "llm_loop fl float_of err_str validate cfg ans transcript k left prev tr =
      llm_loop fl float_of err_str validate cfg ans transcript (Suc k) left' (Some e) ?tr"
    by (simp add: l a)
  have made: "attempt_requests fl validate cfg ans transcript k = made"
    by (simp add: attempt_requests_def a)
  show ?case
  proof (intro exI [of _ "if m = 0 then Some e else prev'"] conjI)
    show "0 < Suc m \<longrightarrow> fst (llm_attempt fl validate cfg ans (k + Suc m - 1) transcript) =
        Inl (the (if m = 0 then Some e else prev')) \<and> (if m = 0 then Some e else prev') \<noteq> None"
      using p(1) a(1) by (cases m) auto
    show "llm_loop fl float_of err_str validate cfg ans transcript k left prev tr =
        llm_loop fl float_of err_str validate cfg ans transcript (k + Suc m) (left - Suc m)
          (if Suc m = 0 then prev else if m = 0 then Some e else prev')
          \<lparr>tr_requests = tr_requests tr @ concat (map (attempt_requests fl validate cfg ans transcript) [k..<k + Suc m]),
           tr_sleeps = tr_sleeps tr @
             map (\<lambda>j. the (attempt_delay fl float_of validate cfg ans transcript j))
               (filter (\<lambda>j. j < llm_max_retries cfg) [k..<k + Suc m])\<rparr>"
      unfolding step p(2) up by (simp add: l made d del: upt_Suc llm_loop.simps)
  qed
next
  case 0
  show ?case by (cases tr) simp
qed

lemma no_pause_after_last: "filter (\<lambda>j. j < k) [1..<Suc k] = [1..<k]"
proof (cases k)
  case (Suc i)
  then have "[1..<Suc k] = [1..<k] @ [k]" by simp
  then show ?thesis by simp
qed simp

lemma summarize_run:
  assumes "strip transcript \<noteq> []" and "k \<le> llm_max_retries cfg"
    and "\<forall>j. 1 \<le> j \<and> j \<le> k \<longrightarrow> attempt_delay fl float_of validate cfg ans transcript j \<noteq> None"
    and "k < llm_max_retries cfg \<longrightarrow> attempt_delay fl float_of validate cfg ans transcript (Suc k) = None"
  shows "summarize_model fl float_of err_str validate cfg ans transcript =
    ((if k < llm_max_retries cfg
     then (case fst (llm_attempt fl validate cfg ans (Suc k) transcript) of
             Inr r \<Rightarrow> Inr r | Inl e \<Rightarrow> Inl (RuntimeError (msg_failed (err_str e))))
     else Inl (RuntimeError (msg_exhausted k
            (if k = 0 then asc ''None''
             else err_str (projl (fst (llm_attempt fl validate cfg ans k transcript))))))),
     \<lparr>tr_requests = concat (map (attempt_requests fl validate cfg ans transcript)
                           [1..<Suc (min (Suc k) (llm_max_retries cfg))]),
      tr_sleeps = map (\<lambda>j. the (attempt_delay fl float_of validate cfg ans transcript j))
                   [1..<min (Suc k) (llm_max_retries cfg)]\<rparr>)"
proof -
  let ?delay = "\<lambda>j. the (attempt_delay fl float_of validate cfg ans transcript j)"
  let ?reqs = "attempt_requests fl validate cfg ans transcript"
  let ?max = "llm_max_retries cfg"
  have all: "\<forall>j. 1 \<le> j \<and> j < 1 + k \<longrightarrow> attempt_delay fl float_of validate cfg ans transcript j \<noteq> None"
    using assms(3) by auto
  from llm_loop_retried [OF all assms(2), of err_str None "\<lparr>tr_requests = [], tr_sleeps = []\<rparr>"]
  obtain prev where prev: "0 < k \<longrightarrow> fst (llm_attempt fl validate cfg ans k transcript) = Inl (the prev) \<and> prev \<noteq> None"
    and loop: "summarize_model fl float_of err_str validate cfg ans transcript =
      llm_loop fl float_of err_str validate cfg ans transcript (Suc k) (?max - k) (if k = 0 then None else prev)
        \<lparr>tr_requests = concat (map ?reqs [1..<Suc k]),
         tr_sleeps = map ?delay (filter (\<lambda>j. j < ?max) [1..<Suc k])\<rparr>"
    using assms(1) by (auto simp: summarize_model_def)
  show ?thesis
  proof (cases "k < ?max")
    case True
    then obtain left where left: "?max - k = Suc left" by (cases "?max - k") auto
    have sl: "filter (\<lambda>j. j < ?max) [1..<Suc k] = [1..<Suc k]" using True by (intro filter_True) auto
    have up: "concat (map ?reqs [1..<Suc (Suc k)]) = concat (map ?reqs [1..<Suc k]) @ ?reqs (Suc k)" by simp
    have m: "min (Suc k) ?max = Suc k" using True by simp
    obtain a made where a: "llm_attempt fl validate cfg ans (Suc k) transcript = (a, made)" by force
    have nd: "attempt_delay fl float_of validate cfg ans transcript (Suc k) = None" using assms(4) True by simp
    show ?thesis
      unfolding loop left m up sl
      using True a nd
      by (cases a) (simp_all add: attempt_requests_def attempt_delay_def del: upt_Suc)
  next
    case False
    then have k: "k = ?max" using assms(2) by simp
    show ?thesis
      using prev no_pause_after_last [of ?max] unfolding loop by (auto simp: k [symmetric] del: upt_Suc)
  qed
qed

text \<open>C29.
  \<open>summarize_model\<close> returns what the first decisive attempt returns: attempts whose failure is
  transient (a rate limit, a lost connection, a 429 or 5xx, an unusable answer) are retried
  after their pause; a valid answer ends the call with that summary, any other failure with a
  \<open>RuntimeError\<close>; when all \<open>max_retries\<close> attempts are transient failures it ends with a
  \<open>RuntimeError\<close> that quotes the last one.  Nothing is requested after the decision, and
  there is one pause between two attempts and none after the last.
\<close>

theorem summarize_first_decisive:
  assumes "strip transcript \<noteq> []" and "k \<le> llm_max_retries cfg"
    and "\<forall>j. 1 \<le> j \<and> j \<le> k \<longrightarrow> attempt_delay fl float_of validate cfg ans transcript j \<noteq> None"
    and "k < llm_max_retries cfg \<longrightarrow> attempt_delay fl float_of validate cfg ans transcript (Suc k) = None"
  shows "summarize_model fl float_of err_str validate cfg ans transcript =
    ((if k < llm_max_retries cfg
     then (case fst (llm_attempt fl validate cfg ans (Suc k) transcript) of
             Inr r \<Rightarrow> Inr r | Inl e \<Rightarrow> Inl (RuntimeError (msg_failed (err_str e))))
     else Inl (RuntimeError (msg_exhausted k
            (if k = 0 then asc ''None''
             else err_str (projl (fst (llm_attempt fl validate cfg ans k transcript))))))),
     \<lparr>tr_requests = concat (map (attempt_requests fl validate cfg ans transcript)
                           [1..<Suc (min (Suc k) (llm_max_retries cfg))]),
      tr_sleeps = map (\<lambda>j. the (attempt_delay fl float_of validate cfg ans transcript j))
                   [1..<min (Suc k) (llm_max_retries cfg)]\<rparr>)"
  by (rule summarize_run [OF assms])

lemma first_decisive_exists:
  "\<exists>k \<le> m. (\<forall>j. 1 \<le> j \<and> j \<le> k \<longrightarrow> P j) \<and> (k < m \<longrightarrow> \<not> P (Suc k))"
proof (induction m)
  case (Suc m)
  then obtain k where k: "k \<le> m" "\<forall>j. 1 \<le> j \<and> j \<le> k \<longrightarrow> P j" "k < m \<longrightarrow> \<not> P (Suc k)" by blast
  show ?case
  proof (cases "k = m \<and> P (Suc m)")
    case True
    with k show ?thesis by (intro exI [of _ "Suc m"]) (auto simp: le_Suc_eq)
  next
    case False
    with k show ?thesis by (intro exI [of _ k]) auto
  qed
qed simp

lemma attempt_requests_length: "length (attempt_requests fl validate cfg ans transcript k) \<le> 2"
  by (auto simp: attempt_requests_def llm_attempt_def call_llm_def Let_def split: prod.splits sum.splits if_splits)

lemma attempt_delay_backoff:
  assumes "\<forall>h. float_of h = None" and "attempt_delay fl float_of validate cfg ans transcript j = Some d"
  shows "d = backoff_delay cfg j"
  using assms by (auto simp: attempt_delay_def retry_delay_def rate_limit_delay_def
      split: sum.splits llm_error.splits if_splits option.splits)

lemma sum_backoff: "sum_list (map (backoff_delay cfg) [1..<Suc n]) = base_backoff cfg * (2 ^ n - 1)"
  by (induction n) (simp_all add: backoff_delay_def algebra_simps)

text \<open>A gateway that is down at first and then answers.\<close>

definition sample_llm :: llm_cfg where
  "sample_llm = \<lparr>model = asc ''m'', max_tokens = 512, llm_max_retries = 3, base_backoff = 1000000\<rparr>"

definition sample_answers :: answers where
  "sample_answers k rq =
     (if k = 1 then Inl (APIStatusError 503 (asc ''down''))
      else Inr [\<lparr>finish_reason = Some (asc ''stop''), content = Some (dumps (JDict []))\<rparr>])"

definition sample_validate :: "(pstr \<times> json) list \<Rightarrow> pstr + summary_result" where
  "sample_validate d = Inr \<lparr>sr_summary = asc ''s'', sr_key_points = [], sr_todos = []\<rparr>"

lemma sample_attempts:
  "attempt_delay (\<lambda>t. t) (\<lambda>_. None) sample_validate sample_llm sample_answers (asc ''hi'') 1 = Some 1000000"
  "llm_attempt (\<lambda>t. t) sample_validate sample_llm sample_answers 2 (asc ''hi'') =
    (Inr \<lparr>sr_summary = asc ''s'', sr_key_points = [], sr_todos = []\<rparr>,
     [llm_request_of sample_llm (asc ''hi'') True False])"
proof -
  show "attempt_delay (\<lambda>t. t) (\<lambda>_. None) sample_validate sample_llm sample_answers (asc ''hi'') 1 = Some 1000000"
    by (simp add: attempt_delay_def llm_attempt_def call_llm_def sample_answers_def status_code_def
        retry_delay_def is_retriable_api_status_def backoff_delay_def sample_llm_def)
  have "strip (dumps (JDict [])) = dumps (JDict [])"
    by (simp add: strip_def strip_by_def lstrip_by_def rstrip_by_def is_space_def)
  moreover have "parse_json_safely (\<lambda>t. t) (dumps (JDict [])) = Inr []"
    using loads_dumps [of "\<lambda>t. t" "JDict []" "[]" "[]"] by (simp add: parse_json_safely_def parse_layer_def)
  moreover have "asc ''stop'' \<noteq> asc ''length''" by (simp add: asc_def)
  ultimately show "llm_attempt (\<lambda>t. t) sample_validate sample_llm sample_answers 2 (asc ''hi'') =
    (Inr \<lparr>sr_summary = asc ''s'', sr_key_points = [], sr_todos = []\<rparr>,
     [llm_request_of sample_llm (asc ''hi'') True False])"
    by (simp add: llm_attempt_def call_llm_def sample_answers_def check_response_def sample_validate_def
        del: dumps.simps) (simp)
qed

lemma sample_transcript: "strip (asc ''hi'') \<noteq> []"
  by (simp add: asc_def strip_def strip_by_def lstrip_by_def rstrip_by_def is_space_def)

theorem summarize_first_decisive_witness:
  "fst (summarize_model (\<lambda>t. t) (\<lambda>_. None) (\<lambda>_. []) sample_validate sample_llm sample_answers (asc ''hi'')) =
     Inr \<lparr>sr_summary = asc ''s'', sr_key_points = [], sr_todos = []\<rparr> \<and>
   tr_sleeps (snd (summarize_model (\<lambda>t. t) (\<lambda>_. None) (\<lambda>_. []) sample_validate sample_llm sample_answers (asc ''hi''))) =
     [1000000]"
proof -
  have "\<forall>j. 1 \<le> j \<and> j \<le> 1 \<longrightarrow>
      attempt_delay (\<lambda>t. t) (\<lambda>_. None) sample_validate sample_llm sample_answers (asc ''hi'') j \<noteq> None"
    using sample_attempts(1) by (auto simp: le_antisym)
  moreover have "attempt_delay (\<lambda>t. t) (\<lambda>_. None) sample_validate sample_llm sample_answers (asc ''hi'') (Suc 1) = None"
    using sample_attempts(2) by (simp add: attempt_delay_def numeral_2_eq_2)
  moreover have "llm_max_retries sample_llm = 3" by (simp add: sample_llm_def)
  ultimately show ?thesis
    using summarize_first_decisive [OF sample_transcript, of 1 sample_llm "\<lambda>t. t" "\<lambda>_. None" sample_validate
        sample_answers "\<lambda>_. []"] sample_attempts
    by (simp add: numeral_2_eq_2)
qed

lemma requests_length: "length (concat (map (attempt_requests fl validate cfg ans transcript) [1..<Suc n])) \<le> 2 * n"
proof (induction n)
  case (Suc n)
  have "concat (map (attempt_requests fl validate cfg ans transcript) [1..<Suc (Suc n)]) =
      concat (map (attempt_requests fl validate cfg ans transcript) [1..<Suc n]) @
      attempt_requests fl validate cfg ans transcript (Suc n)" by simp
  with Suc attempt_requests_length [of fl validate cfg ans transcript "Suc n"] show ?case
    by (simp del: upt_Suc)
qed simp

text \<open>The run of a summary is that of the first decisive attempt, wherever it is.\<close>

lemma summarize_trace:
  assumes "strip transcript \<noteq> []"
    and "summarize_model fl float_of err_str validate cfg ans transcript = (res, tr)"
  obtains n where "n \<le> llm_max_retries cfg" and "1 \<le> llm_max_retries cfg \<Longrightarrow> 1 \<le> n"
    and "\<And>j. 1 \<le> j \<Longrightarrow> j < n \<Longrightarrow> attempt_delay fl float_of validate cfg ans transcript j \<noteq> None"
    and "tr = \<lparr>tr_requests = concat (map (attempt_requests fl validate cfg ans transcript) [1..<Suc n]),
      tr_sleeps = map (\<lambda>j. the (attempt_delay fl float_of validate cfg ans transcript j)) [1..<n]\<rparr>"
proof -
  let ?max = "llm_max_retries cfg" and ?P = "\<lambda>j. attempt_delay fl float_of validate cfg ans transcript j \<noteq> None"
  obtain k where k: "k \<le> ?max" "\<forall>j. 1 \<le> j \<and> j \<le> k \<longrightarrow> ?P j" "k < ?max \<longrightarrow> \<not> ?P (Suc k)"
    using first_decisive_exists [of ?max ?P] by blast
  show thesis
    by (rule that [of "min (Suc k) ?max"])
      (use k(2) summarize_run [OF assms(1) k(1,2), of err_str] k(3) assms(2) in \<open>auto simp del: upt_Suc\<close>)
qed

lemma backoff_sum_le:
  assumes "n \<le> m" and "1 \<le> n" and "0 \<le> base_backoff cfg"
  shows "sum_list (map (backoff_delay cfg) [1..<n]) \<le> base_backoff cfg * (2 ^ (m - 1) - 1)"
proof -
  obtain i where i: "n = Suc i" using assms(2) by (cases n) auto
  have "(2::int) ^ i \<le> 2 ^ (m - 1)" using assms(1) i by (intro power_increasing) auto
  then show ?thesis
    unfolding i sum_backoff using assms(3) by (intro mult_left_mono diff_right_mono)
qed



section \<open>Extraction\<close>

lemma find_sub_hit: "find_sub p (p @ s) = Some 0"
proof (cases "p @ s")
  case (Cons a l)
  have "take (length p) (a # l) = p" by (simp add: Cons [symmetric])
  then show ?thesis by (simp add: Cons)
qed simp

lemma find_sub_none: "c \<in> set p \<Longrightarrow> c \<notin> set a \<Longrightarrow> find_sub p a = None"
proof (induction a)
  case (Cons x a)
  then have "take (length p) (x # a) \<noteq> p" by (metis in_set_takeD)
  with Cons show ?case by simp
qed auto

lemma find_sub_skip:
  assumes "c \<in> set p" and "c = hd p" and "c \<notin> set a"
  shows "find_sub p (a @ p @ s) = Some (length a)"
  using assms(3)
proof (induction a)
  case (Cons x a)
  have "take (length p) (x # a @ p @ s) \<noteq> p"
    using assms(1,2) Cons.prems by (cases p) auto
  with Cons show ?case by simp
qed (use find_sub_hit in simp)

lemma find_fence: "96 \<notin> set a \<Longrightarrow> find_sub fence (a @ fence @ s) = Some (length a)"
  by (rule find_sub_skip [of 96]) (simp_all add: fence_def)

lemma find_fence_none: "96 \<notin> set a \<Longrightarrow> find_sub fence a = None"
  by (rule find_sub_none [of 96]) (simp_all add: fence_def)

lemma parse_layers:
  assumes "json_ok fl (JDict d)"
  shows "parse_json_safely fl (dumps (JDict d)) = Inr d"
    and "\<lbrakk>loads fl s = Inl DecodeError; s = pre @ fence @ mark @ [10] @ dumps (JDict d) @ [10] @ fence @ post;
      96 \<notin> set pre; 96 \<notin> set (dumps (JDict d)); mark \<in> {[], asc ''json''}\<rbrakk> \<Longrightarrow> parse_json_safely fl s = Inr d"
    and "\<lbrakk>loads fl s = Inl DecodeError; s = pre @ dumps (JDict d) @ post; 96 \<notin> set s;
      123 \<notin> set pre; 125 \<notin> set post\<rbrakk> \<Longrightarrow> parse_json_safely fl s = Inr d"
proof -
  have ld: "loads fl (dumps (JDict d)) = Inr (JDict d)"
    using loads_dumps [OF assms, of "[]" "[]"] by simp
  obtain q where q: "dumps (JDict d) = 123 # q @ [125]" by simp
  show "parse_json_safely fl (dumps (JDict d)) = Inr d"
    by (simp only: parse_json_safely_def parse_layer_def ld option.case sum.case json.case)
  show "parse_json_safely fl s = Inr d"
    if "loads fl s = Inl DecodeError" "s = pre @ fence @ mark @ [10] @ dumps (JDict d) @ [10] @ fence @ post"
      "96 \<notin> set pre" "96 \<notin> set (dumps (JDict d))" "mark \<in> {[], asc ''json''}" for s pre mark post
  proof -
    let ?r = "dumps (JDict d) @ [10] @ fence @ post"
    have "find_sub fence s = Some (length pre)"
      unfolding that(2) by (rule find_fence [OF that(3)])
    moreover have "drop (length pre + 3) s = mark @ [10] @ ?r"
      by (simp add: that(2) fence_def)
    moreover have "(if starts ''json'' (mark @ [10] @ ?r) then drop 4 (mark @ [10] @ ?r) else mark @ [10] @ ?r) = [10] @ ?r"
      using that(5) by (auto simp: starts_def asc_def)
    moreover have "lstrip_by is_space ([10] @ ?r) = ?r"
      by (simp add: lstrip_by_def is_space_def)
    moreover have "find_sub fence ?r = Some (length (dumps (JDict d) @ [10]))"
      using find_fence [of "dumps (JDict d) @ [10]" post] that(4) by simp
    moreover have "rstrip_by is_space (take (length (dumps (JDict d) @ [10])) ?r) = dumps (JDict d)"
      unfolding q by (simp add: rstrip_by_def is_space_def)
    ultimately have "fenced_block s = Some (dumps (JDict d))"
      unfolding fenced_block_def by (simp only: option.case Let_def)
    then show ?thesis
      by (simp only: parse_json_safely_def parse_layer_def that(1) ld option.case sum.case json.case json_error.case)
  qed
  show "parse_json_safely fl s = Inr d"
    if "loads fl s = Inl DecodeError" "s = pre @ dumps (JDict d) @ post" "96 \<notin> set s"
      "123 \<notin> set pre" "125 \<notin> set post" for s pre post
  proof -
    have f: "fenced_block s = None"
      using find_fence_none [OF that(3)] by (simp add: fenced_block_def)
    have none: "\<forall>x \<in> set pre. x \<noteq> 123" using that(4) by auto
    have tail: "dropWhile (\<lambda>c. c \<noteq> 125) (rev post @ t) = dropWhile (\<lambda>c. c \<noteq> 125) t" for t
      using that(5) by (induction post rule: rev_induct) auto
    have "dropWhile (\<lambda>c. c \<noteq> 123) s = dumps (JDict d) @ post"
      unfolding that(2) q using none by (simp add: dropWhile_append2)
    moreover have "rev (dropWhile (\<lambda>c. c \<noteq> 125) (rev (dumps (JDict d) @ post))) = dumps (JDict d)"
      unfolding q by (simp add: tail)
    ultimately have "braced_block s = Some (dumps (JDict d))"
      by (simp only: braced_block_def Let_def) (simp add: q)
    then show ?thesis
      by (simp only: parse_json_safely_def parse_layer_def f that(1) ld option.case sum.case json.case json_error.case)
  qed
qed

text \<open>C32.
  What the extraction finds in the answers models give: the object itself, with white space
  around it; an object in a Markdown block, marked \<open>json\<close> or not, with any text before and
  after; an object with text before and after it (the text must not use the marks the layer
  looks for, and is not itself JSON).
\<close>

theorem parse_json_safely_finds:
  assumes "json_ok fl (JDict d)"
  shows "parse_json_safely fl (dumps (JDict d)) = Inr d \<and>
    (\<forall>s pre mark post. loads fl s = Inl DecodeError \<and>
       s = pre @ fence @ mark @ [10] @ dumps (JDict d) @ [10] @ fence @ post \<and>
       96 \<notin> set pre \<and> 96 \<notin> set (dumps (JDict d)) \<and> mark \<in> {[], asc ''json''} \<longrightarrow>
       parse_json_safely fl s = Inr d) \<and>
    (\<forall>s pre post. loads fl s = Inl DecodeError \<and> s = pre @ dumps (JDict d) @ post \<and> 96 \<notin> set s \<and>
       123 \<notin> set pre \<and> 125 \<notin> set post \<longrightarrow> parse_json_safely fl s = Inr d)"
  using parse_layers [OF assms] by blast

lemma loads_backtick: "loads fl (96 # s) = Inl DecodeError"
proof -
  have "scan_atom fl (96 # s) = Inl DecodeError"
    by (simp add: scan_atom_def starts_def asc_def scan_num_def scan_int_def is_digit_def)
  then show ?thesis
    by (simp add: loads_def json_fuel_def skip_ws_def json_ws_def)
qed

theorem parse_json_safely_finds_witness:
  "parse_json_safely (\<lambda>t. t) (fence @ asc ''json'' @ [10] @ dumps (JDict [(asc ''a'', JNull)]) @ [10] @ fence) =
     Inr [(asc ''a'', JNull)]"
proof -
  have ok: "json_ok (\<lambda>t. t) (JDict [(asc ''a'', JNull)])" by simp
  have "loads (\<lambda>t. t) (fence @ asc ''json'' @ [10] @ dumps (JDict [(asc ''a'', JNull)]) @ [10] @ fence) = Inl DecodeError"
    by (simp add: fence_def loads_backtick)
  moreover have "96 \<notin> set (dumps (JDict [(asc ''a'', JNull)]))"
    by (simp add: asc_def dump_str_def esc_char_def)
  ultimately show ?thesis
    using parse_json_safely_finds [OF ok, THEN conjunct2, THEN conjunct1, rule_format,
        of "fence @ asc ''json'' @ [10] @ dumps (JDict [(asc ''a'', JNull)]) @ [10] @ fence" "[]" "asc ''json''" "[]"]
    by (simp del: dumps.simps)
qed

section \<open>Streams\<close>

lemma stream_texts_nonempty: "[] \<notin> set (stream_texts cs)"
  by (induction cs) (auto split: option.splits)

lemma ev_names [simp]:
  "ev_done v \<noteq> ev_delta t" "ev_done v \<noteq> ev_error m" "ev_delta t \<noteq> ev_error m"
  "ev_done v = ev_done w \<longleftrightarrow> v = w"
  by (simp_all add: ev_done_def ev_delta_def ev_error_def asc_def)



section \<open>Chunked streams\<close>

text \<open>A text cut into deltas, then the value: what the replay and the placeholder do.\<close>

definition chunked_stream :: "nat \<Rightarrow> json \<Rightarrow> sse_event list" where
  "chunked_stream n v = map ev_delta (chunks_of n (dumps v)) @ [ev_done v]"

lemma mock_stream_chunked: "mock_summarize_stream n = chunked_stream n mock_payload"
  by (simp add: mock_summarize_stream_def chunked_stream_def)

definition delta_texts :: "sse_event list \<Rightarrow> pstr" where
  "delta_texts evs = concat (map (\<lambda>e. case e of (n, JStr t) \<Rightarrow> (if n = asc ''delta'' then t else []) | _ \<Rightarrow> []) evs)"

lemma delta_texts_chunked:
  assumes "0 < n"
  shows "delta_texts (chunked_stream n v) = dumps v"
proof -
  have "concat (map (\<lambda>e. case e of (n, JStr t) \<Rightarrow> (if n = asc ''delta'' then t else []) | _ \<Rightarrow> [])
      (map ev_delta cs)) = concat cs" for cs
    by (induction cs) (simp_all add: ev_delta_def)
  moreover have "(case ev_done v of (n, JStr t) \<Rightarrow> (if n = asc ''delta'' then t else []) | _ \<Rightarrow> []) = []"
    by (simp add: ev_done_def asc_def split: json.splits)
  ultimately show ?thesis
    by (simp add: delta_texts_def chunked_stream_def concat_chunks [OF assms] del: map_map)
qed

end
