(* ===== verification/Recording_Properties.thy ===== *)
theory Recording_Properties
  imports Recording_Service Repository_Properties File_Properties Llm_Properties
begin

text \<open>
  The recording service: files on disk and rows of the database belong together, with the exact
  exceptions; uploading known content changes nothing; what a replayed summary consists of.
\<close>

section \<open>What the upload relies on\<close>

text \<open>
  The contract between the service and the repository, as the service's comment states it: a
  creation that reports \<open>created\<close> has stored a recording with the path it was given, and a
  reliable one that does not has stored none.
\<close>

locale recording_store =
  fixes create :: "pstr \<Rightarrow> database \<Rightarrow> (recording \<times> task option \<times> bool) tx_result \<times> database"
    and reliable :: "pstr \<Rightarrow> bool"
  assumes created_stored: "create path db = (Returned (r, t, True), db') \<Longrightarrow>
      r \<in> set (recordings db') \<and> file_path r = path"
    and not_created_free: "create path db = (res, db') \<Longrightarrow> reliable path \<Longrightarrow> path_free path db \<Longrightarrow>
      (\<And>r t. res \<noteq> Returned (r, t, True)) \<Longrightarrow> path_free path db'"
begin

lemma kept_iff_stored:
  assumes "create_keeping create unl path (fs, db) = (res, fs', db')"
    and "reliable path" and "path_free path db" and "unl path" and "fs path = Some d"
  shows "(\<forall>p. p \<noteq> path \<longrightarrow> fs' p = fs p) \<and> (fs' path \<noteq> None \<longleftrightarrow> \<not> path_free path db') \<and>
    (fs' path \<noteq> None \<longrightarrow> fs' path = Some d) \<and>
    ((\<exists>r t. res = Returned (r, t, True)) \<longleftrightarrow> fs' path \<noteq> None)"
proof (cases "\<exists>r t. res = Returned (r, t, True)")
  case True
  then obtain r t where rt: "create path db = (Returned (r, t, True), db')" "res = Returned (r, t, True)"
    and fs: "fs' = fs"
    using assms(1) by (auto simp: create_keeping_def split: prod.splits)
  from created_stored [OF rt(1)] have "\<not> path_free path db'"
    by (auto simp: path_free_def)
  with rt fs assms(5) show ?thesis by auto
next
  case False
  then have "create path db = (res, db')" "fs' = fs(path := None)"
    using assms(1,4)
    by (auto simp: create_keeping_def remove_file_def Let_def split: prod.splits tx_result.splits if_splits)
  with not_created_free [OF this(1) assms(2,3)] False show ?thesis by auto
qed

end

interpretation store: recording_store
  "\<lambda>path. create_recording_and_task ck rid tid env x name path sz h"
  "\<lambda>path. env_leaves_path path env \<and> \<not> ambiguous x"
  for ck rid tid env x name sz h
proof unfold_locales
  fix path db r t db'
  assume "create_recording_and_task ck rid tid env x name path sz h db = (Returned (r, t, True), db')"
  from create_created [OF this] show "r \<in> set (recordings db') \<and> file_path r = path"
    by (simp add: new_recording_def)
next
  fix path db res db'
  assume "create_recording_and_task ck rid tid env x name path sz h db = (res, db')"
    "env_leaves_path path env \<and> \<not> ambiguous x" "path_free path db" "\<And>r t. res \<noteq> Returned (r, t, True)"
  then show "path_free path db'"
    using create_not_created [of ck rid tid env x name path sz h db res db'] by blast
qed

section \<open>Files and rows\<close>

definition final_of :: "upload_cfg \<Rightarrow> upload_world \<Rightarrow> pstr \<Rightarrow> pstr" where
  "final_of cfg w ext = path_child (up_dir cfg) (uuid_hex (w_file_id w) @ ext)"

lemma part_neq_final: "part_path (up_dir cfg) (w_file_id w) ext \<noteq> final_of cfg w ext"
  by (simp add: part_path_def final_of_def)

text \<open>A world without the four accidents that leak: see the properties below for them.\<close>

definition orderly :: "upload_cfg \<Rightarrow> upload_world \<Rightarrow> pstr \<Rightarrow> bool" where
  "orderly cfg w ext \<longleftrightarrow> open_res (w_io w) = Commit \<and> w_lookup w = Commit \<and>
     \<not> ambiguous (w_rename w) \<and> \<not> ambiguous (w_commit w) \<and>
     unlink_ok (w_io w) (part_path (up_dir cfg) (w_file_id w) ext) \<and>
     unlink_ok (w_io w) (final_of cfg w ext) \<and>
     env_leaves_path (final_of cfg w ext) (w_env w) \<and> env_leaves_path (final_of cfg w ext) (w_lookup_env w)"

lemma lookup_hash_path:
  assumes "lookup_hash Commit env h db = (res, db')" and "path_free path db" and "env_leaves_path path env"
  shows "path_free path db' \<and> (\<exists>p. res = Returned p)"
  using assms by (auto simp: lookup_hash_def repo_get_by_hash_def Let_def env_leaves_path_def split: option.splits)

lemma upload_answer_state:
  assumes "upload_answer res (fs, db, wk) = (res', fs', db', wk')"
  shows "fs' = fs" and "db' = db"
    and "res' = Returned (r, t, c) \<Longrightarrow> res = Returned (r, Some t, c)"
  using assms
  by (auto simp: upload_answer_def require_task_def split: tx_result.splits prod.splits option.splits sum.splits if_splits)

lemma staged_commit_cases:
  assumes "staged_commit x st fs = (res, fs')" and "\<not> ambiguous x"
  shows "(res = Returned (final_path st) \<and> fs' = replace_file (tmp_path st) (final_path st) fs) \<or>
    ((\<forall>p. res \<noteq> Returned p) \<and> fs' = fs)"
  using assms by (auto simp: staged_commit_def ambiguous_def Let_def split: tx.splits)

text \<open>What an upload promises about its final file, the rows and its answer.\<close>

definition files_match ::
  "upload_cfg \<Rightarrow> pstr \<Rightarrow> fs \<Rightarrow> fs \<Rightarrow> database \<Rightarrow> (recording \<times> task \<times> bool) tx_result \<Rightarrow> bool" where
  "files_match cfg fin fs fs' db' res \<longleftrightarrow>
     (\<forall>p. p \<noteq> fin \<longrightarrow> fs' p = fs p) \<and> (fs' fin \<noteq> None \<longleftrightarrow> \<not> path_free fin db') \<and>
     (\<forall>r t. res = Returned (r, t, True) \<longrightarrow>
       (\<exists>d. fs' fin = Some d \<and> file_path r = fin \<and> file_hash r = up_sha256 cfg d \<and>
          file_size r = int (length d) \<and> d \<noteq> [] \<and> int (length d) \<le> max_file_size_bytes (up_max_mb cfg)))"

lemma files_match_unchanged:
  "fs fin = None \<Longrightarrow> path_free fin db' \<Longrightarrow> \<forall>r t. res \<noteq> Returned (r, t, True) \<Longrightarrow> files_match cfg fin fs fs db' res"
  by (simp add: files_match_def)

lemma files_match_stored:
  assumes "create_keeping (\<lambda>p. create_recording_and_task ck rid tid env x name p (int (length d)) (up_sha256 cfg d))
      unl fin (fs(fin \<mapsto> d), db) = (rr, fs3, db2)"
    and "env_leaves_path fin env \<and> \<not> ambiguous x" and "path_free fin db" and "unl fin"
    and "d \<noteq> []" and "int (length d) \<le> max_file_size_bytes (up_max_mb cfg)"
    and "upload_answer rr (fs3, db2, wk) = (res, fs', db', wk')"
  shows "files_match cfg fin fs fs' db' res"
proof -
  let ?create = "\<lambda>p. create_recording_and_task ck rid tid env x name p (int (length d)) (up_sha256 cfg d)"
  note k = store.kept_iff_stored [OF assms(1-4), of d]
  note ans = upload_answer_state [OF assms(7)]
  have "\<exists>d. fs' fin = Some d \<and> file_path r = fin \<and> file_hash r = up_sha256 cfg d \<and>
      file_size r = int (length d) \<and> d \<noteq> [] \<and> int (length d) \<le> max_file_size_bytes (up_max_mb cfg)"
    if "res = Returned (r, t, True)" for r t
  proof -
    have rr: "rr = Returned (r, Some t, True)" using ans(3) that by blast
    then have "?create fin db = (Returned (r, Some t, True), db2)"
      using assms(1) by (auto simp: create_keeping_def Let_def split: prod.splits)
    from create_created(1) [OF this] have "file_path r = fin" "file_hash r = up_sha256 cfg d"
      "file_size r = int (length d)"
      by (simp_all add: new_recording_def)
    then show ?thesis using k rr ans(1) assms(5,6) by auto
  qed
  then show ?thesis
    using k ans(1,2) by (auto simp: files_match_def)
qed

text \<open>Once a file is staged: known content, a failing rename, or an insertion.\<close>

lemma files_match_staged:
  assumes o: "orderly cfg w ext"
    and free: "fs (part_path (up_dir cfg) (w_file_id w) ext) = None" "fs (final_of cfg w ext) = None"
      "path_free (final_of cfg w ext) db"
    and ext: "validate_extension (up_uni cfg) (up_pylist cfg) filename (up_allowed cfg) = Inr ext"
    and stage: "stage_upload (up_sha256 cfg) (w_io w) (w_file_id w) ext (up_dir cfg)
      (max_file_size_bytes (up_max_mb cfg)) (up_max_mb cfg) fs = (Returned st, fs1)"
    and d: "d \<noteq> []" "int (length d) \<le> max_file_size_bytes (up_max_mb cfg)"
      "fs1 = fs(part_path (up_dir cfg) (w_file_id w) ext \<mapsto> d)" "staged_sha st = up_sha256 cfg d"
      "staged_size st = int (length d)"
    and paths: "tmp_path st = part_path (up_dir cfg) (w_file_id w) ext" "final_path st = final_of cfg w ext"
    and up: "upload cfg w filename (fs, db, wk) = (res, fs', db', wk')"
  shows "files_match cfg (final_of cfg w ext) fs fs' db' res"
proof -
  note o = o [unfolded orderly_def]
  have discard: "staged_discard (unlink_ok (w_io w)) st fs1 = fs"
    using o free(1) by (auto simp: staged_discard_def remove_file_def paths d(3))
  obtain lr db1 where look: "lookup_hash (w_lookup w) (w_lookup_env w) (staged_sha st) db = (lr, db1)" by force
  then obtain ro tk where lr: "lr = Returned (ro, tk)" and free1: "path_free (final_of cfg w ext) db1"
    using lookup_hash_path [of "w_lookup_env w" "staged_sha st" db lr db1 "final_of cfg w ext"] o free(3) by auto
  show ?thesis
  proof (cases ro)
    case (Some r)
    have "upload_answer (Returned (r, tk, False)) (fs, db1, wk) = (res, fs', db', wk')"
      using ext up stage look lr Some discard by (simp add: upload_def)
    note ans = upload_answer_state [OF this]
    then show ?thesis
      using files_match_unchanged [of fs "final_of cfg w ext" db1 res cfg] free(2) free1 by blast
  next
    case None
    obtain cr fs2 where com: "staged_commit (w_rename w) st fs1 = (cr, fs2)" by force
    show ?thesis
    proof (cases "cr = Returned (final_of cfg w ext)")
      case False
      then have "fs2 = fs1" "\<forall>p. cr \<noteq> Returned p"
        using staged_commit_cases [OF com] o by (auto simp: paths)
      then have "fs' = fs" "db' = db1" "\<forall>r t. res \<noteq> Returned (r, t, True)"
        using ext up stage look lr None com discard by (auto simp: upload_def split: tx_result.splits)
      then show ?thesis
        using files_match_unchanged free(2) free1 by blast
    next
      case True
      then have fs2: "fs2 = fs(final_of cfg w ext \<mapsto> d)"
        using staged_commit_cases [OF com] o d(3) free(1) part_neq_final
        by (auto simp: paths replace_file_def)
      obtain rr fs3 db2 where keep: "create_keeping
          (\<lambda>p. create_recording_and_task (w_clock w) (w_rec_id w) (w_task_id w) (w_env w) (w_commit w)
             filename p (int (length d)) (up_sha256 cfg d))
          (unlink_ok (w_io w)) (final_of cfg w ext) (fs(final_of cfg w ext \<mapsto> d), w_lookup_env w 1 db1) = (rr, fs3, db2)"
        by (metis prod_cases3)
      have "upload_answer rr (fs3, db2, wk) = (res, fs', db', wk')"
        using ext up stage look lr None com True keep by (simp add: upload_def fs2 d)
      with o free1 d(1,2) show ?thesis
        by (intro files_match_stored [OF keep]) (auto simp: env_leaves_path_def)
    qed
  qed
qed


text \<open>A small upload: two bytes named \<open>a.wav\<close>.\<close>

definition sample_upload_cfg :: upload_cfg where
  "sample_upload_cfg = \<lparr>up_allowed = [asc ''.wav''], up_dir = asc ''/u'', up_max_mb = 1,
     up_uni = (\<lambda>s. s), up_pylist = concat, up_sha256 = (\<lambda>_. asc ''ff'')\<rparr>"

definition sample_world :: "tx \<Rightarrow> tx \<Rightarrow> upload_world" where
  "sample_world look com = \<lparr>w_io = good_io [[1, 2]], w_file_id = 5, w_lookup = look, w_lookup_env = quiet,
     w_rename = Commit, w_clock = ck0, w_rec_id = 1, w_task_id = 11, w_env = quiet, w_commit = com\<rparr>"

lemma sample_ext:
  "validate_extension (up_uni sample_upload_cfg) (up_pylist sample_upload_cfg) (asc ''a.wav'')
    (up_allowed sample_upload_cfg) = Inr (asc ''.wav'')"
  by (simp add: validate_extension_def ext_of_def path_suffix_def path_name_def py_lower_def ascii_lower_def
      sample_upload_cfg_def asc_def)

lemma sample_orderly: "orderly sample_upload_cfg (sample_world Commit Commit) ext"
  by (simp add: orderly_def sample_world_def good_io_def ambiguous_def env_leaves_path_def)

lemma path_free_empty: "path_free p empty_db"
  by (simp add: path_free_def empty_db_def)


section \<open>Accidents\<close>

text \<open>
  A lookup that fails leaks the staged file: between the staging and the commit nothing removes
  the \<open>.part\<close> file when the search for the hash raises.
\<close>

lemma lookup_failure_leaks_part:
  assumes "validate_extension (up_uni cfg) (up_pylist cfg) filename (up_allowed cfg) = Inr ext"
    and "stage_upload (up_sha256 cfg) (w_io w) (w_file_id w) ext (up_dir cfg)
      (max_file_size_bytes (up_max_mb cfg)) (up_max_mb cfg) fs = (Returned st, fs1)"
    and "fs (part_path (up_dir cfg) (w_file_id w) ext) = None" and "0 \<le> up_max_mb cfg"
    and "w_lookup w = Abort b e"
  shows "upload cfg w filename (fs, db, wk) = (Raised e, fs1, db, wk) \<and>
    (\<exists>d. d \<noteq> [] \<and> fs1 = fs(part_path (up_dir cfg) (w_file_id w) ext \<mapsto> d))"
proof -
  have "0 \<le> max_file_size_bytes (up_max_mb cfg)" using assms(4) by (simp add: max_file_size_bytes_def)
  from stage_upload_cases [OF assms(2,3) this] show ?thesis
    using assms(1,2,5) by (auto simp: upload_def lookup_hash_def)
qed

lemma sample_stage:
  "stage_upload (up_sha256 sample_upload_cfg) (w_io (sample_world x y)) (w_file_id (sample_world x y)) (asc ''.wav'')
     (up_dir sample_upload_cfg) (max_file_size_bytes (up_max_mb sample_upload_cfg)) (up_max_mb sample_upload_cfg) (\<lambda>_. None) =
   (Returned \<lparr>tmp_path = part_path (asc ''/u'') 5 (asc ''.wav''),
      final_path = path_child (asc ''/u'') (uuid_hex 5 @ asc ''.wav''), staged_sha = asc ''ff'', staged_size = 2\<rparr>,
    [part_path (asc ''/u'') 5 (asc ''.wav'') \<mapsto> [1, 2]])"
  using staging_cases_good [of "[[1, 2]]" 1048576 "\<lambda>_. None" "asc ''/u''" 5 "asc ''.wav''" "\<lambda>_. asc ''ff''" 1]
  by (simp add: sample_world_def sample_upload_cfg_def max_file_size_bytes_def)

lemma lookup_failure_leaks_part_witness:
  "fst (snd (upload sample_upload_cfg (sample_world (Abort False (OSError [])) Commit) (asc ''a.wav'')
     (\<lambda>_. None, empty_db, None))) (part_path (asc ''/u'') 5 (asc ''.wav'')) \<noteq> None"
proof -
  have p: "0 \<le> up_max_mb sample_upload_cfg" "up_dir sample_upload_cfg = asc ''/u''"
    "w_lookup (sample_world (Abort False (OSError [])) Commit) = Abort False (OSError [])"
    "w_file_id (sample_world (Abort False (OSError [])) Commit) = 5"
    by (simp_all add: sample_upload_cfg_def sample_world_def)
  from lookup_failure_leaks_part [OF sample_ext sample_stage _ p(1,3), of empty_db None] show ?thesis
    by (simp add: p)
qed

text \<open>
  A commit that was applied although the connection failed leaves a recording without its file:
  the exception makes the service remove the file, and the row that refers to it stays.
\<close>

lemma ambiguous_commit_loses_file:
  assumes "create_recording_and_task ck rid tid env Commit filename path sz h db = (Returned (r, Some t, True), db')"
    and "\<forall>m. e \<noteq> IntegrityError m" and "unl path" and "recording_get_by_hash db h = None"
  shows "create_keeping (\<lambda>p. create_recording_and_task ck rid tid env (Abort True e) filename p sz h) unl path (fs, db) =
      (Raised e, fs(path := None), db') \<and>
    r \<in> set (recordings db') \<and> file_path r = path"
proof -
  obtain u where ins: "insert_pair ck rid tid filename path sz h (env 0 db) = Inr ((r, u), db')"
    using assms(1,4) by (auto simp: create_recording_and_task_def insert_pair_tx_def Let_def
        split: sum.splits prod.splits exn.splits option.splits)
  then have "create_recording_and_task ck rid tid env (Abort True e) filename path sz h db = (Raised e, db')"
    using assms(2,4) by (cases e) (simp_all add: create_recording_and_task_def insert_pair_tx_def)
  then show ?thesis
    using assms(3) create_created [OF assms(1)] by (simp add: create_keeping_def remove_file_def new_recording_def)
qed

lemma ambiguous_commit_loses_file_witness:
  "fst (snd (create_keeping (\<lambda>p. create_recording_and_task ck0 1 11 quiet (Abort True (OSError [])) (asc ''a.wav'') p 4
      (asc ''ff'')) (\<lambda>_. True) (asc ''/u/a'') ([asc ''/u/a'' \<mapsto> [1]], empty_db))) (asc ''/u/a'') = None"
proof -
  have f: "fits (asc ''a.wav'') (asc ''/u/a'') 4 (asc ''ff'')" by (simp add: fits_def asc_def)
  have n: "recording_get_by_hash empty_db (asc ''ff'') = None"
    by (simp add: recording_get_by_hash_def empty_db_def sql_where_def)
  have none: "asc ''ff'' \<notin> file_hash ` set (recordings empty_db)" "1 \<notin> rec_id ` set (recordings empty_db)"
    "11 \<notin> task_id ` set (tasks empty_db)"
    by (simp_all add: empty_db_def)
  note i = insert_pair_fresh [OF db_ok_empty f none, of ck0]
  have c: "create_recording_and_task ck0 1 11 quiet Commit (asc ''a.wav'') (asc ''/u/a'') 4 (asc ''ff'') empty_db =
      (Returned (new_recording ck0 1 (asc ''a.wav'') (asc ''/u/a'') 4 (asc ''ff''), Some (new_task ck0 11 1), True),
       snd (projr (insert_pair ck0 1 11 (asc ''a.wav'') (asc ''/u/a'') 4 (asc ''ff'') empty_db)))"
    by (simp add: create_recording_and_task_def n insert_pair_tx_def i)
  show ?thesis
    using ambiguous_commit_loses_file [OF c, of "OSError []" "\<lambda>_. True" "[asc ''/u/a'' \<mapsto> [1]]"] n by simp
qed

section \<open>Known content\<close>

text \<open>C27.
  Uploading known content again: when a recording with the same hash exists, the upload returns
  it with its task and says that nothing was created; database, files and worker are as before.
\<close>

theorem upload_idempotent:
  assumes "validate_extension (up_uni cfg) (up_pylist cfg) filename (up_allowed cfg) = Inr ext"
    and "w_io w = good_io cs" and "\<forall>c \<in> set cs. c \<noteq> []" and "concat cs \<noteq> []"
    and "0 \<le> up_max_mb cfg" and "int (length (concat cs)) \<le> max_file_size_bytes (up_max_mb cfg)"
    and "fs (part_path (up_dir cfg) (w_file_id w) ext) = None"
    and "w_lookup w = Commit" and "w_lookup_env w = quiet"
    and "db_ok M db" and "r \<in> set (recordings db)" and "file_hash r = up_sha256 cfg (concat cs)"
    and "get_by_recording db (rec_id r) = Some t"
  shows "upload cfg w filename (fs, db, wk) = (Returned (r, t, False), fs, db, wk)"
proof -
  let ?part = "part_path (up_dir cfg) (w_file_id w) ext"
  have max: "0 \<le> max_file_size_bytes (up_max_mb cfg)" using assms(5) by (simp add: max_file_size_bytes_def)
  have stage: "stage_upload (up_sha256 cfg) (w_io w) (w_file_id w) ext (up_dir cfg)
      (max_file_size_bytes (up_max_mb cfg)) (up_max_mb cfg) fs =
    (Returned \<lparr>tmp_path = ?part, final_path = path_child (up_dir cfg) (uuid_hex (w_file_id w) @ ext),
       staged_sha = up_sha256 cfg (concat cs), staged_size = int (length (concat cs))\<rparr>, fs(?part \<mapsto> concat cs))"
    unfolding assms(2) using staging_cases_good [where fs = fs and dir = "up_dir cfg" and u = "w_file_id w" and ext = ext, OF assms(3) max assms(7)] assms(4,6) by auto
  have undo: "fs(?part := None) = fs" using assms(7) by auto
  have "lookup_hash (w_lookup w) (w_lookup_env w) (up_sha256 cfg (concat cs)) db = (Returned (Some r, Some t), db)"
    using by_hash_found [OF assms(10,11)] assms(8,9,12,13) by (simp add: lookup_hash_def repo_get_by_hash_def)
  then show ?thesis
    using assms(1) stage undo
    by (simp add: upload_def upload_answer_def require_task_def staged_discard_def remove_file_def
        assms(2) good_io_def del: concat_eq_Nil_conv)
qed

theorem upload_idempotent_witness:
  "\<exists>r t. fst (upload sample_upload_cfg (sample_world Commit Commit) (asc ''a.wav'') (\<lambda>_. None,
      \<lparr>recordings = [new_recording ck0 1 (asc ''b.wav'') (asc ''/u/b'') 2 (asc ''ff'')], tasks = [new_task ck0 11 1]\<rparr>,
      None)) = Returned (r, t, False)"
proof -
  let ?db = "\<lparr>recordings = [new_recording ck0 1 (asc ''b.wav'') (asc ''/u/b'') 2 (asc ''ff'')], tasks = [new_task ck0 11 1]\<rparr>"
  have ok: "db_ok 0 ?db"
    by (simp add: db_ok_def task_ok_def new_recording_def new_task_def)
  have t: "get_by_recording ?db (rec_id (new_recording ck0 1 (asc ''b.wav'') (asc ''/u/b'') 2 (asc ''ff''))) = Some (new_task ck0 11 1)"
    by (simp add: get_by_recording_def sql_where_def new_recording_def new_task_def)
  show ?thesis
    using upload_idempotent [OF sample_ext, of "sample_world Commit Commit" "[[1, 2]]" "\<lambda>_. None" 0 ?db, OF _ _ _ _ _ _ _ _ ok _ _ t, of None]
    by (auto simp: sample_world_def sample_upload_cfg_def max_file_size_bytes_def new_recording_def)
qed

section \<open>Summaries\<close>

text \<open>
  A replayed summary: deltas of one to sixteen characters that put together are the printed
  summary, which parses back to the stored one, then \<open>done\<close> with the summary itself.
\<close>

lemma replay_spec:
  assumes "json_ok fl v"
  shows "delta_texts (replay_stored_summary v) = dumps v \<and>
    loads fl (delta_texts (replay_stored_summary v)) = Inr v \<and>
    last (replay_stored_summary v) = ev_done v \<and>
    (\<forall>e \<in> set (butlast (replay_stored_summary v)). \<exists>c. e = ev_delta c \<and> 1 \<le> length c \<and> length c \<le> 16)"
proof -
  have r: "replay_stored_summary v = chunked_stream 16 v"
    by (simp add: replay_stored_summary_def chunked_stream_def replay_chunk_size_def)
  have "delta_texts (replay_stored_summary v) = dumps v"
    unfolding r by (rule delta_texts_chunked) simp
  moreover have "loads fl (dumps v) = Inr v"
    using loads_dumps [OF assms, of "[]" "[]"] by simp
  moreover have "c \<noteq> [] \<and> length c \<le> 16" if "c \<in> set (chunks_of 16 (dumps v))" for c
    using chunks_of_length [OF _ that] by simp
  ultimately show ?thesis
    by (auto simp: r chunked_stream_def Suc_le_eq)
qed

lemma replay_spec_witness:
  "delta_texts (replay_stored_summary (JDict [(asc ''summary'', JStr [20320])])) =
   dumps (JDict [(asc ''summary'', JStr [20320])])"
  using replay_spec [of "\<lambda>t. t" "JDict [(asc ''summary'', JStr [20320])]"] by simp

end
