(* ===== verification/Http.thy ===== *)
theory Http
  imports Recording_Service
begin

text \<open>
  The HTTP layer: \<open>api/schema/*.py\<close> (the response models and how rows become them),
  \<open>api/core/errors.py\<close> (exceptions become status codes), \<open>api/controller/*.py\<close> (the
  endpoints and the server-sent events) and the \<open>request_context\<close> middleware of
  \<open>api/app.py\<close>.  An endpoint ends with a response, an exception or a cancellation; parsing
  of the request, routing and the serialisation of a response model are FastAPI's, so a body
  is the response model itself.
\<close>

section \<open>Response models\<close>

record upload_response =
  ur_recording_id :: uuid
  ur_task_id :: uuid
  ur_status :: TaskStatus

record list_item =
  li_recording_id :: uuid
  li_file_name :: pstr
  li_file_size :: int
  li_created_at :: time
  li_task_id :: "uuid option"
  li_status :: "TaskStatus option"

record list_response =
  lr_items :: "list_item list"
  lr_page :: int
  lr_page_size :: int
  lr_total :: int

record detail_response =
  dr_recording_id :: uuid
  dr_file_name :: pstr
  dr_file_size :: int
  dr_created_at :: time
  dr_task_id :: uuid
  dr_status :: TaskStatus
  dr_error_msg :: "pstr option"
  dr_transcript :: "pstr option"
  dr_summary :: "json option"

record task_status_response =
  tr_task_id :: uuid
  tr_recording_id :: uuid
  tr_status :: TaskStatus
  tr_retry_count :: int
  tr_error_msg :: "pstr option"
  tr_transcript :: "pstr option"
  tr_summary :: "json option"

definition to_upload_response :: "recording \<Rightarrow> task \<Rightarrow> upload_response" where
  "to_upload_response r t =
     \<lparr>ur_recording_id = rec_id r, ur_task_id = task_id t, ur_status = status t\<rparr>"

definition to_list_item :: "recording \<Rightarrow> task option \<Rightarrow> list_item" where
  "to_list_item r t =
     \<lparr>li_recording_id = rec_id r, li_file_name = file_name r, li_file_size = file_size r,
      li_created_at = rec_created_at r, li_task_id = map_option task_id t,
      li_status = map_option status t\<rparr>"

definition to_list_response :: "(recording \<times> task option) list \<Rightarrow> int \<Rightarrow> int \<Rightarrow> int \<Rightarrow> list_response" where
  "to_list_response items page page_size n =
     \<lparr>lr_items = map (\<lambda>(r, t). to_list_item r t) items, lr_page = page,
      lr_page_size = page_size, lr_total = n\<rparr>"

definition to_detail_response :: "recording \<Rightarrow> task \<Rightarrow> detail_response" where
  "to_detail_response r t =
     (let fin = (status t = DONE)
      in \<lparr>dr_recording_id = rec_id r, dr_file_name = file_name r, dr_file_size = file_size r,
          dr_created_at = rec_created_at r, dr_task_id = task_id t, dr_status = status t,
          dr_error_msg = error_msg t, dr_transcript = (if fin then transcript t else None),
          dr_summary = (if fin then summary t else None)\<rparr>)"

definition to_task_status_response :: "task \<Rightarrow> task_status_response" where
  "to_task_status_response t =
     \<lparr>tr_task_id = task_id t, tr_recording_id = recording_id t, tr_status = status t,
      tr_retry_count = retry_count t, tr_error_msg = error_msg t, tr_transcript = transcript t,
      tr_summary = summary t\<rparr>"

section \<open>Responses\<close>

datatype http_body =
    UploadBody upload_response
  | ListBody list_response
  | DetailBody detail_response
  | TaskBody task_status_response
  | StreamBody "pstr list" "llm_error option"
  | ErrorBody pstr pstr "json option"
  | JsonBody json
  | NoBody

record http_response =
  rs_status :: int
  rs_body :: http_body
  rs_headers :: "(pstr \<times> pstr) list"

definition respond :: "int \<Rightarrow> http_body \<Rightarrow> http_response" where
  "respond st b = \<lparr>rs_status = st, rs_body = b, rs_headers = []\<rparr>"

section \<open>Exceptions\<close>

text \<open>
  What reaches the exception handlers: an exception of the code, an \<open>AppError\<close> of no narrower
  class, or FastAPI's refusal of the request, with its \<open>errors()\<close>.
\<close>

datatype http_exn = CodeExn exn | AppError pstr | RequestValidationError json

text \<open>"request parameters are not valid" and "internal server error".\<close>

definition msg_validation :: pstr where
  [msg_defs]: "msg_validation = [35831, 27714, 21442, 25968, 19981, 21512, 27861]"

definition msg_internal :: pstr where
  [msg_defs]: "msg_internal = [26381, 21153, 22120, 20869, 37096, 38169, 35823]"

definition error_json :: "int \<Rightarrow> pstr \<Rightarrow> pstr \<Rightarrow> json option \<Rightarrow> http_response" where
  "error_json st code m details = respond st (ErrorBody code m details)"

text \<open>
  The handlers of the application's own exceptions run inside the middleware; an exception
  that has none (\<open>None\<close>) goes on outwards.
\<close>

definition domain_handler :: "http_exn \<Rightarrow> http_response option" where
  "domain_handler e =
     (case e of
        CodeExn (InvalidUploadError m) \<Rightarrow> Some (error_json 400 (asc ''invalid_upload'') m None)
      | CodeExn (InvalidRequestError m) \<Rightarrow> Some (error_json 400 (asc ''invalid_request'') m None)
      | CodeExn (RecordingNotFoundError m) \<Rightarrow> Some (error_json 404 (asc ''recording_not_found'') m None)
      | CodeExn (TaskNotFoundError m) \<Rightarrow> Some (error_json 404 (asc ''task_not_found'') m None)
      | CodeExn (TaskNotRetryableError m) \<Rightarrow> Some (error_json 409 (asc ''task_not_retryable'') m None)
      | CodeExn (ServiceUnavailableError m) \<Rightarrow> Some (error_json 503 (asc ''service_unavailable'') m None)
      | AppError m \<Rightarrow> Some (error_json 400 (asc ''app_error'') m None)
      | RequestValidationError d \<Rightarrow> Some (error_json 400 (asc ''validation_error'') msg_validation (Some d))
      | _ \<Rightarrow> None)"

text \<open>\<open>unhandled\<close>, the handler of \<open>Exception\<close>, is outermost: outside the middleware.\<close>

definition unhandled_handler :: http_response where
  "unhandled_handler = error_json 500 (asc ''internal_error'') msg_internal None"

section \<open>The middleware\<close>

datatype http_log = RequestLogged pstr int | RequestErrorLogged pstr

text \<open>\<open>X-Request-ID\<close> or \<open>X-Trace-ID\<close> as the client sent them, else a fresh one.\<close>

definition request_id_of :: "pstr option \<Rightarrow> pstr option \<Rightarrow> uuid \<Rightarrow> pstr" where
  "request_id_of xreq xtrace u =
     (let incoming = (if or_str xreq [] \<noteq> [] then xreq else xtrace);
          s = strip (or_str incoming [])
      in if s = [] then uuid_hex u else s)"

datatype 'a http_result = Answer 'a | Escapes http_exn | NoAnswer

definition request_context ::
  "pstr \<Rightarrow> pstr \<Rightarrow> http_response http_result \<Rightarrow> http_response http_result \<times> http_log list" where
  "request_context path rid r =
     (case r of
        Escapes e \<Rightarrow> (Escapes e, [RequestErrorLogged path])
      | NoAnswer \<Rightarrow> (NoAnswer, [])
      | Answer resp \<Rightarrow>
          (Answer (resp\<lparr>rs_headers := rs_headers resp @ [(asc ''X-Request-ID'', rid)]\<rparr>),
           if path = asc ''/health'' then [] else [RequestLogged path (rs_status resp)]))"

text \<open>From the result of an endpoint to what the client gets.\<close>

definition run_handlers :: "http_response http_result \<Rightarrow> http_response http_result" where
  "run_handlers r =
     (case r of
        Escapes e \<Rightarrow> (case domain_handler e of Some resp \<Rightarrow> Answer resp | None \<Rightarrow> Escapes e)
      | _ \<Rightarrow> r)"

definition serve ::
  "pstr \<Rightarrow> pstr \<Rightarrow> http_response http_result \<Rightarrow> http_response http_result \<times> http_log list" where
  "serve path rid r =
     (case request_context path rid (run_handlers r) of
        (Escapes e, l) \<Rightarrow> (Answer unhandled_handler, l)
      | res \<Rightarrow> res)"

section \<open>Server-sent events\<close>

definition sse_pack :: "pstr \<Rightarrow> json \<Rightarrow> pstr" where
  "sse_pack event data =
     asc ''event: '' @ event @ [10] @ asc ''data: '' @ dumps data @ [10, 10]"

text \<open>The object sent for an event; \<open>str\<close> of a payload that is no text is \<open>py_str\<close>.\<close>

definition sse_wire :: "(json \<Rightarrow> pstr) \<Rightarrow> sse_event \<Rightarrow> json" where
  "sse_wire py_str e =
     (case e of (name, payload) \<Rightarrow>
        if name = asc ''delta'' then JDict [(asc ''text'', payload)]
        else if name = asc ''done'' then payload
        else if name = asc ''error'' then
          JDict [(asc ''message'', JStr (case payload of JStr m \<Rightarrow> m | _ \<Rightarrow> py_str payload))]
        else payload)"

text \<open>\<open>event_source\<close>: \<open>gone i\<close> says that the client has gone when the i-th event comes.\<close>

fun event_source :: "(json \<Rightarrow> pstr) \<Rightarrow> (nat \<Rightarrow> bool) \<Rightarrow> nat \<Rightarrow> sse_event list \<Rightarrow> pstr list" where
  "event_source py_str gone i [] = []"
| "event_source py_str gone i (e # es) =
     (if gone i then [] else sse_pack (fst e) (sse_wire py_str e) # event_source py_str gone (Suc i) es)"

section \<open>Endpoints\<close>

definition of_tx :: "('a \<Rightarrow> http_response) \<Rightarrow> 'a tx_result \<Rightarrow> http_response http_result" where
  "of_tx f r = (case r of Returned a \<Rightarrow> Answer (f a) | Raised e \<Rightarrow> Escapes (CodeExn e) | TxCancelled \<Rightarrow> NoAnswer)"

definition of_sum :: "('a \<Rightarrow> http_response) \<Rightarrow> exn + 'a \<Rightarrow> http_response http_result" where
  "of_sum f r = (case r of Inl e \<Rightarrow> Escapes (CodeExn e) | Inr a \<Rightarrow> Answer (f a))"

definition http_upload ::
  "upload_cfg \<Rightarrow> upload_world \<Rightarrow> pstr \<Rightarrow> fs \<times> database \<times> worker_state option \<Rightarrow>
     http_response http_result \<times> fs \<times> database \<times> worker_state option" where
  "http_upload cfg w filename s =
     (case upload cfg w filename s of
        (res, s') \<Rightarrow>
          (of_tx (\<lambda>(r, t, created). respond (if created then 201 else 200) (UploadBody (to_upload_response r t))) res, s'))"

text \<open>\<open>Query(ge=1)\<close> and \<open>Query(ge=1, le=100)\<close> refuse a page out of range, with \<open>errors\<close>.\<close>

definition http_list ::
  "json \<Rightarrow> interference \<Rightarrow> int \<Rightarrow> int \<Rightarrow> database \<Rightarrow> http_response http_result \<times> database" where
  "http_list errors env page page_size db =
     (if page < 1 \<or> page_size < 1 \<or> 100 < page_size then (Escapes (RequestValidationError errors), db)
      else case list_recordings env page page_size db of
             (res, db') \<Rightarrow>
               (of_sum (\<lambda>(items, n). respond 200 (ListBody (to_list_response items page page_size n))) res, db'))"

definition http_detail :: "interference \<Rightarrow> uuid \<Rightarrow> database \<Rightarrow> http_response http_result \<times> database" where
  "http_detail env rid db =
     (case get_recording env rid db of
        (res, db') \<Rightarrow> (of_sum (\<lambda>(r, t). respond 200 (DetailBody (to_detail_response r t))) res, db'))"

definition http_delete ::
  "interference \<Rightarrow> tx \<Rightarrow> (pstr \<Rightarrow> bool) \<Rightarrow> uuid \<Rightarrow> fs \<times> database \<Rightarrow> http_response http_result \<times> fs \<times> database" where
  "http_delete env x unl rid s =
     (case delete_recording env x unl rid s of (res, s') \<Rightarrow> (of_tx (\<lambda>_. respond 204 NoBody) res, s'))"

definition stream_headers :: "(pstr \<times> pstr) list" where
  "stream_headers = [(asc ''Cache-Control'', asc ''no-cache''), (asc ''Connection'', asc ''keep-alive''),
     (asc ''X-Accel-Buffering'', asc ''no'')]"

definition http_stream ::
  "(json \<Rightarrow> pstr) \<Rightarrow> (nat \<Rightarrow> bool) \<Rightarrow> interference \<Rightarrow> summarizer_service option \<Rightarrow>
   (pstr \<Rightarrow> sse_event list \<times> llm_error option) \<Rightarrow> uuid \<Rightarrow> database \<Rightarrow> http_response http_result \<times> database" where
  "http_stream py_str gone env sm llm rid db =
     (case prepare_summary_stream env sm rid db of
        (res, db') \<Rightarrow>
          (of_sum (\<lambda>ctx. case stream_summary sm llm ctx of
               (evs, ex) \<Rightarrow>
                 let frames = event_source py_str gone 0 evs
                 in \<lparr>rs_status = 200,
                     rs_body = StreamBody frames (if length frames = length evs then ex else None),
                     rs_headers = stream_headers\<rparr>) res, db'))"

definition http_get_task :: "uuid \<Rightarrow> database \<Rightarrow> http_response http_result" where
  "http_get_task tid db =
     of_sum (\<lambda>t. respond 200 (TaskBody (to_task_status_response t))) (task_service_get tid db)"

definition http_retry_task ::
  "clock \<Rightarrow> interference \<Rightarrow> tx \<Rightarrow> tx \<Rightarrow> uuid \<Rightarrow> database \<Rightarrow> worker_state option \<Rightarrow>
     http_response http_result \<times> database \<times> worker_state option" where
  "http_retry_task ck env x1 x2 tid db wk =
     (case task_service_retry ck env x1 x2 tid db wk of
        (res, s') \<Rightarrow> (of_tx (\<lambda>t. respond 200 (TaskBody (to_task_status_response t))) res, s'))"

definition http_health :: "http_response http_result" where
  "http_health = Answer (respond 200 (JsonBody (JDict [(asc ''status'', JStr (asc ''ok''))])))"

end
