(* ===== verification/Http_Properties.thy ===== *)
theory Http_Properties
  imports Http Task_Service_Properties Recording_Properties
begin

text \<open>
  What a client sees: the server-sent events it parses are the events of the generator, the
  endpoints agree on the result of a task, and the status codes tell the state.
\<close>

section \<open>Reading an event stream\<close>

text \<open>
  The reference: how a client reads \<open>text/event-stream\<close>.  A line sets a field (the first
  space after the colon does not count), a comment or an unknown field is skipped, and an
  empty line dispatches what has been collected, if there is data.
\<close>

definition sse_field :: "pstr \<Rightarrow> pstr \<times> pstr" where
  "sse_field line =
     (let name = takeWhile (\<lambda>c. c \<noteq> 58) line; rest = drop (length name + 1) line
      in (name, if rest \<noteq> [] \<and> hd rest = 32 then tl rest else rest))"

fun sse_lines :: "pstr list \<Rightarrow> pstr \<Rightarrow> pstr list \<Rightarrow> (pstr \<times> pstr) list" where
  "sse_lines [] ev data = []"
| "sse_lines (line # ls) ev data =
     (if line = [] then
        (if data = [] then sse_lines ls [] []
         else (if ev = [] then asc ''message'' else ev, join_with [10] data) # sse_lines ls [] [])
      else (case sse_field line of (name, val) \<Rightarrow>
              if name = asc ''event'' then sse_lines ls val data
              else if name = asc ''data'' then sse_lines ls ev (data @ [val])
              else sse_lines ls ev data))"

definition sse_parse :: "pstr \<Rightarrow> (pstr \<times> pstr) list" where
  "sse_parse s = sse_lines (split_on 10 s) [] []"

lemma split_on_line: "c \<notin> set a \<Longrightarrow> split_on c (a @ c # r) = a # split_on c r"
  by (induction a) auto

lemma sse_parse_frame:
  assumes "10 \<notin> set ev" and "10 \<notin> set d" and "ev \<noteq> []"
  shows "sse_parse (asc ''event: '' @ ev @ [10] @ asc ''data: '' @ d @ [10, 10] @ r) = (ev, d) # sse_parse r"
proof -
  have "split_on 10 ((asc ''event: '' @ ev) @ 10 # (asc ''data: '' @ d) @ 10 # [] @ 10 # r) =
      (asc ''event: '' @ ev) # (asc ''data: '' @ d) # [] # split_on 10 r"
    using assms(1,2) by (subst split_on_line, simp add: asc_def)+ simp
  moreover have "sse_field (asc ''event: '' @ ev) = (asc ''event'', ev)"
    "sse_field (asc ''data: '' @ d) = (asc ''data'', d)"
    by (simp_all add: sse_field_def asc_def Let_def)
  ultimately show ?thesis
    using assms(3) by (simp add: sse_parse_def) (simp add: asc_def)
qed

text \<open>What the events must be for this: named by a line, with a payload that is printed and read back.\<close>

definition sse_ok :: "(pstr \<Rightarrow> pstr) \<Rightarrow> sse_event \<Rightarrow> bool" where
  "sse_ok fl e \<longleftrightarrow> fst e \<noteq> [] \<and> 10 \<notin> set (fst e) \<and> json_ok fl (snd e)"

lemma sse_wire_ok: "json_ok fl (snd e) \<Longrightarrow> json_ok fl (sse_wire py_str e)"
  by (cases e) (simp add: sse_wire_def)

lemma sse_parse_event:
  assumes "sse_ok fl e"
  shows "sse_parse (sse_pack (fst e) (sse_wire py_str e) @ r) = (fst e, dumps (sse_wire py_str e)) # sse_parse r"
proof -
  have "10 \<notin> set (dumps (sse_wire py_str e))"
    using dumps_print [OF sse_wire_ok] assms by (fastforce simp: sse_ok_def)
  then show ?thesis
    using sse_parse_frame [of "fst e" "dumps (sse_wire py_str e)" r] assms by (simp add: sse_pack_def sse_ok_def)
qed

lemma sse_parse_Nil: "sse_parse [] = []"
  by (simp add: sse_parse_def)

lemma sse_parse_source:
  assumes "\<forall>e \<in> set evs. sse_ok fl e"
  shows "\<exists>n \<le> length evs. length (event_source py_str gone i evs) = n \<and> ((\<forall>j. \<not> gone j) \<longrightarrow> n = length evs) \<and>
    sse_parse (concat (event_source py_str gone i evs)) =
      map (\<lambda>e. (fst e, dumps (sse_wire py_str e))) (take n evs)"
  using assms
proof (induction evs arbitrary: i)
  case Nil
  then show ?case by (simp add: sse_parse_Nil)
next
  case (Cons e es)
  show ?case
  proof (cases "gone i")
    case True
    then show ?thesis by (intro exI [of _ 0]) (auto simp: sse_parse_Nil)
  next
    case False
    obtain n where n: "n \<le> length es" "length (event_source py_str gone (Suc i) es) = n"
      "(\<forall>j. \<not> gone j) \<longrightarrow> n = length es"
      "sse_parse (concat (event_source py_str gone (Suc i) es)) =
         map (\<lambda>e. (fst e, dumps (sse_wire py_str e))) (take n es)"
      using Cons.IH [of "Suc i"] Cons.prems by auto
    moreover have "sse_ok fl e" using Cons.prems by simp
    ultimately show ?thesis
      using False by (intro exI [of _ "Suc n"]) (simp add: sse_parse_event)
  qed
qed

text \<open>C34.
  A client that reads the response of the stream endpoint sees the generator's events: the
  frames it parses are the events in their order, each with its name and one JSON value that
  is read back as the object that was sent, all of them if it stays connected and otherwise a
  prefix.  (Payloads may be any texts: no newline gets into a frame.)
\<close>

theorem sse_roundtrip:
  assumes "\<forall>e \<in> set evs. sse_ok fl e"
  shows "\<exists>n \<le> length evs. ((\<forall>i. \<not> gone i) \<longrightarrow> n = length evs) \<and>
    map (\<lambda>(name, d). (name, loads fl d)) (sse_parse (concat (event_source py_str gone 0 evs))) =
      map (\<lambda>e. (fst e, Inr (sse_wire py_str e))) (take n evs)"
proof -
  obtain n where n: "n \<le> length evs" "(\<forall>j. \<not> gone j) \<longrightarrow> n = length evs"
    "sse_parse (concat (event_source py_str gone 0 evs)) =
      map (\<lambda>e. (fst e, dumps (sse_wire py_str e))) (take n evs)"
    using sse_parse_source [OF assms, of py_str gone 0] by auto
  have "loads fl (dumps (sse_wire py_str e)) = Inr (sse_wire py_str e)" if "e \<in> set evs" for e
    using loads_dumps [OF sse_wire_ok, of fl e "[]" "[]"] assms that by (simp add: sse_ok_def)
  then show ?thesis
    using n by (intro exI [of _ n]) (auto dest: in_set_takeD)
qed

theorem sse_roundtrip_witness:
  "map (\<lambda>(name, d). (name, loads (\<lambda>t. t) d))
     (sse_parse (concat (event_source (\<lambda>_. []) (\<lambda>_. False) 0 [ev_delta [10, 34, 20320], ev_error [10]]))) =
   [(asc ''delta'', Inr (JDict [(asc ''text'', JStr [10, 34, 20320])])),
    (asc ''error'', Inr (JDict [(asc ''message'', JStr [10])]))]"
proof -
  have ok: "\<forall>e \<in> set [ev_delta [10, 34, 20320], ev_error [10]]. sse_ok (\<lambda>t. t) e"
    by (simp add: sse_ok_def ev_delta_def ev_error_def) (simp add: asc_def)
  show ?thesis
    using sse_roundtrip [OF ok, of "\<lambda>_. False" "\<lambda>_. []"]
    by (auto simp: sse_wire_def ev_delta_def ev_error_def) (simp_all add: asc_def)
qed

section \<open>The views of a task\<close>

text \<open>
  The detail endpoint, the task endpoint and the stream agree on the result of a task, however
  it got into the database: the stream replays exactly the summary the detail endpoint shows,
  and in a database that satisfies its invariant the task endpoint shows the same one.  Only
  the transcript differs: the task endpoint shows it as soon as there is one, the detail
  endpoint when the task is done.
\<close>

lemma views_agree:
  assumes "get_recording quiet rid db = (Inr (r, t), db)"
    and "prepare_summary_stream quiet sm rid db = (Inr ctx, db)"
  shows "sc_existing ctx = or_none (dr_summary (to_detail_response r t)) \<and>
    sc_task_id ctx = dr_task_id (to_detail_response r t) \<and>
    (db_ok M db \<longrightarrow> tr_summary (to_task_status_response t) = dr_summary (to_detail_response r t)) \<and>
    dr_transcript (to_detail_response r t) =
      (if dr_status (to_detail_response r t) = DONE then tr_transcript (to_task_status_response t) else None)"
proof -
  have t: "recording_get_by_id db rid = Some r" "get_by_recording db (rec_id r) = Some t"
    using assms(1) by (auto simp: get_recording_def repo_get_by_id_def require_task_def Let_def
        split: option.splits sum.splits)
  have "sc_existing ctx = or_none (dr_summary (to_detail_response r t)) \<and>
    sc_task_id ctx = dr_task_id (to_detail_response r t)"
    using assms(2) t
    by (auto simp: prepare_summary_stream_def repo_get_by_id_def require_task_def Let_def or_none_def
        to_detail_response_def split: if_splits option.splits)
  moreover have "tr_summary (to_task_status_response t) = dr_summary (to_detail_response r t)" if "db_ok M db"
    using db_ok_taskD [OF that, of t] get_by_recording_SomeD [OF t(2)]
    by (auto simp: task_ok_def to_task_status_response_def to_detail_response_def Let_def)
  ultimately show ?thesis
    by (simp add: to_detail_response_def to_task_status_response_def Let_def)
qed

definition done_db :: database where
  "done_db = sample_db\<lparr>tasks := [(sample_task 13 3 50)\<lparr>status := DONE, transcript := Some [65],
     summary := Some (JDict [(asc ''summary'', JStr [66])])\<rparr>]\<rparr>"

lemma views_agree_witness:
  "\<exists>r t ctx. get_recording quiet 3 done_db = (Inr (r, t), done_db) \<and>
     prepare_summary_stream quiet None 3 done_db = (Inr ctx, done_db) \<and>
     sc_existing ctx = Some (JDict [(asc ''summary'', JStr [66])]) \<and>
     sc_existing ctx = or_none (dr_summary (to_detail_response r t))"
proof -
  have g: "get_recording quiet 3 done_db =
      (Inr (sample_recording 3 (asc ''c'') 50, hd (tasks done_db)), done_db)"
    by (simp add: get_recording_def repo_get_by_id_def recording_get_by_id_def get_by_recording_def
        require_task_def by_key_def sql_where_def done_db_def sample_defs)
  obtain ctx where c: "prepare_summary_stream quiet None 3 done_db = (Inr ctx, done_db)"
    "sc_existing ctx = Some (JDict [(asc ''summary'', JStr [66])])"
    by (simp add: prepare_summary_stream_def repo_get_by_id_def recording_get_by_id_def get_by_recording_def
        require_task_def by_key_def sql_where_def or_none_def json_truthy_def done_db_def sample_defs)
  show ?thesis
    using g c views_agree [OF g c(1), of 3] by blast
qed

section \<open>The answer to a retry\<close>

text \<open>
  The status code of a retry tells the state of the task at that moment, whatever other
  sessions do meanwhile: 200 with the row of a task that is queued or being processed, 404
  without a row, 409 for a task that cannot be retried, and 500 only where the worker has not
  been started.  Every answer but the 500 carries the request id.
\<close>

lemma http_retry_status:
  assumes "db_ok M db" and "benign M env"
    and "http_retry_task ck env Commit Commit tid db wk = (res, db', wk')"
  shows "\<exists>resp. fst (serve path q res) = Answer resp \<and>
    ((rs_status resp = 200 \<and> (\<exists>t. get_by_id db' tid = Some t \<and> status t \<in> set RECOVERABLE_STATUSES \<and>
        rs_body resp = TaskBody (to_task_status_response t))) \<or>
     (rs_status resp = 404 \<and> get_by_id db' tid = None) \<or>
     (rs_status resp = 409 \<and> (\<exists>t. get_by_id db' tid = Some t \<and> status t \<in> set TERMINAL_STATUSES)) \<or>
     (rs_status resp = 500 \<and> (\<exists>ws. wk = Some ws \<and> \<not> started ws))) \<and>
    ((asc ''X-Request-ID'', q) \<in> set (rs_headers resp) \<longleftrightarrow> rs_status resp \<noteq> 500)"
proof -
  obtain r where r: "task_service_retry ck env Commit Commit tid db wk = (r, db', wk')"
    and res: "res = of_tx (\<lambda>t. respond 200 (TaskBody (to_task_status_response t))) r"
    using assms(3) by (auto simp: http_retry_task_def split: prod.splits)
  note serve_defs = of_tx_def serve_def run_handlers_def request_context_def domain_handler_def
    unhandled_handler_def error_json_def respond_def
  from retry_answer_current [OF assms(1,2) r] show ?thesis
  proof (elim disjE exE conjE)
    fix t assume "r = Returned t" "get_by_id db' tid = Some t" "status t \<in> set RECOVERABLE_STATUSES"
    then show ?thesis by (simp add: res serve_defs del: recoverable_iff)
  next
    fix t assume "r = Raised (TaskNotRetryableError (msg_not_retryable (status t)))"
      "get_by_id db' tid = Some t" "status t \<in> set TERMINAL_STATUSES"
    then show ?thesis by (simp add: res serve_defs)
  next
    assume "r = Raised (TaskNotFoundError (msg_task_missing tid))" "get_by_id db' tid = None"
    then show ?thesis by (simp add: res serve_defs)
  next
    fix ws assume "wk = Some ws" "\<not> started ws" "r = Raised (RuntimeError msg_not_started)"
    then show ?thesis by (simp add: res serve_defs)
  qed
qed

lemma http_retry_status_witness:
  "\<exists>resp. fst (serve (asc ''/v1/tasks/13/retry'') (asc ''q'')
       (fst (http_retry_task ck0 quiet Commit Commit 13 sample_db None))) = Answer resp \<and>
     rs_status resp = 200 \<and> (asc ''X-Request-ID'', asc ''q'') \<in> set (rs_headers resp)"
proof -
  obtain res db' wk' where r: "http_retry_task ck0 quiet Commit Commit 13 sample_db None = (res, db', wk')"
    by (metis prod.collapse)
  have "task_repo_requeue_failed ck0 Commit 13 sample_db = (Returned None, sample_db)"
    using requeue_failed_none [OF sample_db_ok, of ck0 13]
    by (simp add: task_repo_requeue_failed_eq [OF sample_db_ok] requeue_failed_result [OF sample_db_ok] busy_task_def)
  then have db': "db' = sample_db" "wk' = None"
    using r by (auto simp: http_retry_task_def task_service_retry_def task_repo_get_by_id_def busy_task_def)
  obtain resp where "fst (serve (asc ''/v1/tasks/13/retry'') (asc ''q'') res) = Answer resp"
    "rs_status resp = 200 \<or> (\<exists>t. get_by_id sample_db 13 = Some t \<and> status t \<in> set TERMINAL_STATUSES)"
    "((asc ''X-Request-ID'', asc ''q'') \<in> set (rs_headers resp)) = (rs_status resp \<noteq> 500)"
    using http_retry_status [OF sample_db_ok benign_quiet r, of "asc ''/v1/tasks/13/retry''" "asc ''q''"]
    by (auto simp: db')
  then show ?thesis
    using r by (auto simp: busy_task_def TERMINAL_STATUSES_def)
qed

end
