(* ===== verification/Logger.thy ===== *)
theory Logger
  imports Json_Codec
begin

text \<open>
  \<open>api/core/logger/__init__.py\<close>: the context variables every log record is tagged with, the
  patcher, the renderers and the set-up of the sinks.  Loguru itself (levels, filters, files)
  and the clock's printing are parameters: \<open>iso_ts\<close> is \<open>isoformat(timespec='milliseconds')\<close> of
  the UTC time, \<open>str_time\<close> the \<open>strftime\<close> of the text format with its last three characters
  dropped, \<open>str\<close> is \<open>str()\<close> of a value, and the names of the levels loguru knows.
\<close>

section \<open>Context variables\<close>

datatype ctx_var = RequestId | TaskId | RecordingId | WorkerId

type_synonym log_ctx = "ctx_var \<Rightarrow> pstr option"

text \<open>\<open>ContextVar.set\<close> returns a token that remembers the old value, for \<open>reset\<close>.\<close>

type_synonym ctx_token = "ctx_var \<times> pstr option"

definition bind_var :: "ctx_var \<Rightarrow> pstr option \<Rightarrow> log_ctx \<Rightarrow> ctx_token \<times> log_ctx" where
  "bind_var v x c = ((v, c v), c(v := x))"

definition reset_var :: "ctx_token \<Rightarrow> log_ctx \<Rightarrow> log_ctx" where
  "reset_var tok c = (case tok of (v, old) \<Rightarrow> c(v := old))"

text \<open>\<open>log_context\<close>: the values that are not \<open>None\<close> are bound, in this order.\<close>

fun enter_context :: "(ctx_var \<times> pstr option) list \<Rightarrow> log_ctx \<Rightarrow> ctx_token list \<times> log_ctx" where
  "enter_context [] c = ([], c)"
| "enter_context ((v, x) # vs) c =
     (case x of
        None \<Rightarrow> enter_context vs c
      | Some t \<Rightarrow> (case bind_var v (Some t) c of
                    (tok, c') \<Rightarrow> (case enter_context vs c' of (toks, c'') \<Rightarrow> (tok # toks, c''))))"

definition log_context ::
  "pstr option \<Rightarrow> pstr option \<Rightarrow> pstr option \<Rightarrow> (log_ctx \<Rightarrow> 'a \<times> log_ctx) \<Rightarrow> log_ctx \<Rightarrow> 'a \<times> log_ctx" where
  "log_context req task recording body c =
     (case enter_context [(RequestId, req), (TaskId, task), (RecordingId, recording)] c of
        (toks, c1) \<Rightarrow>
          (case body c1 of (res, c2) \<Rightarrow> (res, fold reset_var (rev toks) c2)))"

section \<open>Records\<close>

record log_exc =
  exc_type :: pstr
  exc_message :: pstr
  exc_traceback :: pstr

datatype extra_val = Val json | LazyRender pstr | ExcInfo log_exc

record log_record =
  lg_time :: time
  lg_level :: pstr
  lg_name :: pstr
  lg_message :: pstr
  lg_extra :: "(pstr \<times> extra_val) list"
  lg_exception :: "log_exc option"

definition dict_get :: "pstr \<Rightarrow> (pstr \<times> 'a) list \<Rightarrow> 'a option" where
  "dict_get k d = map_of d k"

definition dict_setdefault :: "pstr \<Rightarrow> 'a \<Rightarrow> (pstr \<times> 'a) list \<Rightarrow> (pstr \<times> 'a) list" where
  "dict_setdefault k v d = (if k \<in> fst ` set d then d else d @ [(k, v)])"

definition opt_json :: "pstr option \<Rightarrow> json" where
  "opt_json x = (case x of None \<Rightarrow> JNull | Some s \<Rightarrow> JStr s)"

text \<open>A value that \<open>json.dumps\<close> does not know is printed by \<open>default=str\<close>.\<close>

definition to_json :: "(extra_val \<Rightarrow> pstr) \<Rightarrow> extra_val \<Rightarrow> json" where
  "to_json str v = (case v of Val j \<Rightarrow> j | _ \<Rightarrow> JStr (str v))"

text \<open>\<open>extra.get(k)\<close> as a value, \<open>None\<close> where there is none.\<close>

definition get_json :: "(extra_val \<Rightarrow> pstr) \<Rightarrow> pstr \<Rightarrow> (pstr \<times> extra_val) list \<Rightarrow> json" where
  "get_json str k extra = (case dict_get k extra of None \<Rightarrow> JNull | Some v \<Rightarrow> to_json str v)"

section \<open>The patcher\<close>

definition render_key :: "pstr \<Rightarrow> pstr" where
  "render_key name = asc ''_r_'' @ name"

definition render_keys :: "pstr list" where
  "render_keys = map render_key [asc ''json'', asc ''console'', asc ''plain'']"

definition reserved :: "pstr list" where
  "reserved = [asc ''name'', asc ''event'', asc ''request_id'', asc ''task_id'', asc ''recording_id'',
     asc ''worker_id'', asc ''instance_id'', asc ''duration_ms'', asc ''error'', asc ''_exc''] @ render_keys"

definition patch_extra ::
  "log_ctx \<Rightarrow> pstr option \<Rightarrow> (pstr \<times> extra_val) list \<Rightarrow> (pstr \<times> extra_val) list" where
  "patch_extra c instance extra =
     fold (\<lambda>(k, v). dict_setdefault k (Val v))
       [(asc ''name'', JStr (asc ''app'')), (asc ''request_id'', opt_json (c RequestId)),
        (asc ''task_id'', opt_json (c TaskId)), (asc ''recording_id'', opt_json (c RecordingId)),
        (asc ''worker_id'', opt_json (c WorkerId)), (asc ''instance_id'', opt_json instance)] extra"

definition patcher :: "pstr list \<Rightarrow> log_ctx \<Rightarrow> pstr option \<Rightarrow> log_record \<Rightarrow> log_record" where
  "patcher active c instance r =
     (let extra = fold (\<lambda>name. dict_set (render_key name) (LazyRender name)) active
                    (patch_extra c instance (lg_extra r))
      in case lg_exception r of
           None \<Rightarrow> r\<lparr>lg_extra := extra\<rparr>
         | Some e \<Rightarrow> r\<lparr>lg_extra := dict_set (asc ''_exc'') (ExcInfo e) extra, lg_exception := None\<rparr>)"

section \<open>The JSON line\<close>

text \<open>\<open>s.replace(p, q)\<close>.\<close>

fun replace_sub :: "pstr \<Rightarrow> pstr \<Rightarrow> pstr \<Rightarrow> pstr" where
  "replace_sub p q [] = []"
| "replace_sub p q (x # xs) =
     (if p \<noteq> [] \<and> take (length p) (x # xs) = p then q @ replace_sub p q (drop (length p - 1) xs)
      else x # replace_sub p q xs)"

definition dominant_error :: "(extra_val \<Rightarrow> pstr) \<Rightarrow> (pstr \<times> extra_val) list \<Rightarrow> json option" where
  "dominant_error str extra =
     (if get_json str (asc ''error'') extra \<noteq> JNull then Some (get_json str (asc ''error'') extra)
      else case dict_get (asc ''_exc'') extra of
             Some (ExcInfo e) \<Rightarrow> Some (JDict [(asc ''type'', JStr (exc_type e)),
                (asc ''message'', JStr (exc_message e)), (asc ''traceback'', JStr (exc_traceback e))])
           | _ \<Rightarrow> None)"

definition domain_extra :: "(pstr \<times> extra_val) list \<Rightarrow> (pstr \<times> extra_val) list" where
  "domain_extra extra = filter (\<lambda>(k, v). k \<notin> set reserved) extra"

definition logger_name :: "(extra_val \<Rightarrow> pstr) \<Rightarrow> log_record \<Rightarrow> json" where
  "logger_name str r =
     (let n = get_json str (asc ''name'') (lg_extra r) in if json_truthy n then n else JStr (lg_name r))"

definition log_doc :: "(time \<Rightarrow> pstr) \<Rightarrow> (extra_val \<Rightarrow> pstr) \<Rightarrow> log_record \<Rightarrow> (pstr \<times> json) list" where
  "log_doc iso_ts str r =
     (let extra = lg_extra r;
          dur = get_json str (asc ''duration_ms'') extra;
          dom = domain_extra extra
      in [(asc ''ts'', JStr (replace_sub (asc ''+00:00'') (asc ''Z'') (iso_ts (lg_time r)))),
          (asc ''level'', JStr (lg_level r)),
          (asc ''logger'', logger_name str r),
          (asc ''event'', get_json str (asc ''event'') extra),
          (asc ''message'', JStr (lg_message r)),
          (asc ''request_id'', get_json str (asc ''request_id'') extra),
          (asc ''task_id'', get_json str (asc ''task_id'') extra),
          (asc ''recording_id'', get_json str (asc ''recording_id'') extra),
          (asc ''worker_id'', get_json str (asc ''worker_id'') extra),
          (asc ''instance_id'', get_json str (asc ''instance_id'') extra)] @
         (if dur \<noteq> JNull then [(asc ''duration_ms'', dur)] else []) @
         (case dominant_error str extra of None \<Rightarrow> [] | Some e \<Rightarrow> [(asc ''error'', e)]) @
         (if dom = [] then [] else [(asc ''extra'', JDict (map (\<lambda>(k, v). (k, to_json str v)) dom))]))"

definition json_formatter :: "(time \<Rightarrow> pstr) \<Rightarrow> (extra_val \<Rightarrow> pstr) \<Rightarrow> log_record \<Rightarrow> pstr" where
  "json_formatter iso_ts str r = dumps (JDict (log_doc iso_ts str r))"

section \<open>The text line\<close>

definition short_text :: "pstr \<Rightarrow> pstr" where
  "short_text t = (if t = [] then asc ''-'' else if length t \<le> 8 then t else take 8 t @ [8230])"

definition dim :: pstr where "dim = [27] @ asc ''[2m''"
definition reset_code :: pstr where "reset_code = [27] @ asc ''[0m''"
definition magenta :: pstr where "magenta = [27] @ asc ''[35m''"

definition level_color :: "pstr \<Rightarrow> pstr" where
  "level_color level =
     (case map_of [(asc ''TRACE'', asc ''[35m''), (asc ''DEBUG'', asc ''[34m''), (asc ''INFO'', asc ''[32m''),
        (asc ''SUCCESS'', asc ''[32m''), (asc ''WARNING'', asc ''[33m''), (asc ''ERROR'', asc ''[31m''),
        (asc ''CRITICAL'', asc ''[1;31m'')] level of
        None \<Rightarrow> [] | Some c \<Rightarrow> [27] @ c)"

definition context_parts :: "(extra_val \<Rightarrow> pstr) \<Rightarrow> (pstr \<times> extra_val) list \<Rightarrow> bool \<Rightarrow> pstr" where
  "context_parts str extra colored =
     (let part = (\<lambda>(label, k).
            (case dict_get k extra of
               Some v \<Rightarrow> (if json_truthy (to_json str v) then [label @ asc ''='' @ short_text (str v)] else [])
             | None \<Rightarrow> []));
          parts = concat (map part
            [(asc ''task'', asc ''task_id''), (asc ''req'', asc ''request_id''), (asc ''rec'', asc ''recording_id''),
             (asc ''w'', asc ''worker_id''), (asc ''inst'', asc ''instance_id'')]);
          text = (if join_with (asc '' '') parts = [] then asc ''-'' else join_with (asc '' '') parts)
      in if colored then dim @ text @ reset_code else text)"

definition pad7 :: "pstr \<Rightarrow> pstr" where
  "pad7 s = s @ replicate (7 - length s) 32"

definition text_formatter ::
  "(bool \<Rightarrow> time \<Rightarrow> pstr) \<Rightarrow> (extra_val \<Rightarrow> pstr) \<Rightarrow> bool \<Rightarrow> log_record \<Rightarrow> pstr" where
  "text_formatter str_time str colored r =
     (let extra = lg_extra r;
          ctx = context_parts str extra colored;
          ts = str_time colored (lg_time r);
          bar = asc '' | '';
          head = (if colored
                  then dim @ ts @ reset_code @ bar @ level_color (lg_level r) @ pad7 (lg_level r) @ reset_code
                  else ts @ bar @ pad7 (lg_level r)) @ bar @ ctx @ bar;
          name = str (Val (logger_name str r));
          tail = (if colored then magenta @ name @ reset_code else name);
          ev = get_json str (asc ''event'') extra;
          line = head @ (if json_truthy ev then str (Val ev) else asc ''-'') @ bar @ tail @ bar @ lg_message r;
          dur = get_json str (asc ''duration_ms'') extra;
          suffix = asc ''('' @ str (Val dur) @ asc ''ms)'';
          line1 = (if dur = JNull then line
                   else line @ asc '' '' @ (if colored then dim @ suffix @ reset_code else suffix));
          dom = domain_extra extra;
          rendered = join_with (asc '' '') (map (\<lambda>(k, v). k @ asc ''='' @ str v) dom);
          line2 = (if dom = [] then line1
                   else line1 @ asc ''  '' @ (if colored then dim @ rendered @ reset_code else rendered))
      in case dominant_error str extra of
           Some (JDict d) \<Rightarrow>
             (case dict_get (asc ''traceback'') d of
                Some tb \<Rightarrow> (if json_truthy tb then line2 @ [10] @ rstrip_by is_space (str (Val tb)) else line2)
              | None \<Rightarrow> line2)
         | _ \<Rightarrow> line2)"

definition plain_formatter :: "(bool \<Rightarrow> time \<Rightarrow> pstr) \<Rightarrow> (extra_val \<Rightarrow> pstr) \<Rightarrow> log_record \<Rightarrow> pstr" where
  "plain_formatter str_time str r = text_formatter str_time str False r"

definition console_formatter :: "(bool \<Rightarrow> time \<Rightarrow> pstr) \<Rightarrow> (extra_val \<Rightarrow> pstr) \<Rightarrow> log_record \<Rightarrow> pstr" where
  "console_formatter str_time str r = text_formatter str_time str True r"

section \<open>Set-up\<close>

text \<open>
  The sinks, each with the renderer its format \<open>{extra[_r_...]}\<close> asks for, and the standard
  library's loggers that are taken over, with their levels.
\<close>

datatype sink_target = Stdout | LogFile pstr int int

record log_setup =
  ls_active :: "pstr list"
  ls_sinks :: "(sink_target \<times> pstr \<times> pstr) list"
  ls_std :: "(pstr \<times> pstr) list"

definition setup_logging ::
  "(pstr \<Rightarrow> pstr) \<Rightarrow> pstr \<Rightarrow> bool \<Rightarrow> pstr option \<Rightarrow> int \<Rightarrow> int \<Rightarrow> log_setup \<Rightarrow> log_setup" where
  "setup_logging upper level log_json log_file max_bytes backup_count old =
     (let lv = upper level;
          active = (if log_json then [asc ''json''] else [asc ''console'', asc ''plain'']);
          console_format = (if log_json then asc ''json'' else asc ''console'');
          file_format = (if log_json then asc ''json'' else asc ''plain'')
      in \<lparr>ls_active = active,
          ls_sinks = (Stdout, lv, console_format) #
            (if or_str log_file [] = [] then []
             else [(LogFile (or_str log_file []) max_bytes backup_count, lv, file_format)]),
          ls_std = fold (\<lambda>(n, l). dict_set n l)
            [([], lv), (asc ''uvicorn'', lv), (asc ''uvicorn.error'', lv),
             (asc ''uvicorn.access'', asc ''WARNING''), (asc ''asyncio'', asc ''WARNING'')] (ls_std old)\<rparr>)"

text \<open>A record that reaches a sink: the format takes the renderer out of \<open>extra\<close>.\<close>

definition emit ::
  "(time \<Rightarrow> pstr) \<Rightarrow> (bool \<Rightarrow> time \<Rightarrow> pstr) \<Rightarrow> (extra_val \<Rightarrow> pstr) \<Rightarrow> pstr \<Rightarrow> log_record \<Rightarrow> pstr option" where
  "emit iso_ts str_time str fmt r =
     (case dict_get (render_key fmt) (lg_extra r) of
        Some (LazyRender name) \<Rightarrow>
          Some (if name = asc ''json'' then json_formatter iso_ts str r
                else if name = asc ''console'' then console_formatter str_time str r
                else plain_formatter str_time str r)
      | _ \<Rightarrow> None)"

text \<open>
  \<open>_LazyRender.__str__\<close>: the first \<open>str()\<close> renders and keeps the text, for every sink that asks
  again.  The record it holds is the one it was made for.
\<close>

record lazy_render =
  lz_record :: log_record
  lz_cache :: "pstr option"

definition lazy_str :: "(log_record \<Rightarrow> pstr) \<Rightarrow> lazy_render \<Rightarrow> pstr \<times> lazy_render" where
  "lazy_str fn z =
     (case lz_cache z of
        Some t \<Rightarrow> (t, z)
      | None \<Rightarrow> (let t = fn (lz_record z) in (t, z\<lparr>lz_cache := Some t\<rparr>)))"

section \<open>The standard library's records\<close>

text \<open>
  \<open>InterceptHandler.emit\<close>.  \<open>frames\<close> are the frames of the call stack, innermost first, each with
  its file and its module; the depth is the number of frames loguru has to go out to find the
  caller, past those of \<open>logging\<close> itself.
\<close>

record std_record =
  sr_level :: pstr
  sr_levelno :: nat
  sr_name :: pstr
  sr_message :: pstr
  sr_exc :: "log_exc option"

fun caller_depth :: "pstr \<Rightarrow> (pstr \<times> pstr) list \<Rightarrow> nat \<Rightarrow> nat" where
  "caller_depth file [] depth = depth"
| "caller_depth file (f # fs) depth =
     (if depth = 0 \<or> fst f = file then caller_depth file fs (Suc depth) else depth)"

text \<open>A level loguru does not know by name is given as its number.\<close>

definition intercept_level :: "pstr list \<Rightarrow> std_record \<Rightarrow> pstr" where
  "intercept_level known r =
     (if sr_level r \<in> set known then sr_level r else asc ''Level '' @ nat_str (sr_levelno r))"

definition intercept ::
  "pstr list \<Rightarrow> pstr \<Rightarrow> (pstr \<times> pstr) list \<Rightarrow> time \<Rightarrow> std_record \<Rightarrow> log_record option" where
  "intercept known file frames t r =
     (let d = caller_depth file frames 0
      in if length frames \<le> d then None
         else Some \<lparr>lg_time = t, lg_level = intercept_level known r, lg_name = snd (frames ! d),
                    lg_message = sr_message r, lg_extra = [(asc ''name'', Val (JStr (sr_name r)))],
                    lg_exception = sr_exc r\<rparr>)"

end
