(* ===== verification/Logger_Properties.thy ===== *)
theory Logger_Properties
  imports Logger Json_Properties
begin

text \<open>
  The context variables are restored, every sink finds its renderer, and in JSON mode whatever
  is logged becomes one line that parses back to the record.
\<close>

section \<open>The context\<close>

definition ctx_inside ::
  "pstr option \<Rightarrow> pstr option \<Rightarrow> pstr option \<Rightarrow> log_ctx \<Rightarrow> log_ctx" where
  "ctx_inside req task recording c v =
     (let x = (case v of RequestId \<Rightarrow> req | TaskId \<Rightarrow> task | RecordingId \<Rightarrow> recording | WorkerId \<Rightarrow> None)
      in if x = None then c v else x)"

text \<open>
  Inside \<open>log_context\<close> the given ids are bound and the others are as before; after it the ids
  it has bound have their old values again, whatever the body bound meanwhile, and the other
  variables are as the body left them.
\<close>

lemma log_context_restores:
  "log_context req task recording body c =
    (case body (ctx_inside req task recording c) of
       (res, c2) \<Rightarrow> (res, \<lambda>v. if ctx_inside req task recording (\<lambda>_. None) v = None then c2 v else c v))"
proof -
  have inside: "snd (enter_context [(RequestId, req), (TaskId, task), (RecordingId, recording)] c) =
      ctx_inside req task recording c"
    by (rule ext) (auto simp: ctx_inside_def bind_var_def Let_def split: option.splits ctx_var.splits)
  have out: "fold reset_var (rev (fst (enter_context [(RequestId, req), (TaskId, task), (RecordingId, recording)] c))) c2 v =
      (if ctx_inside req task recording (\<lambda>_. None) v = None then c2 v else c v)" for c2 v
    by (cases v) (auto simp: ctx_inside_def bind_var_def reset_var_def Let_def split: option.splits)
  have out': "fold reset_var (rev (fst (enter_context [(RequestId, req), (TaskId, task), (RecordingId, recording)] c))) c2 =
      (\<lambda>v. if ctx_inside req task recording (\<lambda>_. None) v = None then c2 v else c v)" for c2
    by (rule ext) (rule out)
  show ?thesis
    using inside out' by (auto simp: log_context_def split: prod.splits)
qed

section \<open>The extra fields of a patched record\<close>

lemma map_of_setdefault:
  "map_of (dict_setdefault k v d) j =
     (case map_of d j of Some x \<Rightarrow> Some x | None \<Rightarrow> if j = k then Some v else None)"
proof -
  have "map_of (d @ [(k, v)]) j = (case map_of d j of Some x \<Rightarrow> Some x | None \<Rightarrow> if j = k then Some v else None)"
    by (induction d) auto
  moreover have "k \<in> fst ` set d \<longleftrightarrow> map_of d k \<noteq> None"
    by (simp add: map_of_eq_None_iff)
  ultimately show ?thesis
    unfolding dict_setdefault_def by (auto simp del: map_of_append split: option.splits)
qed

lemma distinct_setdefault: "distinct (map fst d) \<Longrightarrow> distinct (map fst (dict_setdefault k v d))"
  by (auto simp: dict_setdefault_def)

text \<open>Every key is unique and every value the caller or the context gave can be printed and read back.\<close>

definition val_ok :: "(pstr \<Rightarrow> pstr) \<Rightarrow> extra_val \<Rightarrow> bool" where
  "val_ok fl v = (case v of Val j \<Rightarrow> json_ok fl j | _ \<Rightarrow> True)"

definition extra_ok :: "(pstr \<Rightarrow> pstr) \<Rightarrow> (pstr \<times> extra_val) list \<Rightarrow> bool" where
  "extra_ok fl d \<longleftrightarrow> distinct (map fst d) \<and> list_all (\<lambda>p. val_ok fl (snd p)) d"

lemma extra_ok_setdefault: "extra_ok fl d \<Longrightarrow> val_ok fl v \<Longrightarrow> extra_ok fl (dict_setdefault k v d)"
  by (auto simp: extra_ok_def dict_setdefault_def)

lemma list_all_dict_set: "list_all P d \<Longrightarrow> P (k, v) \<Longrightarrow> list_all P (dict_set k v d)"
  by (induction d) auto

lemma extra_ok_set: "extra_ok fl d \<Longrightarrow> val_ok fl v \<Longrightarrow> extra_ok fl (dict_set k v d)"
  by (simp add: extra_ok_def distinct_dict_set list_all_dict_set)

lemma extra_ok_fold_set:
  "extra_ok fl d \<Longrightarrow> extra_ok fl (fold (\<lambda>n. dict_set (render_key n) (LazyRender n)) ns d)"
  by (induction ns arbitrary: d) (simp_all add: extra_ok_set val_ok_def)

lemma extra_ok_patch: "extra_ok fl d \<Longrightarrow> extra_ok fl (patch_extra c inst d)"
  by (auto simp: patch_extra_def intro!: extra_ok_setdefault)
    (simp_all add: val_ok_def opt_json_def split: option.splits)

lemma extra_ok_patcher: "extra_ok fl (lg_extra r) \<Longrightarrow> extra_ok fl (lg_extra (patcher active c inst r))"
  by (auto simp: patcher_def Let_def intro!: extra_ok_set extra_ok_fold_set extra_ok_patch
      split: option.splits) (simp add: val_ok_def)

lemma get_json_ok: "extra_ok fl d \<Longrightarrow> json_ok fl (get_json str k d)"
  by (auto simp: get_json_def dict_get_def to_json_def extra_ok_def list_all_iff val_ok_def
      split: option.splits extra_val.splits dest!: map_of_SomeD)

section \<open>The document\<close>

lemma log_doc_ok:
  assumes "extra_ok fl (lg_extra r)"
  shows "json_ok fl (JDict (log_doc iso_ts str r))"
proof -
  let ?x = "lg_extra r"
  have dom: "json_ok fl (JDict (map (\<lambda>(k, v). (k, to_json str v)) (domain_extra ?x)))"
  proof -
    have "map fst (map (\<lambda>(k, v). (k, to_json str v)) (domain_extra ?x)) =
        map fst (filter (\<lambda>p. fst p \<notin> set reserved) ?x)"
      by (simp add: domain_extra_def case_prod_beta')
    then have "distinct (map fst (map (\<lambda>(k, v). (k, to_json str v)) (domain_extra ?x)))"
      using assms by (simp add: extra_ok_def distinct_map_filter)
    moreover have "json_ok fl (to_json str v)" if "(k, v) \<in> set ?x" for k v
      using assms that by (auto simp: extra_ok_def list_all_iff val_ok_def to_json_def split: extra_val.splits)
    ultimately show ?thesis
      by (auto simp: list_all_iff domain_extra_def)
  qed
  have err: "json_ok fl e" if "dominant_error str ?x = Some e" for e
    using that get_json_ok [OF assms]
    by (auto simp: dominant_error_def asc_def split: if_splits option.splits extra_val.splits)
  have name: "json_ok fl (logger_name str r)"
    using get_json_ok [OF assms] by (simp add: logger_name_def Let_def)
  have "distinct (map fst (log_doc iso_ts str r))"
    by (simp add: log_doc_def Let_def asc_def split: option.splits)
  moreover have "list_all (\<lambda>kv. json_ok fl (snd kv)) (log_doc iso_ts str r)"
    using dom err name get_json_ok [OF assms]
    by (auto simp: log_doc_def Let_def split: option.splits)
  ultimately show ?thesis by simp
qed

section \<open>Looking a field up after the patcher\<close>

lemma render_key_inj [simp]: "render_key m = render_key n \<longleftrightarrow> m = n"
  by (simp add: render_key_def)

lemma map_of_fold_set:
  "map_of (fold (\<lambda>n. dict_set (render_key n) (LazyRender n)) ns d) k =
     (if k \<in> render_key ` set ns then Some (LazyRender (drop 3 k)) else map_of d k)"
proof (induction ns arbitrary: d)
  case (Cons n ns)
  have "drop 3 (render_key n) = n" by (simp add: render_key_def asc_def)
  then show ?case by (auto simp: Cons.IH map_of_dict_set)
qed simp

lemma patcher_lookup:
  assumes "k \<notin> render_key ` set active" and "k \<noteq> asc ''_exc''"
  shows "map_of (lg_extra (patcher active c inst r)) k = map_of (patch_extra c inst (lg_extra r)) k"
  using assms by (auto simp: patcher_def Let_def map_of_dict_set map_of_fold_set split: option.splits)

lemma patcher_renders:
  assumes "fmt \<in> set active"
  shows "dict_get (render_key fmt) (lg_extra (patcher active c inst r)) = Some (LazyRender fmt)"
  using assms
  by (auto simp: dict_get_def patcher_def Let_def map_of_dict_set map_of_fold_set split: option.splits)
    (auto simp: render_key_def asc_def)

text \<open>The fields of the context, where the caller has not given them.\<close>

definition ctx_fields :: "log_ctx \<Rightarrow> pstr option \<Rightarrow> (pstr \<times> pstr option) list" where
  "ctx_fields c inst =
     [(asc ''request_id'', c RequestId), (asc ''task_id'', c TaskId), (asc ''recording_id'', c RecordingId),
      (asc ''worker_id'', c WorkerId), (asc ''instance_id'', inst)]"

lemma map_of_fold_setdefault:
  "map_of (fold (\<lambda>(k, v). dict_setdefault k (Val v)) kvs d) k =
     (case map_of d k of Some x \<Rightarrow> Some x | None \<Rightarrow> map_option Val (map_of kvs k))"
proof (induction kvs arbitrary: d)
  case (Cons kv kvs)
  obtain a v where [simp]: "kv = (a, v)" by (cases kv)
  show ?case
    by (auto simp: Cons.IH map_of_setdefault split: option.splits)
qed (simp split: option.splits)

lemma patch_ctx:
  assumes "(k, x) \<in> set (ctx_fields c inst)" and "k \<notin> fst ` set d"
  shows "map_of (patch_extra c inst d) k = Some (Val (opt_json x))"
proof -
  have "map_of d k = None" using assms(2) by (simp add: map_of_eq_None_iff)
  moreover have "map_of ([(asc ''name'', JStr (asc ''app'')), (asc ''request_id'', opt_json (c RequestId)),
        (asc ''task_id'', opt_json (c TaskId)), (asc ''recording_id'', opt_json (c RecordingId)),
        (asc ''worker_id'', opt_json (c WorkerId)), (asc ''instance_id'', opt_json inst)]) k = Some (opt_json x)"
    using assms(1) by (auto simp: ctx_fields_def asc_inj)
  ultimately show ?thesis
    by (simp add: patch_extra_def map_of_fold_setdefault del: fold.simps map_of.simps)
qed

lemma patch_keeps: "map_of d k = Some v \<Longrightarrow> map_of (patch_extra c inst d) k = Some v"
  by (simp add: patch_extra_def map_of_fold_setdefault del: fold.simps)

section \<open>The line\<close>

lemma log_doc_head:
  "\<exists>ts rest. log_doc iso_ts str r =
     [(asc ''ts'', ts), (asc ''level'', JStr (lg_level r)), (asc ''logger'', logger_name str r),
      (asc ''event'', get_json str (asc ''event'') (lg_extra r)), (asc ''message'', JStr (lg_message r)),
      (asc ''request_id'', get_json str (asc ''request_id'') (lg_extra r)),
      (asc ''task_id'', get_json str (asc ''task_id'') (lg_extra r)),
      (asc ''recording_id'', get_json str (asc ''recording_id'') (lg_extra r)),
      (asc ''worker_id'', get_json str (asc ''worker_id'') (lg_extra r)),
      (asc ''instance_id'', get_json str (asc ''instance_id'') (lg_extra r))] @ rest"
  unfolding log_doc_def Let_def by blast

lemma log_doc_ctx:
  assumes "(k, x) \<in> set (ctx_fields c inst)"
  shows "map_of (log_doc iso_ts str r) k = Some (get_json str k (lg_extra r))"
proof -
  obtain ts rest where d: "log_doc iso_ts str r =
     [(asc ''ts'', ts), (asc ''level'', JStr (lg_level r)), (asc ''logger'', logger_name str r),
      (asc ''event'', get_json str (asc ''event'') (lg_extra r)), (asc ''message'', JStr (lg_message r)),
      (asc ''request_id'', get_json str (asc ''request_id'') (lg_extra r)),
      (asc ''task_id'', get_json str (asc ''task_id'') (lg_extra r)),
      (asc ''recording_id'', get_json str (asc ''recording_id'') (lg_extra r)),
      (asc ''worker_id'', get_json str (asc ''worker_id'') (lg_extra r)),
      (asc ''instance_id'', get_json str (asc ''instance_id'') (lg_extra r))] @ rest"
    using log_doc_head by blast
  have "k = asc ''request_id'' \<or> k = asc ''task_id'' \<or> k = asc ''recording_id'' \<or> k = asc ''worker_id'' \<or>
      k = asc ''instance_id''"
    using assms by (auto simp: ctx_fields_def)
  then show ?thesis
    unfolding d by (elim disjE) (simp_all add: asc_inj)
qed

lemma log_doc_fixed:
  "map_of (log_doc iso_ts str r) (asc ''message'') = Some (JStr (lg_message r))"
  "map_of (log_doc iso_ts str r) (asc ''level'') = Some (JStr (lg_level r))"
  by (simp_all add: log_doc_def Let_def asc_inj)

lemma log_doc_extra:
  assumes "(k, Val j) \<in> set (lg_extra r)" and "k \<notin> set reserved" and "distinct (map fst (lg_extra r))"
  shows "\<exists>d. map_of (log_doc iso_ts str r) (asc ''extra'') = Some (JDict d) \<and> map_of d k = Some j"
proof -
  let ?dom = "domain_extra (lg_extra r)"
  have mem: "(k, Val j) \<in> set ?dom" using assms(1,2) by (simp add: domain_extra_def)
  have d: "distinct (map fst ?dom)"
    using distinct_map_filter [OF assms(3)] by (simp add: domain_extra_def case_prod_beta')
  have "map_of (map (\<lambda>(k, v). (k, to_json str v)) ?dom) k = Some j"
    using map_of_is_SomeI [OF d mem] by (simp add: map_of_map to_json_def)
  moreover have "map_of (log_doc iso_ts str r) (asc ''extra'') = Some (JDict (map (\<lambda>(k, v). (k, to_json str v)) ?dom))"
    using mem by (auto simp: log_doc_def Let_def asc_def split: option.splits)
  ultimately show ?thesis by blast
qed

lemma patcher_fixed [simp]:
  "lg_message (patcher active c inst r) = lg_message r" "lg_level (patcher active c inst r) = lg_level r"
  by (simp_all add: patcher_def Let_def split: option.splits)

lemma setup_sink:
  assumes "(tgt, lv, fmt) \<in> set (ls_sinks (setup_logging upper level log_json file mb bc old))"
  shows "fmt \<in> set (ls_active (setup_logging upper level log_json file mb bc old)) \<and>
    (log_json \<longrightarrow> fmt = asc ''json'')"
  using assms by (auto simp: setup_logging_def Let_def split: if_splits)

text \<open>C39.
  What a sink writes in JSON mode: every record, with whatever message and fields, becomes one
  line (no control character gets into it) that is read back as an object with the record's
  message and level; each id of the context is in its field unless the call gave that field
  itself, and every field of the call that is not reserved is found unchanged under
  \<open>extra\<close>, so none can overwrite the level, the message or the time.
\<close>

theorem log_line_spec:
  assumes "S = setup_logging upper level True file mb bc old" and "(tgt, lv, fmt) \<in> set (ls_sinks S)"
    and "extra_ok fl (lg_extra r)"
  shows "\<exists>line doc. emit iso_ts str_time str fmt (patcher (ls_active S) c inst r) = Some line \<and>
    (\<forall>x \<in> set line. 32 \<le> x) \<and> loads fl line = Inr (JDict doc) \<and>
    map_of doc (asc ''message'') = Some (JStr (lg_message r)) \<and>
    map_of doc (asc ''level'') = Some (JStr (lg_level r)) \<and>
    (\<forall>(k, x) \<in> set (ctx_fields c inst). k \<notin> fst ` set (lg_extra r) \<longrightarrow> map_of doc k = Some (opt_json x)) \<and>
    (\<forall>k j. (k, Val j) \<in> set (lg_extra r) \<and> k \<notin> set reserved \<longrightarrow>
       (\<exists>d. map_of doc (asc ''extra'') = Some (JDict d) \<and> map_of d k = Some j))"
proof -
  let ?p = "patcher (ls_active S) c inst r"
  let ?doc = "log_doc iso_ts str ?p"
  have fmt: "fmt \<in> set (ls_active S)" "fmt = asc ''json''"
    using setup_sink assms(1,2) by blast+
  have ok: "extra_ok fl (lg_extra ?p)"
    by (rule extra_ok_patcher [OF assms(3)])
  note doc_ok = log_doc_ok [OF ok, of iso_ts str]
  have line: "emit iso_ts str_time str fmt ?p = Some (json_formatter iso_ts str ?p)"
    unfolding emit_def patcher_renders [OF fmt(1)] by (simp add: fmt(2))
  have print: "\<forall>x \<in> set (json_formatter iso_ts str ?p). 32 \<le> x"
    unfolding json_formatter_def using dumps_print [OF doc_ok] by blast
  have read: "loads fl (json_formatter iso_ts str ?p) = Inr (JDict ?doc)"
    unfolding json_formatter_def using loads_dumps [OF doc_ok, of "[]" "[]"] by simp
  have ctx: "map_of ?doc k = Some (opt_json x)"
    if k: "(k, x) \<in> set (ctx_fields c inst)" "k \<notin> fst ` set (lg_extra r)" for k x
  proof -
    have "k \<notin> render_key ` set (ls_active S)" "k \<noteq> asc ''_exc''"
      using k(1) by (auto simp: ctx_fields_def render_key_def asc_def)
    then show ?thesis
      using log_doc_ctx [OF k(1), of iso_ts str ?p] patch_ctx [OF k]
      by (simp add: get_json_def dict_get_def to_json_def patcher_lookup)
  qed
  have dom: "\<exists>d. map_of ?doc (asc ''extra'') = Some (JDict d) \<and> map_of d k = Some j"
    if k: "(k, Val j) \<in> set (lg_extra r)" "k \<notin> set reserved" for k j
  proof -
    have "k \<notin> render_key ` set (ls_active S)" "k \<noteq> asc ''_exc''"
      using k(2) by (auto simp: assms(1) setup_logging_def reserved_def render_keys_def Let_def)
    moreover have "map_of (lg_extra r) k = Some (Val j)"
      using k(1) assms(3) by (simp add: extra_ok_def)
    ultimately have "(k, Val j) \<in> set (lg_extra ?p)"
      using patch_keeps by (intro map_of_SomeD) (simp add: patcher_lookup)
    then show ?thesis
      using k(2) ok by (intro log_doc_extra) (simp_all add: extra_ok_def)
  qed
  show ?thesis
    using line print read ctx dom log_doc_fixed [of iso_ts str ?p]
    by (intro exI conjI) (auto simp: patcher_fixed)
qed

definition sample_record :: log_record where
  "sample_record = \<lparr>lg_time = 0, lg_level = asc ''INFO'', lg_name = asc ''app'', lg_message = [10, 34],
     lg_extra = [(asc ''level'', Val (JStr (asc ''fake''))), (asc ''file_name'', Val (JStr [97, 10, 98]))],
     lg_exception = None\<rparr>"

theorem log_line_spec_witness:
  "\<exists>line doc. emit (\<lambda>_. []) (\<lambda>_ _. []) (\<lambda>_. []) (asc ''json'')
       (patcher [asc ''json''] (\<lambda>_. Some (asc ''t1'')) None sample_record) = Some line \<and>
     loads (\<lambda>t. t) line = Inr (JDict doc) \<and> map_of doc (asc ''level'') = Some (JStr (asc ''INFO'')) \<and>
     map_of doc (asc ''task_id'') = Some (JStr (asc ''t1''))"
proof -
  let ?S = "setup_logging (\<lambda>l. l) (asc ''INFO'') True None 10 5 \<lparr>ls_active = [], ls_sinks = [], ls_std = []\<rparr>"
  have s: "(Stdout, asc ''INFO'', asc ''json'') \<in> set (ls_sinks ?S)" "ls_active ?S = [asc ''json'']"
    by (simp_all add: setup_logging_def Let_def)
  have ok: "extra_ok (\<lambda>t. t) (lg_extra sample_record)"
    by (simp add: extra_ok_def sample_record_def val_ok_def asc_def)
  have "asc ''task_id'' \<notin> fst ` set (lg_extra sample_record)"
    by (simp add: sample_record_def asc_def)
  moreover have "(asc ''task_id'', Some (asc ''t1'')) \<in> set (ctx_fields (\<lambda>_. Some (asc ''t1'')) None)"
    by (simp add: ctx_fields_def)
  ultimately show ?thesis
    using log_line_spec [OF refl s(1) ok, of "\<lambda>_. []" "\<lambda>_ _. []" "\<lambda>_. []" "\<lambda>_. Some (asc ''t1'')" None]
    unfolding s(2) by (fastforce simp: sample_record_def opt_json_def)
qed

section \<open>Set-up and text mode\<close>

text \<open>Setting up again replaces the sinks and changes nothing else.\<close>

lemma dict_set_same: "map_of d k = Some v \<Longrightarrow> dict_set k v d = d"
  by (induction d) (auto split: if_splits)

lemma fold_dict_set_same:
  "\<forall>(k, v) \<in> set kvs. map_of d k = Some v \<Longrightarrow> fold (\<lambda>(n, l). dict_set n l) kvs d = d"
  by (induction kvs) (auto simp: dict_set_same)

lemma map_of_fold_dict_set:
  "distinct (map fst kvs) \<Longrightarrow> (k, v) \<in> set kvs \<Longrightarrow> map_of (fold (\<lambda>(n, l). dict_set n l) kvs d) k = Some v"
proof (induction kvs arbitrary: d)
  case (Cons kv kvs)
  have keep: "k \<notin> fst ` set qs \<Longrightarrow> map_of (fold (\<lambda>(n, l). dict_set n l) qs d) k = map_of d k" for qs d
    by (induction qs arbitrary: d) (auto simp: map_of_dict_set)
  show ?case
    using Cons by (auto simp: keep map_of_dict_set rev_image_eqI)
qed simp

lemma setup_idempotent:
  "setup_logging upper level j file mb bc (setup_logging upper level j file mb bc old) =
     setup_logging upper level j file mb bc old"
proof -
  let ?kvs = "[([], upper level), (asc ''uvicorn'', upper level), (asc ''uvicorn.error'', upper level),
      (asc ''uvicorn.access'', asc ''WARNING''), (asc ''asyncio'', asc ''WARNING'')]"
  let ?d = "fold (\<lambda>(n, l). dict_set n l) ?kvs (ls_std old)"
  have "distinct (map fst ?kvs)" by (simp add: asc_def)
  then have "map_of ?d k = Some v" if "(k, v) \<in> set ?kvs" for k v
    using that by (rule map_of_fold_dict_set)
  then have same: "fold (\<lambda>(n, l). dict_set n l) ?kvs ?d = ?d"
    by (intro fold_dict_set_same) blast
  show ?thesis
    unfolding setup_logging_def Let_def log_setup.select_convs same ..
qed

text \<open>The text renderers promise one line, and a field of the caller can break it.\<close>

lemma plain_line_splits:
  "10 \<in> set (plain_formatter (\<lambda>_ _. []) (\<lambda>v. case v of Val (JStr s) \<Rightarrow> s | _ \<Rightarrow> []) sample_record)"
  by (simp add: plain_formatter_def text_formatter_def sample_record_def domain_extra_def reserved_def
      render_keys_def render_key_def dominant_error_def get_json_def dict_get_def logger_name_def json_truthy_def
      asc_def Let_def)

section \<open>Rendering once, and the standard library's records\<close>

text \<open>However many sinks ask, they get one text, rendered from the record the renderer was made for.\<close>

lemma lazy_str_stable:
  assumes "lz_cache z = None" and "lazy_str fn z = (t, z1)"
  shows "t = fn (lz_record z) \<and> lazy_str gn z1 = (t, z1)"
  using assms by (auto simp: lazy_str_def Let_def)

lemma caller_depth_Suc:
  "caller_depth file fs (Suc d) = Suc d + length (takeWhile (\<lambda>f. fst f = file) fs)"
  by (induction fs arbitrary: d) auto

text \<open>The frame that is found is the first one outside \<open>logging\<close>, not counting the handler's own.\<close>

lemma caller_found:
  assumes "caller_depth file (f # fs) 0 < length (f # fs)"
  shows "fst ((f # fs) ! caller_depth file (f # fs) 0) \<noteq> file \<and>
    (\<forall>i. 0 < i \<longrightarrow> i < caller_depth file (f # fs) 0 \<longrightarrow> fst ((f # fs) ! i) = file)"
proof -
  let ?n = "length (takeWhile (\<lambda>f. fst f = file) fs)"
  have d: "caller_depth file (f # fs) 0 = Suc ?n" by (simp add: caller_depth_Suc)
  then have "?n < length fs" using assms by simp
  then have "fst (fs ! ?n) \<noteq> file" by (rule nth_length_takeWhile)
  moreover have "fst (fs ! j) = file" if "j < ?n" for j
    using nth_mem [OF that] takeWhile_nth [OF that] by (auto dest: set_takeWhileD)
  ultimately show ?thesis unfolding d by (auto simp: nth_Cons split: nat.split)
qed

text \<open>
  A record of uvicorn, SQLAlchemy or OpenAI keeps its own logger name and its message in the JSON
  line, with the ids of the request it was logged in.
\<close>

lemma intercepted_line:
  assumes "intercept known file frames t r = Some lr" and "sr_name r \<noteq> []"
  shows "map_of (log_doc iso_ts str (patcher active c inst lr)) (asc ''logger'') = Some (JStr (sr_name r)) \<and>
    map_of (log_doc iso_ts str (patcher active c inst lr)) (asc ''message'') = Some (JStr (sr_message r))"
proof -
  have lr: "lg_extra lr = [(asc ''name'', Val (JStr (sr_name r)))]" "lg_message lr = sr_message r"
    using assms(1) by (auto simp: intercept_def Let_def split: if_splits)
  have n: "asc ''name'' \<notin> render_key ` set active" "asc ''name'' \<noteq> asc ''_exc''"
    by (auto simp: render_key_def asc_def)
  have "map_of (lg_extra (patcher active c inst lr)) (asc ''name'') = Some (Val (JStr (sr_name r)))"
    using patch_keeps [of "lg_extra lr" "asc ''name''"] n by (simp add: patcher_lookup lr(1))
  then have "logger_name str (patcher active c inst lr) = JStr (sr_name r)"
    using assms(2) by (simp add: logger_name_def Let_def get_json_def dict_get_def to_json_def json_truthy_def)
  then show ?thesis
    by (simp add: log_doc_def Let_def asc_inj lr(2) patcher_fixed)
qed

end
