(* ===== verification/Identity.thy ===== *)
theory Identity
  imports Dispatcher_Properties
begin

text \<open>
  \<open>api/worker/identity.py\<close>: the identity a worker writes into \<open>locked_by\<close>, kept in a file so
  that a restarted process is the same worker.  Parameters: \<open>alnum\<close>, \<open>str.isalnum\<close> of one
  character; \<open>host\<close>, what \<open>socket.gethostname()\<close> returns (\<open>None\<close> when it raises); the fresh
  \<open>uuid4()\<close>s.
\<close>

section \<open>Fresh identities\<close>

definition max_worker_id_len :: nat where
  "max_worker_id_len = 64"

definition hostname :: "pstr option \<Rightarrow> pstr" where
  "hostname host = or_str host (asc ''unknown'')"

definition sanitize :: "(nat \<Rightarrow> bool) \<Rightarrow> pstr \<Rightarrow> pstr" where
  "sanitize alnum s =
     (let cleaned = strip_by (\<lambda>c. c = 45 \<or> c = 46)
        (map (\<lambda>c. if alnum c \<or> c = 45 \<or> c = 95 \<or> c = 46 then c else 45) s)
      in if cleaned = [] then asc ''worker'' else cleaned)"

definition new_worker_id :: "(nat \<Rightarrow> bool) \<Rightarrow> pstr option \<Rightarrow> uuid \<Rightarrow> pstr" where
  "new_worker_id alnum host u =
     (let token = take 8 (uuid_hex u);
          prefix = sanitize alnum (asc ''worker-'' @ hostname host);
          room = max 1 (max_worker_id_len - length token - 1)
      in take room prefix @ asc ''-'' @ token)"

section \<open>The state file\<close>

text \<open>
  The file holds a text, or bytes that are not UTF-8.  Reading and writing may raise an
  \<open>OSError\<close>; the write goes to a temporary file first, so a failed one leaves the file as it was.
\<close>

datatype id_file = NoFile | Undecodable | Holds pstr

record id_io =
  id_read_fails :: bool
  id_write_fails :: bool

text \<open>A file that cannot be decoded raises \<open>UnicodeDecodeError\<close>, a \<open>ValueError\<close>.\<close>

definition load_or_create ::
  "(nat \<Rightarrow> bool) \<Rightarrow> id_io \<Rightarrow> pstr option \<Rightarrow> uuid \<Rightarrow> id_file \<Rightarrow> (exn + pstr option) \<times> id_file" where
  "load_or_create alnum io host u f =
     (if id_read_fails io then (Inr None, f)
      else if f = Undecodable then (Inl (ValueError (asc ''utf-8'')), f)
      else let existing = (case f of Holds s \<Rightarrow> strip s | _ \<Rightarrow> [])
           in if existing \<noteq> [] then (Inr (Some (take max_worker_id_len existing)), f)
              else if id_write_fails io then (Inr None, f)
              else let n = new_worker_id alnum host u in (Inr (Some n), Holds n))"

text \<open>\<open>WORKER_ID\<close>, else the persisted identity, else one for this process only.\<close>

definition resolve_worker_id ::
  "(nat \<Rightarrow> bool) \<Rightarrow> id_io \<Rightarrow> pstr option \<Rightarrow> uuid \<Rightarrow> uuid \<Rightarrow> pstr option \<Rightarrow> id_file \<Rightarrow>
     (exn + pstr) \<times> id_file" where
  "resolve_worker_id alnum io host u v setting f =
     (if or_str setting [] \<noteq> [] then (Inr (take max_worker_id_len (or_str setting [])), f)
      else case load_or_create alnum io host u f of
             (Inl e, f') \<Rightarrow> (Inl e, f')
           | (Inr p, f') \<Rightarrow> (Inr (if or_str p [] \<noteq> [] then or_str p [] else new_worker_id alnum host v), f'))"

section \<open>Facts\<close>

lemma sanitize_chars:
  assumes "c \<in> set (sanitize alnum s)"
  shows "alnum c \<or> c \<in> set (asc ''worker'') \<or> c \<in> {45, 46, 95}"
proof (cases "sanitize alnum s = asc ''worker''")
  case False
  then have "c \<in> set (map (\<lambda>c. if alnum c \<or> c = 45 \<or> c = 95 \<or> c = 46 then c else 45) s)"
    using assms set_strip_by by (fastforce simp: sanitize_def Let_def split: if_splits)
  then show ?thesis by (auto split: if_splits)
qed (use assms in simp)

lemma sanitize_ne: "sanitize alnum s \<noteq> []"
  by (simp add: sanitize_def Let_def)

lemma new_worker_id_length: "length (new_worker_id alnum host u) \<le> 64"
  by (simp add: new_worker_id_def max_worker_id_len_def Let_def)

lemma new_worker_id_ne: "new_worker_id alnum host u \<noteq> []"
  by (simp add: new_worker_id_def Let_def)

text \<open>A fresh identity has no white space, so reading it back does not shorten it.\<close>

lemma new_worker_id_strip:
  assumes "\<forall>c. alnum c \<longrightarrow> \<not> is_space c"
  shows "strip (new_worker_id alnum host u) = new_worker_id alnum host u"
proof -
  have print: "\<not> is_space c" if "33 \<le> c" "c \<le> 126" for c
    using that by (auto simp: is_space_def)
  have san: "\<not> is_space c" if "c \<in> set (sanitize alnum s)" for c s
    using sanitize_chars [OF that] assms print [of c] by (auto simp: asc_def)
  have "\<not> is_space c" if c: "c \<in> set (new_worker_id alnum host u)" for c
  proof -
    have "c \<in> set (sanitize alnum (asc ''worker-'' @ hostname host)) \<or> c = 45 \<or> c \<in> set (uuid_hex u)"
      using c by (auto simp: new_worker_id_def Let_def dest!: in_set_takeD) (simp add: asc_def)
    then show ?thesis
      using san print [of c] uuid_hex_chars [of c u] by auto
  qed
  then show ?thesis
    using new_worker_id_ne [of alnum host u] unfolding strip_def
    by (intro strip_by_id) (meson hd_in_set last_in_set)
qed

lemma resolve_length: "resolve_worker_id alnum io host u v setting f = (Inr w, f') \<Longrightarrow> length w \<le> 64 \<and> w \<noteq> []"
  by (auto simp: resolve_worker_id_def load_or_create_def or_str_def max_worker_id_len_def Let_def
      new_worker_id_length new_worker_id_ne split: if_splits option.splits sum.splits prod.splits)

lemma resolve_again:
  assumes "\<forall>c. alnum c \<longrightarrow> \<not> is_space c" and "or_str setting [] = []"
    and "\<not> id_read_fails io" and "\<not> id_write_fails io"
    and "resolve_worker_id alnum io host u v setting f = (Inr w, f')" and "\<not> id_read_fails io'"
  shows "resolve_worker_id alnum io' host' u' v' setting f' = (Inr w, f')"
proof -
  have "\<exists>s. f' = Holds s \<and> strip s \<noteq> [] \<and> w = take 64 (strip s)"
    using assms(2-5) new_worker_id_strip [OF assms(1)] new_worker_id_ne [of alnum host u]
      new_worker_id_length [of alnum host u]
    by (auto simp: resolve_worker_id_def load_or_create_def or_str_def max_worker_id_len_def Let_def
        split: if_splits id_file.splits)
  then show ?thesis
    using assms(2,6)
    by (auto simp: resolve_worker_id_def load_or_create_def or_str_def max_worker_id_len_def Let_def)
qed

text \<open>
  A restarted process is the same worker: with a readable and writable state file the identity
  is the same at every later start, on whatever host name, and it fits the column
  \<open>locked_by\<close>; so the recovery at the start puts the tasks the previous process was working on
  back into the queue at once, without waiting for their leases.
\<close>

lemma restart_recovers_own:
  assumes "\<forall>c. alnum c \<longrightarrow> \<not> is_space c" and "or_str setting [] = []"
    and "\<not> id_read_fails io" and "\<not> id_write_fails io" and "\<not> id_read_fails io'"
    and "resolve_worker_id alnum io host u v setting f = (Inr w, f')"
    and "resolve_worker_id alnum io' host' u' v' setting f' = (Inr w', f'')"
    and "worker_id (exec_of cfg) = w'" and "get_by_id db tid = Some t"
    and "status t \<in> set IN_FLIGHT_STATUSES" and "locked_by t = Some w"
    and "worker_start cfg ck mt Commit (db, new_worker) = (r, db', ws')"
  shows "w' = w \<and> length w \<le> 64 \<and>
    (\<exists>q. get_by_id db' tid = Some q \<and> locked_by q = None \<and> retry_count q = retry_count t \<and>
       pick_guard ck (\<lambda>_. False) q)"
proof -
  have w': "w' = w"
    using resolve_again [OF assms(1-4) assms(6) assms(5), of host' u' v'] assms(7) by simp
  show ?thesis
    using assms(8-12) w' resolve_length [OF assms(6)]
    by (auto simp: worker_start_unfold recover_zombie_tasks_def recover_body_def get_by_id_reclaim
        reclaim_guard_def release_set_def pick_guard_def split: prod.splits)
qed

lemma restart_recovers_own_witness:
  "\<exists>q. get_by_id (fst (snd (worker_start sample_disp ck0 0 Commit (sample_db, new_worker)))) 13 = Some q \<and>
     locked_by q = None \<and> length w0 \<le> 64"
proof -
  let ?io = "\<lparr>id_read_fails = False, id_write_fails = False\<rparr>"
  have res: "resolve_worker_id (\<lambda>c. 48 \<le> c \<and> c \<le> 57) ?io None 1 2 None (Holds w0) = (Inr w0, Holds w0)" 
    by (simp add: resolve_worker_id_def load_or_create_def or_str_def max_worker_id_len_def w0_def Let_def
        strip_def strip_by_def lstrip_by_def rstrip_by_def is_space_def asc_def)
  obtain r db' ws' where s: "worker_start sample_disp ck0 0 Commit (sample_db, new_worker) = (r, db', ws')"
    by (cases "worker_start sample_disp ck0 0 Commit (sample_db, new_worker)") auto
  show ?thesis
    using restart_recovers_own [OF _ _ _ _ _ res res sample_disp_id sample_get(3) _ _ s]
    by (auto simp: s busy_task_def or_str_def is_space_def)
qed

end
