(* ===== verification/Schema.thy ===== *)
theory Schema
  imports System_Properties Identity
begin

text \<open>
  \<open>alembic/versions/0001_initial_schema.py\<close>: the migration as operations on a schema, each of
  which the server refuses (\<open>None\<close>) when a name is taken or missing, a column does not exist
  or a foreign key still refers to a table that is dropped; and what it means for a row to
  conform to the columns.
\<close>

section \<open>Schemas\<close>

datatype col_type = UuidT | VarcharT nat | IntegerT | TimestampT | TextT | JsonbT

record column =
  col_name :: pstr
  col_type :: col_type
  col_nullable :: bool
  col_default :: "pstr option"

record sql_table =
  tbl_name :: pstr
  tbl_columns :: "column list"
  tbl_key :: pstr
  tbl_fks :: "(pstr \<times> pstr \<times> pstr) list"

record sql_index =
  ix_name :: pstr
  ix_table :: pstr
  ix_columns :: "pstr list"
  ix_unique :: bool
  ix_where :: "pstr option"

record schema =
  sch_tables :: "sql_table list"
  sch_indexes :: "sql_index list"

definition col :: "string \<Rightarrow> col_type \<Rightarrow> bool \<Rightarrow> string \<Rightarrow> column" where
  "col n ty nullable dflt = \<lparr>col_name = asc n, col_type = ty, col_nullable = nullable,
     col_default = (if dflt = [] then None else Some (asc dflt))\<rparr>"

text \<open>The operations of Alembic on the server's schema.\<close>

definition create_table :: "sql_table \<Rightarrow> schema \<Rightarrow> schema option" where
  "create_table t s =
     (if tbl_name t \<in> tbl_name ` set (sch_tables s) \<or>
         (\<exists>(c, ref, k) \<in> set (tbl_fks t). ref \<notin> tbl_name ` set (sch_tables s))
      then None else Some (s\<lparr>sch_tables := sch_tables s @ [t]\<rparr>))"

definition create_index :: "sql_index \<Rightarrow> schema \<Rightarrow> schema option" where
  "create_index i s =
     (if ix_name i \<in> ix_name ` set (sch_indexes s) \<or>
         \<not> (\<exists>t \<in> set (sch_tables s). tbl_name t = ix_table i \<and> set (ix_columns i) \<subseteq> col_name ` set (tbl_columns t))
      then None else Some (s\<lparr>sch_indexes := sch_indexes s @ [i]\<rparr>))"

definition drop_index :: "string \<Rightarrow> schema \<Rightarrow> schema option" where
  "drop_index n s =
     (if asc n \<notin> ix_name ` set (sch_indexes s) then None
      else Some (s\<lparr>sch_indexes := filter (\<lambda>i. ix_name i \<noteq> asc n) (sch_indexes s)\<rparr>))"

text \<open>Dropping a table drops its indexes too.\<close>

definition drop_table :: "string \<Rightarrow> schema \<Rightarrow> schema option" where
  "drop_table n s =
     (if asc n \<notin> tbl_name ` set (sch_tables s) \<or>
         (\<exists>t \<in> set (sch_tables s). tbl_name t \<noteq> asc n \<and> (\<exists>(c, ref, k) \<in> set (tbl_fks t). ref = asc n))
      then None
      else Some (s\<lparr>sch_tables := filter (\<lambda>t. tbl_name t \<noteq> asc n) (sch_tables s),
                   sch_indexes := filter (\<lambda>i. ix_table i \<noteq> asc n) (sch_indexes s)\<rparr>))"

fun run_ops :: "(schema \<Rightarrow> schema option) list \<Rightarrow> schema \<Rightarrow> schema option" where
  "run_ops [] s = Some s"
| "run_ops (f # fs) s = (case f s of None \<Rightarrow> None | Some s' \<Rightarrow> run_ops fs s')"

section \<open>The migration\<close>

definition users_table :: sql_table where
  "users_table = \<lparr>tbl_name = asc ''users'',
     tbl_columns =
       [col ''id'' UuidT False '''', col ''username'' (VarcharT 50) False '''',
        col ''email'' (VarcharT 255) True '''', col ''hashed_password'' (VarcharT 255) True '''',
        col ''created_at'' TimestampT False '''', col ''updated_at'' TimestampT False ''''],
     tbl_key = asc ''id'', tbl_fks = []\<rparr>"

definition recordings_table :: sql_table where
  "recordings_table = \<lparr>tbl_name = asc ''recordings'',
     tbl_columns =
       [col ''id'' UuidT False '''', col ''file_name'' (VarcharT 255) False '''',
        col ''file_path'' (VarcharT 1000) False '''', col ''file_size'' IntegerT False '''',
        col ''file_hash'' (VarcharT 64) False '''', col ''created_at'' TimestampT False '''',
        col ''updated_at'' TimestampT False ''''],
     tbl_key = asc ''id'', tbl_fks = []\<rparr>"

definition tasks_table :: sql_table where
  "tasks_table = \<lparr>tbl_name = asc ''tasks'',
     tbl_columns =
       [col ''id'' UuidT False '''', col ''recording_id'' UuidT False '''',
        col ''status'' (VarcharT 32) False '''', col ''retry_count'' IntegerT False ''0'',
        col ''next_retry_at'' TimestampT False ''now()'', col ''locked_by'' (VarcharT 64) True '''',
        col ''lease_expires_at'' TimestampT True '''', col ''transcript'' TextT True '''',
        col ''summary'' JsonbT True '''', col ''error_msg'' TextT True '''',
        col ''created_at'' TimestampT False ''now()'', col ''updated_at'' TimestampT False ''now()''],
     tbl_key = asc ''id'', tbl_fks = [(asc ''recording_id'', asc ''recordings'', asc ''id'')]\<rparr>"

definition ix :: "string \<Rightarrow> string \<Rightarrow> string list \<Rightarrow> bool \<Rightarrow> string \<Rightarrow> sql_index" where
  "ix n t cs u w = \<lparr>ix_name = asc n, ix_table = asc t, ix_columns = map asc cs, ix_unique = u,
     ix_where = (if w = [] then None else Some (asc w))\<rparr>"

definition upgrade :: "schema \<Rightarrow> schema option" where
  "upgrade = run_ops
     [create_table users_table,
      create_index (ix ''ix_users_email'' ''users'' [''email''] True ''''),
      create_index (ix ''ix_users_username'' ''users'' [''username''] True ''''),
      create_table recordings_table,
      create_index (ix ''ix_recordings_created_at'' ''recordings'' [''created_at''] False ''''),
      create_index (ix ''ix_recordings_file_hash'' ''recordings'' [''file_hash''] True ''''),
      create_table tasks_table,
      create_index (ix ''ix_tasks_recording_id'' ''tasks'' [''recording_id''] True ''''),
      create_index (ix ''ix_tasks_status'' ''tasks'' [''status''] False ''''),
      create_index (ix ''ix_tasks_dispatch'' ''tasks'' [''next_retry_at'', ''created_at''] False (''status = '' @ [CHR 0x27] @ ''pending'' @ [CHR 0x27])),
      create_index (ix ''ix_tasks_lease'' ''tasks'' [''status'', ''lease_expires_at''] False '''')]"

definition downgrade :: "schema \<Rightarrow> schema option" where
  "downgrade = run_ops
     [drop_index ''ix_tasks_lease'', drop_index ''ix_tasks_dispatch'', drop_index ''ix_tasks_status'',
      drop_index ''ix_tasks_recording_id'', drop_table ''tasks'',
      drop_index ''ix_recordings_file_hash'', drop_index ''ix_recordings_created_at'', drop_table ''recordings'',
      drop_index ''ix_users_username'', drop_index ''ix_users_email'', drop_table ''users'']"

section \<open>Rows\<close>

datatype sql_value = VNull | VUuid uuid | VText pstr | VInt int | VTime time | VJson json

definition fits_column :: "column \<Rightarrow> sql_value \<Rightarrow> bool" where
  "fits_column c v =
     (case v of
        VNull \<Rightarrow> col_nullable c
      | VUuid _ \<Rightarrow> col_type c = UuidT
      | VText s \<Rightarrow> (case col_type c of VarcharT n \<Rightarrow> length s \<le> n | TextT \<Rightarrow> True | _ \<Rightarrow> False)
      | VInt i \<Rightarrow> col_type c = IntegerT \<and> - (2 ^ 31) \<le> i \<and> i < 2 ^ 31
      | VTime _ \<Rightarrow> col_type c = TimestampT
      | VJson _ \<Rightarrow> col_type c = JsonbT)"

definition conforms :: "sql_table \<Rightarrow> (string \<times> sql_value) list \<Rightarrow> bool" where
  "conforms t row \<longleftrightarrow> map (asc \<circ> fst) row = map col_name (tbl_columns t) \<and>
     list_all2 fits_column (tbl_columns t) (map snd row)"

definition opt_val :: "('a \<Rightarrow> sql_value) \<Rightarrow> 'a option \<Rightarrow> sql_value" where
  "opt_val f x = (case x of None \<Rightarrow> VNull | Some a \<Rightarrow> f a)"

definition recording_row :: "recording \<Rightarrow> (string \<times> sql_value) list" where
  "recording_row r =
     [(''id'', VUuid (rec_id r)), (''file_name'', VText (file_name r)), (''file_path'', VText (file_path r)),
      (''file_size'', VInt (file_size r)), (''file_hash'', VText (file_hash r)),
      (''created_at'', VTime (rec_created_at r)), (''updated_at'', VTime (rec_updated_at r))]"

definition task_row :: "task \<Rightarrow> (string \<times> sql_value) list" where
  "task_row t =
     [(''id'', VUuid (task_id t)), (''recording_id'', VUuid (recording_id t)),
      (''status'', VText (status_value (status t))), (''retry_count'', VInt (retry_count t)),
      (''next_retry_at'', VTime (next_retry_at t)), (''locked_by'', opt_val VText (locked_by t)),
      (''lease_expires_at'', opt_val VTime (lease_expires_at t)), (''transcript'', opt_val VText (transcript t)),
      (''summary'', opt_val VJson (summary t)), (''error_msg'', opt_val VText (error_msg t)),
      (''created_at'', VTime (task_created_at t)), (''updated_at'', VTime (task_updated_at t))]"

text \<open>\<open>User\<close> of \<open>api/repository/dao/user.py\<close>, which no other code uses yet.\<close>

record user =
  user_id :: uuid
  username :: pstr
  email :: "pstr option"
  hashed_password :: "pstr option"
  user_created_at :: time
  user_updated_at :: time

definition new_user :: "time \<Rightarrow> time \<Rightarrow> uuid \<Rightarrow> pstr \<Rightarrow> pstr option \<Rightarrow> pstr option \<Rightarrow> user" where
  "new_user created updated uid name mail pw =
     \<lparr>user_id = uid, username = name, email = mail, hashed_password = pw,
      user_created_at = created, user_updated_at = updated\<rparr>"

definition user_row :: "user \<Rightarrow> (string \<times> sql_value) list" where
  "user_row u =
     [(''id'', VUuid (user_id u)), (''username'', VText (username u)), (''email'', opt_val VText (email u)),
      (''hashed_password'', opt_val VText (hashed_password u)), (''created_at'', VTime (user_created_at u)),
      (''updated_at'', VTime (user_updated_at u))]"

end
