(* ===== verification/Schema_Properties.thy ===== *)
theory Schema_Properties
  imports Schema Repository_Properties
begin

text \<open>
  The migration can be undone, and every row the system ever writes conforms to the columns,
  the unique indexes and the foreign key the migration declares.
\<close>

section \<open>The values that must fit\<close>

definition rows_fit :: "database \<Rightarrow> bool" where
  "rows_fit db \<longleftrightarrow>
     (\<forall>r \<in> set (recordings db). fits (file_name r) (file_path r) (file_size r) (file_hash r)) \<and>
     (\<forall>t \<in> set (tasks db). \<forall>w. locked_by t = Some w \<longrightarrow> length w \<le> 64)"

lemma rows_fit_update:
  assumes "rows_fit db" and "\<And>t w. locked_by (S t) = Some w \<Longrightarrow> locked_by t = Some w \<or> length w \<le> 64"
  shows "rows_fit (db\<lparr>tasks := sql_update G S (tasks db)\<rparr>)"
proof -
  have "length w \<le> 64" if u: "u \<in> set (sql_update G S (tasks db))" "locked_by u = Some w" for u w
  proof -
    obtain t where "t \<in> set (tasks db)" "u = (if G t then S t else t)"
      using u(1) unfolding sql_update_def set_map by blast
    then show ?thesis
      using u(2) assms(1) assms(2) [of t w] by (auto simp: rows_fit_def split: if_splits)
  qed
  then show ?thesis
    using assms(1) by (simp add: rows_fit_def)
qed

lemma rows_fit_move:
  assumes "db_move cfg db db'" and "length (worker_id (exec_of cfg)) \<le> 64" and "rows_fit db"
  shows "rows_fit db'"
  using assms(1)
proof cases
  case stay
  then show ?thesis using assms(3) by simp
next
  case (owner ck tid)
  then obtain S where S: "owner_assign (exec_of cfg) ck S"
    "db' = db\<lparr>tasks := sql_update (owner_guard tid (worker_id (exec_of cfg))) S (tasks db)\<rparr>"
    unfolding owner_effect_def by blast
  have "locked_by t = Some w" if "locked_by (S t) = Some w" for t w
    using S(1) that by cases (auto simp: row_defs Let_def)
  then show ?thesis
    unfolding S(2) using assms(3) by (blast intro: rows_fit_update)
next
  case (recover ck own msg)
  then show ?thesis
    using assms(3) by (auto simp: reclaim_in_flight_def release_set_def intro!: rows_fit_update)
next
  case (claim ck lk rc n)
  have "rows_fit (snd (reclaim_in_flight ck (worker_id (exec_of cfg)) False msg_expired db))"
    using assms(3) by (auto simp: reclaim_in_flight_def release_set_def intro!: rows_fit_update)
  then show ?thesis
    using assms(2,3) unfolding claim
    by (auto simp: claim_body_def claim_pending_def claim_rows_def claim_set_def Let_def intro!: rows_fit_update)
next
  case (abort ck ids msg)
  then show ?thesis
    using assms(3) by (auto simp: reset_aborted_def release_set_def intro!: rows_fit_update)
qed

lemma rows_fit_api:
  assumes "api_step db db'" and "rows_fit db"
  shows "rows_fit db'"
  using assms(1)
proof cases
  case (upload ck rid tid name path sz h p)
  then show ?thesis
    using assms(2)
    by (auto simp: rows_fit_def fits_def insert_pair_def create_recording_def create_task_def new_recording_def
        new_task_def split: sum.splits if_splits)
next
  case (retry ck tid)
  then show ?thesis
    using assms(2)
    by (auto simp: requeue_failed_def requeue_set_def Let_def intro!: rows_fit_update split: option.splits)
next
  case (delete rid)
  then show ?thesis
    using assms(2) by (auto simp: rows_fit_def delete_recording_row_def delete_by_recording_def sql_delete_def)
qed

lemma rows_fit_reachable:
  assumes "sys_reachable cf s" and "\<forall>i. length (worker_id (exec_of (cf i))) \<le> 64"
  shows "rows_fit (sys_db s)"
  using assms(1)
proof induction
  case init
  then show ?case by (simp add: rows_fit_def empty_db_def)
next
  case (step s a s')
  from step.hyps(2) show ?case
  proof cases
    case (worker i db' ws')
    then show ?thesis
      using rows_fit_move worker_step_move [OF worker(3)] assms(2) step.IH by auto
  next
    case (api db')
    then show ?thesis using rows_fit_api step.IH by auto
  qed
qed

section \<open>Conformance\<close>

lemma status_length: "length (status_value st) \<le> 32"
  by (cases st) simp_all

lemma recording_conforms:
  assumes "fits (file_name r) (file_path r) (file_size r) (file_hash r)"
  shows "conforms recordings_table (recording_row r)"
  using assms by (simp add: conforms_def recording_row_def recordings_table_def col_def fits_column_def fits_def)

lemma user_conforms_iff:
  "conforms users_table (user_row (new_user c c' uid name mail pw)) \<longleftrightarrow>
     length name \<le> 50 \<and> (\<forall>m. mail = Some m \<longrightarrow> length m \<le> 255) \<and> (\<forall>p. pw = Some p \<longrightarrow> length p \<le> 255)"
  by (auto simp: conforms_def user_row_def new_user_def users_table_def col_def fits_column_def opt_val_def
      split: option.splits)

lemma task_conforms:
  assumes "task_ok M t" and "M < 2 ^ 31 - 1" and "\<forall>w. locked_by t = Some w \<longrightarrow> length w \<le> 64"
  shows "conforms tasks_table (task_row t)"
proof -
  have rc: "- (2 ^ 31) \<le> retry_count t \<and> retry_count t < 2 ^ 31"
    using assms(1,2) by (auto simp: task_ok_def split: if_splits)
  show ?thesis
    using rc status_length [of "status t"] assms(3)
    by (simp add: conforms_def task_row_def tasks_table_def)
      (simp add: col_def fits_column_def opt_val_def split: option.splits)
qed

text \<open>C40.
  Every row of every reachable database, under any interleaving of workers and API calls,
  conforms to the columns of the migration (lengths, ranges, nullability), the unique indexes
  hold and every task refers to a recording: no statement of the system is ever refused because
  a worker id, a status or a retry count does not fit.  The worker ids are the ones
  \<open>resolve_worker_id\<close> gives.
\<close>

theorem rows_conform:
  assumes "sys_reachable cf s" and "\<forall>i. max_retries (exec_of (cf i)) \<le> int M" and "M < 2 ^ 31 - 1"
    and "\<forall>i. \<exists>io host u v setting f f'.
      resolve_worker_id alnum io host u v setting f = (Inr (worker_id (exec_of (cf i))), f')"
  shows "(\<forall>r \<in> set (recordings (sys_db s)). conforms recordings_table (recording_row r)) \<and>
    (\<forall>t \<in> set (tasks (sys_db s)). conforms tasks_table (task_row t)) \<and>
    distinct (map file_hash (recordings (sys_db s))) \<and> distinct (map recording_id (tasks (sys_db s))) \<and>
    recording_id ` set (tasks (sys_db s)) \<subseteq> rec_id ` set (recordings (sys_db s))"
proof -
  have ids: "\<forall>i. length (worker_id (exec_of (cf i))) \<le> 64"
    using assms(4) resolve_length by blast
  have fit: "rows_fit (sys_db s)"
    by (rule rows_fit_reachable [OF assms(1) ids])
  have ok: "db_ok M (sys_db s)"
    using sys_ok_reachable [OF assms(1), of M] assms(2) by (simp add: retries_bounded_def sys_ok_def)
  have "conforms recordings_table (recording_row r)" if "r \<in> set (recordings (sys_db s))" for r
    using fit that by (intro recording_conforms) (simp add: rows_fit_def)
  moreover have "conforms tasks_table (task_row t)" if "t \<in> set (tasks (sys_db s))" for t
    using fit that by (intro task_conforms [OF db_ok_taskD [OF ok that] assms(3)]) (auto simp: rows_fit_def)
  ultimately show ?thesis
    using ok by (simp add: db_ok_def)
qed

theorem rows_conform_witness:
  "list_all (\<lambda>t. conforms tasks_table (task_row t)) (tasks (sys_db sample_system))"
proof -
  have "resolve_worker_id (\<lambda>_. True) \<lparr>id_read_fails = False, id_write_fails = False\<rparr> None 0 0 (Some w0) NoFile =
      (Inr (worker_id (exec_of sample_disp)), NoFile)"
    unfolding sample_disp_id by (simp add: resolve_worker_id_def or_str_def w0_def max_worker_id_len_def asc_def)
  then show ?thesis
    using rows_conform [OF sample_system_reachable, of 3 "\<lambda>_. True"] by (simp add: sample_disp_def list_all_iff) blast
qed

section \<open>Undoing the migration\<close>

text \<open>
  The migration applies to every schema without its names, and undoing it gives back exactly
  that schema: every index is dropped before its table, and \<open>tasks\<close> before the recordings
  its foreign key refers to.
\<close>

lemma migration_roundtrip:
  assumes "\<forall>t \<in> set (sch_tables s). tbl_name t \<notin> {asc ''users'', asc ''recordings'', asc ''tasks''} \<and>
      (\<forall>(c, ref, k) \<in> set (tbl_fks t). ref \<notin> {asc ''users'', asc ''recordings'', asc ''tasks''})"
    and "\<forall>i \<in> set (sch_indexes s). ix_table i \<notin> {asc ''users'', asc ''recordings'', asc ''tasks''} \<and>
      ix_name i \<notin> asc ` {''ix_users_email'', ''ix_users_username'', ''ix_recordings_created_at'',
        ''ix_recordings_file_hash'', ''ix_tasks_recording_id'', ''ix_tasks_status'', ''ix_tasks_dispatch'', ''ix_tasks_lease''}"
  shows "\<exists>s'. upgrade s = Some s' \<and> downgrade s' = Some s"
proof -
  have t: "filter (\<lambda>t. tbl_name t \<noteq> asc n) (sch_tables s) = sch_tables s" "asc n \<notin> tbl_name ` set (sch_tables s)"
    "filter (\<lambda>i. ix_table i \<noteq> asc n) (sch_indexes s) = sch_indexes s"
    "\<not> (\<exists>t \<in> set (sch_tables s). tbl_name t \<noteq> asc n \<and> (\<exists>(c, ref, k) \<in> set (tbl_fks t). ref = asc n))"
    if "n \<in> {''users'', ''recordings'', ''tasks''}" for n
    using that assms by (auto simp: filter_id_conv)
  have i: "filter (\<lambda>i. ix_name i \<noteq> asc n) (sch_indexes s) = sch_indexes s" "asc n \<notin> ix_name ` set (sch_indexes s)"
    if "n \<in> {''ix_users_email'', ''ix_users_username'', ''ix_recordings_created_at'',
        ''ix_recordings_file_hash'', ''ix_tasks_recording_id'', ''ix_tasks_status'', ''ix_tasks_dispatch'', ''ix_tasks_lease''}" for n
    using that assms by (auto simp: filter_id_conv)
  let ?s = "s\<lparr>sch_tables := sch_tables s @ [users_table, recordings_table, tasks_table],
     sch_indexes := sch_indexes s @
       [ix ''ix_users_email'' ''users'' [''email''] True '''',
        ix ''ix_users_username'' ''users'' [''username''] True '''',
        ix ''ix_recordings_created_at'' ''recordings'' [''created_at''] False '''',
        ix ''ix_recordings_file_hash'' ''recordings'' [''file_hash''] True '''',
        ix ''ix_tasks_recording_id'' ''tasks'' [''recording_id''] True '''',
        ix ''ix_tasks_status'' ''tasks'' [''status''] False '''',
        ix ''ix_tasks_dispatch'' ''tasks'' [''next_retry_at'', ''created_at''] False (''status = '' @ [CHR 0x27] @ ''pending'' @ [CHR 0x27]),
        ix ''ix_tasks_lease'' ''tasks'' [''status'', ''lease_expires_at''] False '''']\<rparr>"
  have up: "upgrade s = Some ?s"
    using t(2) i(2)
    by (simp add: upgrade_def create_table_def create_index_def ix_def users_table_def recordings_table_def
        tasks_table_def col_def asc_inj)
  have down: "downgrade ?s = Some s"
    using t i
    by (simp add: downgrade_def drop_table_def drop_index_def ix_def users_table_def recordings_table_def
        tasks_table_def asc_inj)
  show ?thesis using up down by blast
qed

lemma migration_roundtrip_witness:
  "\<exists>s'. upgrade \<lparr>sch_tables = [], sch_indexes = []\<rparr> = Some s' \<and>
     downgrade s' = Some \<lparr>sch_tables = [], sch_indexes = []\<rparr>"
  using migration_roundtrip [of "\<lparr>sch_tables = [], sch_indexes = []\<rparr>"] by simp

end
