(* ===== verification/Mock_Transcripts.thy ===== *)
theory Mock_Transcripts
  imports Py_Str
begin

text \<open>
  \<open>api/service/mock_transcripts.py\<close>: the fifty texts the mock transcriber chooses from, by
  their code points, in the order of the source.
\<close>

definition TRANSCRIPT_TEMPLATES :: "pstr list" where
  "TRANSCRIPT_TEMPLATES = [
     [20135, 21697, 21608, 20250, 65306, 35752, 35770, 20102] @ asc '' Q3 '' @ [36335, 32447, 22270,
      19982, 36164, 28304, 32570, 21475, 65292, 30830, 35748, 19979, 21608, 36755, 20986, 20248,
      20808, 32423, 28165, 21333, 65292, 21518, 31471, 36127, 36131, 25509, 21475, 25490, 26399,
      12290],
     [23458, 25143, 35775, 35848, 65306, 29992, 25143, 21453, 39304, 30331, 24405, 32791, 26102,
      38271, 12289, 24076, 26395, 25903, 25345, 25209, 37327, 23548, 20986, 65307, 36319, 36827,
      20154, 25215, 35834, 26412, 21608, 20116, 21069, 32473, 20986, 22238, 22797, 26041, 26696,
      12290],
     [31435, 39033, 35780, 23457, 65306, 35780, 20272, 20102, 26032, 27169, 22359, 30340, 25237,
      20837, 20135, 20986, 65292, 36130, 21153, 25552, 20986, 39044, 31639, 19978, 38480, 65292,
      25216, 26415, 20391, 34917, 20805, 20102, 39118, 38505, 28165, 21333, 12290],
     [20107, 25925, 22797, 30424, 65306, 26152, 26202, 39640, 23792, 26399, 25509, 21475, 36229,
      26102, 65292, 26681, 22240, 26159, 36830, 25509, 27744, 32791, 23613, 65307, 20915, 23450,
      21152, 30417, 25511, 21578, 35686, 24182, 25552, 39640, 27744, 19978, 38480, 12290],
     [38754, 35797, 24405, 38899, 65306, 20505, 36873, 20154, 20171, 32461, 36807, 24448, 20998,
      24067, 24335, 39033, 30446, 65292, 37325, 28857, 32842, 20102, 19968, 33268, 24615, 19982,
      25490, 38556, 24605, 36335, 65292, 38754, 35797, 23448, 36861, 38382, 20102, 32454, 33410,
      12290],
     [22521, 35757, 32426, 35201, 65306, 35762, 35299, 20102, 19978, 20256, 26657, 39564, 19982,
      24322, 27493, 20219, 21153, 29366, 24577, 26426, 65292, 23398, 21592, 23436, 25104, 20102,
      35838, 21518, 32451, 20064, 24182, 25552, 38382, 20102, 37325, 35797, 31574, 30053, 12290],
     [35774, 35745, 35780, 23457, 65306] @ asc ''UI '' @ [31295, 25972, 20307, 36890, 36807, 65292,
      38656, 35843, 25972, 31227, 21160, 31471, 23548, 33322, 23494, 24230, 65307, 35774, 35745,
      21516, 23398, 19979, 21608, 19977, 21069, 25552, 20132, 20462, 35746, 29256, 12290],
     [38144, 21806, 21516, 27493, 65306, 26412, 21608, 31614, 21333, 20004, 23478, 20013, 22411,
      23458, 25143, 65292, 21345, 28857, 22312, 21512, 21516, 27861, 21153, 26465, 27454, 65292,
      27861, 21153, 39044, 35745, 21608, 22235, 21453, 39304, 24847, 35265, 12290],
     [36816, 32500, 20363, 20250, 65306, 30913, 30424, 21578, 35686, 24050, 22788, 29702, 65292,
      35745, 21010, 21608, 26411, 20570, 19968, 27425, 20840, 37327, 22791, 20221, 28436, 32451,
      65292, 24182, 26356, 26032, 20540, 29677, 25163, 20876, 12290],
     [30740, 21457, 31449, 20250, 65306, 21069, 31471, 38459, 22622, 22312, 25991, 26723, 19981,
      20840, 65292, 21518, 31471, 20170, 26085, 34917, 40784] @ asc '' OpenAPI'' @ [65307, 32852,
      35843, 31383, 21475, 23450, 22312, 26126, 22825, 19979, 21320, 12290],
     [21512, 35268, 26816, 26597, 65306, 26803, 29702, 20102, 26085, 24535, 30041, 23384, 19982,
      33073, 25935, 35201, 27714, 65292, 20915, 23450, 23545, 19978, 20256, 25991, 20214, 21704,
      24076, 20570, 35775, 38382, 23457, 35745, 65292, 36131, 20219, 20154, 24050, 25351, 23450,
      12290],
     [20379, 24212, 21830, 27807, 36890, 65306, 23545, 26041, 25215, 35834, 32553, 30701, 20132,
      20184, 21608, 26399, 19968, 21608, 65292, 25105, 26041, 38656, 25552, 21069, 25552, 20379,
      39564, 25910, 26631, 20934, 19982, 26679, 20363, 25968, 25454, 12290],
     [38656, 27714, 28548, 28165, 65306, 20135, 21697, 30830, 35748, 24130, 31561, 38190, 29992,
      25991, 20214, 21704, 24076, 65292, 37325, 22797, 19978, 20256, 36820, 22238, 24050, 26377,
      20219, 21153, 65307, 24320, 21457, 25454, 27492, 25913, 25509, 21475, 25991, 26696, 12290],
     [24615, 33021, 19987, 39033, 65306, 21387, 27979, 26174, 31034, 25688, 35201, 38454, 27573,
      26159, 29942, 39048, 65292, 25311, 25552, 39640] @ asc '' LLM '' @ [36229, 26102, 24182, 21152,
      26412, 22320, 32531, 23384, 21629, 20013, 32479, 35745, 12290],
     [23433, 20840, 20363, 20250, 65306, 21457, 29616, 27979, 35797, 29615, 22659, 23494, 38053,
      26366, 36827, 20179, 24211, 65292, 24050, 36718, 25442, 23494, 38053, 24182, 34917, 20805] @
      asc '' pre-commit '' @ [25195, 25551, 35268, 21017, 12290],
     [29256, 26412, 21457, 24067, 65306, 20934, 22791, 25171] @ asc '' tag'' @ [65292] @
      asc ''checklist '' @ [21547, 36801, 31227, 12289, 22238, 28378, 19982, 20581, 24247, 26816,
      26597, 65307, 21457, 24067, 31383, 21475, 36873, 22312, 20170, 26202, 20302, 23792, 12290],
     [29992, 25143, 30740, 31350, 65306, 20116, 20301, 21463, 35775, 32773, 37117, 24076, 26395,
      30475, 21040, 20219, 21153, 38454, 27573, 36827, 24230, 65292, 32780, 38750, 31548, 32479,
      30340] @ asc '' processing '' @ [29366, 24577, 12290],
     [26550, 26500, 35752, 35770, 65306, 38431, 21015, 36873, 22411, 20542, 21521] @
      asc '' DB SKIP LOCKED'' @ [65292, 26242, 19981, 19978] @ asc '' Redis'' @ [65292, 29702, 30001,
      26159, 37096, 32626, 31616, 21333, 12289, 39064, 37327, 21305, 37197, 12290],
     [23458, 26381, 36136, 26816, 65306, 25277, 26816, 36890, 35805, 20013, 26377, 20004, 36890,
      26410, 22797, 36848, 30830, 35748, 20107, 39033, 65292, 38656, 21152, 24378, 35805, 26415,
      22521, 35757, 24182, 26356, 26032, 36136, 26816, 34920, 12290],
     [36130, 21153, 23545, 36134, 65306, 19978, 26376, 20113, 36134, 21333, 24322, 24120, 22686,
      38271, 26469, 33258, 26085, 24535, 23384, 20648, 65292, 20915, 23450, 32553, 30701, 28909,
      25968, 25454, 20445, 30041, 24182, 24320, 21551, 21387, 32553, 12290],
     [25307, 32856, 21516, 27493, 65306, 21518, 31471] @ asc '' HC '' @ [20173, 32570, 19968, 20154,
      65292, 26412, 21608, 23433, 25490, 19977, 22330, 38754, 35797, 65292, 20248, 20808, 26377] @
      asc '' FastAPI '' @ [19982] @ asc '' PG '' @ [32463, 39564, 32773, 12290],
     [25968, 25454, 27835, 29702, 65306, 32479, 19968, 24405, 38899, 20803, 25968, 25454, 23383,
      27573, 21629, 21517, 65292, 24223, 24323, 26087, 30340] @ asc '' file_id'' @ [65292, 36801,
      31227, 33050, 26412, 30001, 25968, 25454, 32452, 21608, 20116, 23436, 25104, 12290],
     [36328, 32452, 21327, 20316, 65306, 31639, 27861, 32452, 25552, 20379] @ asc '' ASR '' @ [35780,
      20272, 38598, 65292, 19994, 21153, 32452, 36127, 36131, 26631, 27880, 35268, 33539, 65292,
      19979, 21608, 19968, 23545, 40784, 39318, 25209, 26679, 26412, 12290],
     [21608, 25253, 20250, 65306, 26412, 36845, 20195, 23436, 25104, 19978, 20256, 19982, 21015,
      34920, 65292, 19979, 21608, 20914, 21050] @ asc '' SSE '' @ [19982, 33258, 21160, 37325, 35797,
      65292, 39118, 38505, 26159] @ asc '' LLM '' @ [39069, 24230, 19981, 36275, 12290],
     [21512, 21516, 35780, 23457, 65306, 23545, 26041, 35201, 27714, 22686, 21152, 21487, 29992,
      24615, 26465, 27454, 65292, 27861, 21153, 24314, 35758, 25913, 20026, 23613, 21147, 32780,
      20026, 24182, 38480, 23450, 36180, 20607, 19978, 38480, 12290],
     [25945, 23460, 35762, 24231, 65306, 32769, 24072, 28436, 31034, 20102] @ asc '' Docker '' @
      [19968, 38190, 21551, 21160, 65292, 24378, 35843] @ asc '' .env '' @ [19981, 35201, 25552,
      20132, 23494, 38053, 65292, 23398, 29983, 29616, 22330, 36305, 36890, 20581, 24247, 26816,
      26597, 12290],
     [26216, 20250, 36895, 35760, 65306, 38459, 22622, 39033, 20026, 38646, 65292, 20004, 21517,
      21516, 23398, 35831, 20551, 65292, 20170, 26085, 37325, 28857, 20462] @ asc '' flaky '' @
      [27979, 35797, 19982, 25991, 26723, 30446, 24405, 32467, 26500, 12290],
     [21806, 21518, 22238, 35775, 65306, 23458, 25143, 35748, 21487, 36716, 20889, 20934, 30830,
      24230, 65292, 20294, 24076, 26395, 25688, 35201, 24453, 21150, 21487, 23548, 20986, 21040,
      26085, 21382, 65292, 35760, 20837, 19979, 23395, 24230, 38656, 27714, 27744, 12290],
     [25216, 26415, 20998, 20139, 65306, 20171, 32461, 20102, 31199, 32422, 32493, 32422, 19982,
      20725, 23608, 20219, 21153, 22238, 25910, 65292, 29616, 22330, 28436, 31034, 20102] @
      asc '' lease '' @ [36807, 26399, 21518, 30340, 33258, 21160, 24674, 22797, 12290],
     [39044, 31639, 20250, 65306, 30003, 35831, 22686, 21152] @ asc '' LLM '' @ [39044, 31639, 65292,
      38468, 24102, 35843, 29992, 37327, 39044, 20272, 19982] @ asc '' mock '' @ [38477, 32423, 26041,
      26696, 65292, 31649, 29702, 23618, 21407, 21017, 21516, 24847, 12290],
     [20869, 23481, 23457, 26680, 65306, 25277, 26597, 25688, 35201, 26080, 25935, 24863, 20449,
      24687, 27844, 38706, 65292, 24314, 35758, 23545] @ asc '' transcript '' @ [20570, 20851, 38190,
      35789, 36807, 28388, 21518, 20877, 36865, 27169, 22411, 12290],
     [39033, 30446, 25910, 23614, 65306, 39564, 25910, 28165, 21333, 20840, 37096, 21246, 36873,
      65292, 36951, 30041, 39033, 20026, 20844, 32593, 37096, 32626, 65292, 20889, 20837, 24050,
      30693, 38382, 39064, 24182, 19981, 38459, 22622, 20132, 20184, 12290],
     [28192, 36947, 20250, 35758, 65306, 20195, 29702, 21830, 21453, 39304, 25991, 26723, 19981,
      22815, 28165, 26224, 65292, 20915, 23450, 34917, 20805] @ asc '' api.http '' @ [26679, 20363,
      19982, 24120, 35265, 38169, 35823, 30721, 35828, 26126, 12290],
     [23454, 39564, 23460, 20363, 20250, 65306, 35774, 22791, 39044, 32422, 20914, 31361, 24050,
      35299, 20915, 65292, 19979, 21608, 24320, 22987, 37319, 38598, 31532, 20108, 25209, 35821,
      38899, 26679, 26412, 65292, 36127, 36131, 20154, 36718, 25442, 12290],
     [20135, 21697, 22836, 33041, 39118, 26292, 65306, 35752, 35770, 20102, 35828, 35805, 20154,
      20998, 31163, 65292, 32467, 35770, 26159, 26412, 26399, 19981, 20570, 65292, 20808, 20445,
      35777, 29366, 24577, 26426, 19982, 25688, 35201, 36136, 37327, 12290],
     [20540, 29677, 20132, 25509, 65306, 22812, 38388, 26377, 19968, 27425, 33258, 21160, 37325,
      35797, 25104, 21151, 65292, 26080, 20154, 24037, 20171, 20837, 65307, 20132, 25509, 20154,
      38656, 20851, 27880, 30913, 30424, 21097, 20313, 31354, 38388, 12290],
     [22806, 21253, 23545, 25509, 65306, 20132, 20184, 29289, 38656, 21253, 21547, 36801, 31227,
      33050, 26412, 19982] @ asc '' README'' @ [65292, 39564, 25910, 20197, 19968, 38190] @
      asc '' compose up '' @ [25104, 21151, 20026, 20934, 12290],
     [23398, 26415, 30740, 35752, 65306, 23545, 27604, 20102, 20960, 31181, 25688, 35201] @
      asc '' prompt'' @ [65292] @ asc ''json_object '' @ [24378, 21046, 26684, 24335, 22312, 22810,
      25968, 32593, 20851, 21487, 29992, 65292, 23569, 25968, 38656, 38477, 32423, 12290],
     [24066, 25919, 24231, 35848, 65306, 23621, 27665, 24314, 35758, 20844, 24320, 36827, 24230,
      26597, 35810, 20837, 21475, 65292, 34903, 36947, 21150, 34920, 31034, 20250, 35780, 20272,
      23567, 31243, 24207, 26041, 26696, 65292, 26412, 26376, 26080, 32467, 35770, 12290],
     [20307, 32946, 38431, 20250, 65306, 35843, 25972, 35757, 32451, 24378, 24230, 65292, 20260,
      30149, 29699, 21592, 19979, 21608, 22797, 27979, 65292, 38431, 21307, 24378, 35843, 24674,
      22797, 26399, 19981, 20570, 20914, 21050, 35757, 32451, 12290],
     [24320, 28304, 21327, 20316, 65306] @ asc ''issue '' @ [37324, 26377, 20154, 38382] @
      asc '' SQLite '' @ [25903, 25345, 65292, 32500, 25252, 32773, 22238, 22797, 24403, 21069, 20165]
      @ asc '' PostgreSQL'' @ [65292, 27426, 36814, 36129, 29486, 36866, 37197, 12290],
     [20869, 37096, 23457, 35745, 65306, 25277, 26597, 21024, 38500, 25509, 21475, 26159, 21542,
      28165, 25991, 20214, 19982, 20219, 21153, 65292, 32467, 26524, 31526, 21512, 39044, 26399,
      65292, 24314, 35758, 34917, 38598, 25104, 27979, 35797, 35206, 30422, 12290],
     [24066, 22330, 31574, 21010, 65306, 27963, 21160, 33853, 22320, 39029, 38656, 35201, 21697,
      29260, 20027, 35270, 35273, 65292, 31105, 27490, 39318, 23631, 22534, 30732, 25968, 25454,
      21345, 29255, 65292, 35774, 35745, 26412, 21608, 20116, 20986, 21021, 31295, 12290],
     [23478, 38271, 20250, 32426, 35201, 65306, 36890, 25253, 20102, 26412, 23398, 26399, 36827,
      24230, 19982, 20316, 19994, 35268, 33539, 65292, 23478, 38271, 20851, 24515, 26202, 33258,
      20064, 23433, 25490, 65292, 26657, 26041, 25215, 35834, 19979, 21608, 20844, 31034, 12290],
     [21307, 30103, 20250, 35786, 65306, 24314, 35758, 23436, 21892, 38543, 35775, 35745, 21010,
      65292, 25252, 22763, 38271, 36127, 36131, 25552, 37266, 30701, 20449, 27169, 26495, 65292,
      21307, 29983, 34917, 20805, 22797, 26597, 26102, 38388, 31383, 21475, 12290],
     [21019, 19994, 36335, 28436, 65306, 35780, 22996, 35748, 21487, 25216, 26415, 28145, 24230,
      65292, 36136, 30097, 21830, 19994, 21270, 33410, 22863, 65292, 22242, 38431, 25215, 35834,
      19979, 23395, 24230, 32473, 20986, 20184, 36153, 35797, 28857, 26041, 26696, 12290],
     [31038, 21306, 20849, 24314, 65306, 24535, 24895, 32773, 25253, 21517, 36229, 39069, 65292,
      38656, 20998, 27969, 21040, 25991, 26723, 19982, 27979, 35797, 20004, 32452, 65292, 32676,
      20844, 21578, 20170, 26202, 21457, 20986, 12290],
     [35821, 35328, 35838, 24405, 38899, 65306, 32451, 20064, 20102, 21830, 21153, 37038, 20214,
      35821, 27668, 65292, 32769, 24072, 32416, 27491, 20102, 19977, 22788, 29992, 35789, 65292,
      24067, 32622, 19979, 27425, 24405, 38899, 20316, 19994, 20027, 39064, 12290],
     [26495, 29699, 25112, 26415, 20250, 65306, 38024, 23545, 23545, 26041, 24555, 25915, 35843,
      25972, 31449, 20301, 65292, 38431, 38271, 24378, 35843, 27807, 36890, 21475, 20196, 32479,
      19968, 65292, 19979, 22330, 28909, 36523, 25552, 21069, 21313, 20116, 20998, 38047, 12290],
     [24180, 24230, 24635, 32467, 65306, 22238, 39038, 23436, 25104, 20102, 24405, 38899, 36716,
      20889, 27969, 27700, 32447, 19982, 21152, 20998, 39033, 65292, 26410, 23436, 25104, 20844,
      32593, 37096, 32626, 65292, 19979, 24180, 20248, 20808, 20307, 39564, 20248, 21270, 12290]]"

lemma length_templates: "length TRANSCRIPT_TEMPLATES = 50"
  by (simp add: TRANSCRIPT_TEMPLATES_def)

end
