(* ===== verification/Transcriber.thy ===== *)
theory Transcriber
  imports Mock_Transcripts Recording_Service Complex_Main
begin

text \<open>
  \<open>api/service/transcriber.py\<close>: the mock speech recognition.  \<open>sha_int\<close> is
  \<open>int(sha256(seed).hexdigest(), 16)\<close> of a text's UTF-8 bytes; the two random draws are
  arguments: \<open>u\<close> places the delay between its bounds, \<open>roll\<close> decides on failure.
\<close>

section \<open>The text\<close>

definition pick_transcript :: "(pstr \<Rightarrow> nat) \<Rightarrow> pstr \<Rightarrow> pstr option \<Rightarrow> pstr" where
  "pick_transcript sha_int path tid =
     (let seed = or_str tid [] @ asc '':'' @ path;
          idx = sha_int seed mod length TRANSCRIPT_TEMPLATES;
          body = TRANSCRIPT_TEMPLATES ! idx
      in [12304, 27169, 25311, 36716, 20889, 12305] @ body @ [65288, 26469, 28304] @ asc '': '' @
         path_name path @ [65289])"

section \<open>The service\<close>

record transcriber =
  min_delay :: real
  max_delay :: real
  fail_rate :: real

definition new_transcriber :: "real \<Rightarrow> real \<Rightarrow> real \<Rightarrow> exn + transcriber" where
  "new_transcriber lo hi rate =
     (if lo < 0 \<or> hi < lo then Inl (ValueError (asc ''invalid ASR delay range''))
      else if \<not> (0 \<le> rate \<and> rate \<le> 1) then Inl (ValueError (asc ''fail_rate must be in [0, 1]''))
      else Inr \<lparr>min_delay = lo, max_delay = hi, fail_rate = rate\<rparr>)"

text \<open>"ASR Mock failed (about n% probability)".\<close>

definition msg_asr :: "real \<Rightarrow> pstr" where
  [msg_defs]: "msg_asr rate = asc ''ASR Mock '' @ [22833, 36133] @ asc '' ('' @ [32422] @ asc '' '' @
     int_str (floor (rate * 100)) @ asc ''% '' @ [27010, 29575] @ asc '')''"

text \<open>The pause and the result.\<close>

definition transcribe ::
  "(pstr \<Rightarrow> nat) \<Rightarrow> transcriber \<Rightarrow> real \<Rightarrow> real \<Rightarrow> pstr \<Rightarrow> pstr option \<Rightarrow> real \<times> (exn + pstr)" where
  "transcribe sha_int s u roll path tid =
     (min_delay s + (max_delay s - min_delay s) * u,
      if roll < fail_rate s then Inl (RuntimeError (msg_asr (fail_rate s)))
      else Inr (pick_transcript sha_int path tid))"

section \<open>Facts\<close>

lemma pick_transcript_marked:
  "\<exists>body \<in> set TRANSCRIPT_TEMPLATES. \<exists>name. pick_transcript sha_int path tid =
     [12304, 27169, 25311, 36716, 20889, 12305] @ body @ name"
  by (auto simp: pick_transcript_def Let_def length_templates
      intro!: bexI [of _ "TRANSCRIPT_TEMPLATES ! (sha_int (or_str tid [] @ asc '':'' @ path) mod 50)"])

lemma pick_transcript_strip: "strip (pick_transcript sha_int path tid) = pick_transcript sha_int path tid"
  unfolding strip_def pick_transcript_def Let_def
  by (rule strip_by_id) (simp add: is_space_def)

text \<open>
  The mock transcriber behind the pipeline: it pauses within its bounds and fails exactly when
  the draw is below the rate; otherwise the transcript is one of the fifty texts, the same at
  every retry of the task, and never blank: once a task has it, the stream endpoint never
  refuses for want of a transcript.
\<close>

lemma transcribe_spec:
  assumes "new_transcriber lo hi rate = Inr s" and "0 \<le> u" and "u \<le> 1"
    and "transcribe sha_int s u roll path tid = (delay, res)"
  shows "lo \<le> delay \<and> delay \<le> hi \<and> (roll < rate \<longleftrightarrow> (\<exists>e. res = Inl (RuntimeError e))) \<and>
    (\<forall>tr. res = Inr tr \<longrightarrow>
       (\<exists>body \<in> set TRANSCRIPT_TEMPLATES. \<exists>name. tr = [12304, 27169, 25311, 36716, 20889, 12305] @ body @ name) \<and>
       (\<forall>u' roll'. rate \<le> roll' \<longrightarrow> snd (transcribe sha_int s u' roll' path tid) = Inr tr) \<and>
       (\<forall>env sm rid db r t. recording_get_by_id db rid = Some r \<longrightarrow>
          get_by_recording (env 0 db) (rec_id r) = Some t \<longrightarrow> transcript t = Some tr \<longrightarrow>
          fst (prepare_summary_stream env sm rid db) \<noteq> Inl (InvalidRequestError msg_no_transcript)))"
proof -
  have s: "s = \<lparr>min_delay = lo, max_delay = hi, fail_rate = rate\<rparr>" "lo \<le> hi"
    using assms(1) by (auto simp: new_transcriber_def split: if_splits)
  have d: "delay = lo + (hi - lo) * u" and r: "res = (if roll < rate then Inl (RuntimeError (msg_asr rate)) else Inr (pick_transcript sha_int path tid))"
    using assms(4) by (auto simp: transcribe_def s(1))
  have "lo \<le> delay" using s(2) assms(2) by (simp add: d)
  moreover have "delay \<le> hi"
    using mult_left_le [of u "hi - lo"] s(2) assms(3) by (simp add: d)
  moreover have "fst (prepare_summary_stream env sm rid db) \<noteq> Inl (InvalidRequestError msg_no_transcript)"
    if "recording_get_by_id db rid = Some r" "get_by_recording (env 0 db) (rec_id r) = Some t"
      "transcript t = Some (pick_transcript sha_int path tid)" for env sm rid db r t
  proof -
    have "pick_transcript sha_int path tid \<noteq> []"
      by (simp add: pick_transcript_def Let_def)
    then show ?thesis
      using that by (simp add: prepare_summary_stream_def repo_get_by_id_def require_task_def Let_def
          pick_transcript_strip or_str_def split: option.splits)
  qed
  ultimately show ?thesis
    using pick_transcript_marked [of sha_int path tid] by (auto simp: r transcribe_def s(1))
qed

lemma transcribe_spec_witness:
  "\<exists>tr. transcribe (\<lambda>_. 7) \<lparr>min_delay = 5, max_delay = 15, fail_rate = 1 / 5\<rparr> (1 / 2) (1 / 2) (asc ''/u/a.wav'') None =
      (10, Inr tr) \<and> (\<exists>body \<in> set TRANSCRIPT_TEMPLATES. \<exists>name. tr = [12304, 27169, 25311, 36716, 20889, 12305] @ body @ name)"
proof -
  have n: "new_transcriber 5 15 (1 / 5) = Inr \<lparr>min_delay = 5, max_delay = 15, fail_rate = 1 / 5\<rparr>"
    by (simp add: new_transcriber_def)
  obtain tr where t: "transcribe (\<lambda>_. 7) \<lparr>min_delay = 5, max_delay = 15, fail_rate = 1 / 5\<rparr> (1 / 2) (1 / 2)
      (asc ''/u/a.wav'') None = (10, Inr tr)"
    by (simp add: transcribe_def)
  show ?thesis
    using t transcribe_spec [OF n _ _ t] by simp
qed

end
