(* ===== verification/Application.thy ===== *)
theory Application
  imports Settings Identity Schema Http
begin

text \<open>
  The composition of the program: \<open>TaskWorker.__init__\<close> (\<open>api/worker/worker.py\<close>), the life of
  the summarizer and its HTTP client (\<open>api/core/llm/llm.py\<close>, \<open>api/service/summarizer.py\<close>), and
  the \<open>lifespan\<close> of \<open>api/app.py\<close>: what happens, in which order, between the start of the
  process and the first request, and at the shutdown.  What can fail on the way is an argument.
\<close>

section \<open>\<open>TaskWorker.__init__\<close>\<close>

record worker_options =
  opt_max_concurrency :: "int option"
  opt_max_batch_size :: "int option"
  opt_lease_seconds :: "int option"
  opt_max_retries :: "int option"
  opt_poll_idle_seconds :: "time option"
  opt_allow_mock_llm :: "bool option"
  opt_worker_id :: "pstr option"

definition no_options :: worker_options where
  "no_options = \<lparr>opt_max_concurrency = None, opt_max_batch_size = None, opt_lease_seconds = None,
     opt_max_retries = None, opt_poll_idle_seconds = None, opt_allow_mock_llm = None, opt_worker_id = None\<rparr>"

text \<open>\<open>x if x is not None else d\<close>: a zero or \<open>False\<close> that is given counts.\<close>

definition given_or :: "'a option \<Rightarrow> 'a \<Rightarrow> 'a" where
  "given_or x d = (case x of None \<Rightarrow> d | Some v \<Rightarrow> v)"

record task_worker =
  tw_cfg :: disp_cfg
  tw_renew_interval :: time
  tw_poll_idle :: time
  tw_state :: worker_state

definition new_task_worker ::
  "(nat \<Rightarrow> bool) \<Rightarrow> id_io \<Rightarrow> pstr option \<Rightarrow> uuid \<Rightarrow> uuid \<Rightarrow> settings \<Rightarrow> worker_options \<Rightarrow> bool \<Rightarrow> id_file \<Rightarrow>
     (exn + task_worker) \<times> id_file" where
  "new_task_worker alnum io host u v s opts summarizer f =
     (let lease = given_or (opt_lease_seconds opts) (WORKER_LEASE_SECONDS s);
          made = (\<lambda>wid. \<lparr>tw_cfg =
                   \<lparr>exec_of = \<lparr>worker_id = wid, lease_seconds = lease,
                       max_retries = given_or (opt_max_retries opts) (WORKER_MAX_RETRIES s),
                       has_summarizer = summarizer,
                       allow_mock_llm = given_or (opt_allow_mock_llm opts) (WORKER_ALLOW_MOCK_LLM s)\<rparr>,
                    max_concurrency = given_or (opt_max_concurrency opts) (WORKER_MAX_CONCURRENCY s),
                    max_batch_size = given_or (opt_max_batch_size opts) (WORKER_MAX_BATCH_SIZE s),
                    reclaim_interval = reclaim_interval_of lease\<rparr>,
                  tw_renew_interval = lease_renew_interval lease,
                  tw_poll_idle = given_or (opt_poll_idle_seconds opts) (WORKER_POLL_IDLE_SECONDS s),
                  tw_state = new_worker\<rparr>)
      in if or_str (opt_worker_id opts) [] \<noteq> [] then (Inr (made (or_str (opt_worker_id opts) [])), f)
         else case resolve_worker_id alnum io host u v (WORKER_ID s) f of
                (Inl e, f') \<Rightarrow> (Inl e, f')
              | (Inr wid, f') \<Rightarrow> (Inr (made wid), f'))"

section \<open>The HTTP client of the summarizer\<close>

text \<open>The clients that have been opened and not closed; the next one gets a fresh number.\<close>

record client_pool =
  cp_next :: nat
  cp_open :: "nat list"

definition open_client :: "client_pool \<Rightarrow> nat \<times> client_pool" where
  "open_client p = (cp_next p, p\<lparr>cp_next := Suc (cp_next p), cp_open := cp_next p # cp_open p\<rparr>)"

definition close_client :: "nat \<Rightarrow> client_pool \<Rightarrow> client_pool" where
  "close_client c p = p\<lparr>cp_open := removeAll c (cp_open p)\<rparr>"

text \<open>\<open>LLMSummarizer\<close>: its client, and whether it made it.\<close>

record llm_summarizer =
  lm_client :: nat
  lm_owns_client :: bool
  lm_cfg :: llm_cfg

definition new_summarizer ::
  "pstr \<Rightarrow> int \<Rightarrow> int \<Rightarrow> nat option \<Rightarrow> client_pool \<Rightarrow> (exn + llm_summarizer) \<times> client_pool" where
  "new_summarizer mdl tokens retries given p =
     (if retries < 1 then (Inl (ValueError (asc ''max_retries must be >= 1'')), p)
      else let cfg = \<lparr>model = mdl, max_tokens = tokens, llm_max_retries = nat retries, base_backoff = seconds 1\<rparr>
           in case given of
                Some c \<Rightarrow> (Inr \<lparr>lm_client = c, lm_owns_client = False, lm_cfg = cfg\<rparr>, p)
              | None \<Rightarrow> (case open_client p of
                           (c, p') \<Rightarrow> (Inr \<lparr>lm_client = c, lm_owns_client = True, lm_cfg = cfg\<rparr>, p')))"

definition from_settings :: "settings \<Rightarrow> client_pool \<Rightarrow> (exn + llm_summarizer) \<times> client_pool" where
  "from_settings s p =
     (if LLM_API_KEY s = [] then (Inl (ValueError (asc ''LLM_API_KEY is not configured'')), p)
      else new_summarizer (LLM_MODEL s) (LLM_MAX_TOKENS s) (LLM_MAX_RETRIES s) None p)"

text \<open>\<open>aclose\<close>: closing the client may raise, and then it counts as open.\<close>

definition summarizer_aclose :: "exn option \<Rightarrow> llm_summarizer \<Rightarrow> client_pool \<Rightarrow> (exn + unit) \<times> client_pool" where
  "summarizer_aclose fails m p =
     (if \<not> lm_owns_client m then (Inr (), p)
      else case fails of Some e \<Rightarrow> (Inl e, p) | None \<Rightarrow> (Inr (), close_client (lm_client m) p))"

section \<open>The life of \<open>SummarizerService\<close>\<close>

record summarizer_obj =
  so_summarizer :: "llm_summarizer option"
  so_owns :: bool

definition new_service :: "llm_summarizer option \<Rightarrow> summarizer_obj" where
  "new_service m = \<lparr>so_summarizer = m, so_owns = (m = None)\<rparr>"

text \<open>The property \<open>summarizer\<close> builds it at the first use.\<close>

definition get_summarizer ::
  "settings \<Rightarrow> summarizer_obj \<times> client_pool \<Rightarrow> (exn + llm_summarizer) \<times> summarizer_obj \<times> client_pool" where
  "get_summarizer s st =
     (case st of (o1, p) \<Rightarrow>
        (case so_summarizer o1 of
           Some m \<Rightarrow> (Inr m, o1, p)
         | None \<Rightarrow>
             (case from_settings s p of
                (Inl e, p') \<Rightarrow> (Inl e, o1, p')
              | (Inr m, p') \<Rightarrow> (Inr m, \<lparr>so_summarizer = Some m, so_owns = True\<rparr>, p'))))"

text \<open>What the stream endpoint sees of the service.\<close>

definition service_view :: "settings \<Rightarrow> summarizer_obj \<Rightarrow> summarizer_service" where
  "service_view s o1 =
     \<lparr>has_llm = (so_summarizer o1 \<noteq> None \<or> LLM_API_KEY s \<noteq> []), allow_mock = WORKER_ALLOW_MOCK_LLM s\<rparr>"

definition service_aclose ::
  "exn option \<Rightarrow> summarizer_obj \<times> client_pool \<Rightarrow> (exn + unit) \<times> summarizer_obj \<times> client_pool" where
  "service_aclose fails st =
     (case st of (o1, p) \<Rightarrow>
        (case so_summarizer o1 of
           None \<Rightarrow> (Inr (), o1, p)
         | Some m \<Rightarrow>
             (if \<not> so_owns o1 then (Inr (), o1, p)
              else case summarizer_aclose fails m p of
                     (Inl e, p') \<Rightarrow> (Inl e, o1, p')
                   | (Inr _, p') \<Rightarrow> (Inr (), o1\<lparr>so_summarizer := None\<rparr>, p'))))"

section \<open>The application\<close>

text \<open>
  What lives outside the process or is shared in it: the identity file, the schema, the
  database, the HTTP clients, the working directories that exist, and whether the engine has been
  used (so that its pool may hold connections) and not disposed of since.
\<close>

record world =
  wd_id_file :: id_file
  wd_schema :: schema
  wd_db :: database
  wd_clients :: client_pool
  wd_dirs :: "pstr list"
  wd_engine :: bool

text \<open>
  What \<open>lifespan\<close> keeps: the worker, and the one \<open>SummarizerService\<close>, which the worker shares
  if there is an API key (\<open>worker_summarizer or SummarizerService(...)\<close>).
\<close>

record app =
  ap_settings :: settings
  ap_worker :: task_worker
  ap_summarizer :: summarizer_obj
  ap_shared :: bool
  ap_instance_id :: pstr

record startup_io =
  io_mkdir :: "pstr \<Rightarrow> exn option"
  io_id :: id_io
  io_host :: "pstr option"
  io_uuid :: uuid
  io_uuid2 :: uuid
  io_migrate :: "schema \<Rightarrow> (exn + unit) \<times> schema"
  io_clock :: clock
  io_monotonic :: time
  io_recover :: tx

definition make_dir :: "startup_io \<Rightarrow> pstr \<Rightarrow> world \<Rightarrow> (exn + unit) \<times> world" where
  "make_dir io d w =
     (case io_mkdir io d of
        Some e \<Rightarrow> (Inl e, w)
      | None \<Rightarrow> (Inr (), w\<lparr>wd_dirs := List.insert d (wd_dirs w)\<rparr>))"

text \<open>Up to the \<open>yield\<close>.  The \<open>summarizer\<close> argument of the worker is \<open>None\<close> without a key.\<close>

definition lifespan_start ::
  "(nat \<Rightarrow> bool) \<Rightarrow> settings \<Rightarrow> startup_io \<Rightarrow> world \<Rightarrow> (exn + app) \<times> world" where
  "lifespan_start alnum s io w =
     (case make_dir io (path_str (UPLOAD_DIR s)) w of
        (Inl e, wa) \<Rightarrow> (Inl e, wa)
      | (Inr _, wa) \<Rightarrow>
     (case make_dir io (path_str (LOG_DIR s)) wa of
        (Inl e, wb) \<Rightarrow> (Inl e, wb)
      | (Inr _, wb) \<Rightarrow>
     (case new_task_worker alnum (io_id io) (io_host io) (io_uuid io) (io_uuid2 io) s no_options
             (LLM_API_KEY s \<noteq> []) (wd_id_file wb) of
        (Inl e, f) \<Rightarrow> (Inl e, wb\<lparr>wd_id_file := f\<rparr>)
      | (Inr tw, f) \<Rightarrow>
     (case io_migrate io (wd_schema wb) of
        (Inl e, sch) \<Rightarrow> (Inl e, wb\<lparr>wd_id_file := f, wd_schema := sch\<rparr>)
      | (Inr _, sch) \<Rightarrow>
     (case worker_start (tw_cfg tw) (io_clock io) (io_monotonic io) (io_recover io) (wd_db wb, tw_state tw) of
        (Inl e, db, ws) \<Rightarrow> (Inl e, wb\<lparr>wd_id_file := f, wd_schema := sch, wd_db := db, wd_engine := True\<rparr>)
      | (Inr _, db, ws) \<Rightarrow>
          (Inr \<lparr>ap_settings = s, ap_worker = tw\<lparr>tw_state := ws\<rparr>, ap_summarizer = new_service None,
                ap_shared = (LLM_API_KEY s \<noteq> []), ap_instance_id = worker_id (exec_of (tw_cfg tw))\<rparr>,
           wb\<lparr>wd_id_file := f, wd_schema := sch, wd_db := db, wd_engine := True\<rparr>))))))"

text \<open>Who asks for the summarizer while the process serves: the pipeline and the endpoint.\<close>

datatype summarizer_use = WorkerSummary | StreamSummary

definition use_summarizer :: "summarizer_use \<Rightarrow> app \<times> client_pool \<Rightarrow> app \<times> client_pool" where
  "use_summarizer u st =
     (case st of (a, p) \<Rightarrow>
        if (case u of WorkerSummary \<Rightarrow> ap_shared a
                    | StreamSummary \<Rightarrow> has_llm (service_view (ap_settings a) (ap_summarizer a)))
        then (case get_summarizer (ap_settings a) (ap_summarizer a, p) of
                (_, o1, p') \<Rightarrow> (a\<lparr>ap_summarizer := o1\<rparr>, p'))
        else st)"

text \<open>\<open>TaskWorker.stop\<close> with the closing of its summarizer, then \<open>engine.dispose()\<close>.\<close>

definition task_worker_stop ::
  "clock \<Rightarrow> tx \<Rightarrow> exn option \<Rightarrow> app \<times> world \<Rightarrow> (exn + unit) \<times> app \<times> world" where
  "task_worker_stop ck x close_fails st =
     (case st of (a, w) \<Rightarrow>
        let tw = ap_worker a
        in case worker_stop (tw_cfg tw) ck x (wd_db w, tw_state tw) of
             (Inl e, db, ws) \<Rightarrow> (Inl e, a\<lparr>ap_worker := tw\<lparr>tw_state := ws\<rparr>\<rparr>, w\<lparr>wd_db := db\<rparr>)
           | (Inr _, db, ws) \<Rightarrow>
               (let a1 = a\<lparr>ap_worker := tw\<lparr>tw_state := ws\<rparr>\<rparr>; wa = w\<lparr>wd_db := db\<rparr>
                in if \<not> ap_shared a then (Inr (), a1, wa)
                   else case service_aclose close_fails (ap_summarizer a, wd_clients w) of
                          (r, o1, p) \<Rightarrow> (r, a1\<lparr>ap_summarizer := o1\<rparr>, wa\<lparr>wd_clients := p\<rparr>)))"

definition lifespan_stop ::
  "clock \<Rightarrow> tx \<Rightarrow> exn option \<Rightarrow> app \<times> world \<Rightarrow> (exn + unit) \<times> app \<times> world" where
  "lifespan_stop ck x close_fails st =
     (case task_worker_stop ck x close_fails st of
        (Inl e, a, w) \<Rightarrow> (Inl e, a, w)
      | (Inr _, a, w) \<Rightarrow> (Inr (), a, w\<lparr>wd_engine := False\<rparr>))"

end
