(* ===== verification/Application_Properties.thy ===== *)
theory Application_Properties
  imports Application
begin

text \<open>
  Starting and stopping the application: what has happened before the first request, what a
  failure on the way leaves behind, what a restart recovers, and which resources are closed.
\<close>

section \<open>Starting\<close>

lemma worker_start_cases:
  assumes "worker_start cfg ck mt x (db, ws) = (r, db', ws')"
  shows "(r = Inr () \<and> x = Commit \<and> d_pc ws' = LoopTop \<and> started ws' \<and> \<not> stop_event ws' \<and>
      running ws' = running ws \<and> procs ws' = procs ws) \<or>
    (\<exists>e. r = Inl e \<and> ws' = ws \<and> x \<noteq> Commit \<and> (db' = db \<or> (\<exists>e. x = Abort True e) \<or> x = CancelTx True))"
  using assms by (cases x) (auto simp: worker_start_unfold recover_zombie_tasks_def)

lemma new_task_worker_cases:
  assumes "new_task_worker alnum io host u v s no_options summarizer f = (Inr tw, f')"
  shows "resolve_worker_id alnum io host u v (WORKER_ID s) f = (Inr (worker_id (exec_of (tw_cfg tw))), f') \<and>
    tw_state tw = new_worker \<and> has_summarizer (exec_of (tw_cfg tw)) = summarizer \<and>
    allow_mock_llm (exec_of (tw_cfg tw)) = WORKER_ALLOW_MOCK_LLM s \<and>
    max_retries (exec_of (tw_cfg tw)) = WORKER_MAX_RETRIES s"
  using assms by (auto simp: new_task_worker_def no_options_def given_or_def or_str_def Let_def
      split: prod.splits sum.splits)

text \<open>The two ends of the start; every other step is one of the cases.\<close>

lemma start_ok:
  assumes "lifespan_start alnum s io w = (Inr a, w')"
  obtains tw ws where
    "new_task_worker alnum (io_id io) (io_host io) (io_uuid io) (io_uuid2 io) s no_options
       (LLM_API_KEY s \<noteq> []) (wd_id_file w) = (Inr tw, wd_id_file w')"
    and "io_migrate io (wd_schema w) = (Inr (), wd_schema w')"
    and "worker_start (tw_cfg tw) (io_clock io) (io_monotonic io) (io_recover io) (wd_db w, new_worker) =
      (Inr (), wd_db w', ws)"
    and "a = \<lparr>ap_settings = s, ap_worker = tw\<lparr>tw_state := ws\<rparr>, ap_summarizer = new_service None,
      ap_shared = (LLM_API_KEY s \<noteq> []), ap_instance_id = worker_id (exec_of (tw_cfg tw))\<rparr>"
    and "wd_clients w' = wd_clients w" and "wd_engine w'"
    and "path_str (UPLOAD_DIR s) \<in> set (wd_dirs w')" and "path_str (LOG_DIR s) \<in> set (wd_dirs w')"
  using assms new_task_worker_cases
  by (fastforce simp: lifespan_start_def make_dir_def split: option.splits sum.splits prod.splits)

lemma start_failed:
  assumes "lifespan_start alnum s io w = (Inl e, w')"
  shows "wd_clients w' = wd_clients w \<and>
    (wd_db w' = wd_db w \<or>
     (\<exists>sch. io_migrate io (wd_schema w) = (Inr (), sch) \<and> wd_schema w' = sch) \<and>
     ((\<exists>e. io_recover io = Abort True e) \<or> io_recover io = CancelTx True))"
  using assms worker_start_cases new_task_worker_cases
  by (fastforce simp: lifespan_start_def make_dir_def split: option.splits sum.splits prod.splits)


section \<open>Restarting\<close>

lemma same_identity:
  assumes "\<forall>c. alnum c \<longrightarrow> \<not> is_space c" and "\<not> id_read_fails io" and "\<not> id_write_fails io"
    and "resolve_worker_id alnum io host u v setting f = (Inr i, f')" and "\<not> id_read_fails io'"
  shows "resolve_worker_id alnum io' host' u' v' setting f' = (Inr i, f')"
proof (cases "or_str setting [] = []")
  case True
  show ?thesis by (rule resolve_again [OF assms(1) True assms(2-5)])
qed (use assms(4) in \<open>simp add: resolve_worker_id_def\<close>)

text \<open>C37.
  A restart on the same state directory: the process has the identity it had, and whatever other
  sessions have done in between, every task in flight under that identity is pending again when
  the first request can come, claimable at once, with its transcript and its retry count; the
  tasks other workers hold on live leases are untouched.
\<close>

theorem restart_recovers:
  assumes "\<forall>c. alnum c \<longrightarrow> \<not> is_space c" and "\<not> id_read_fails (io_id io)"
    and "\<not> id_write_fails (io_id io)" and "\<not> id_read_fails (io_id io')"
    and "lifespan_start alnum s io w = (Inr a, wx)"
    and "wd_id_file v = wd_id_file wx" and "lifespan_start alnum s io' v = (Inr a', v')"
    and "get_by_id (wd_db v) tid = Some t"
  shows "ap_instance_id a' = ap_instance_id a \<and>
    (if status t \<in> set IN_FLIGHT_STATUSES \<and> (locked_by t = Some (ap_instance_id a) \<or> lease_expired (io_clock io') t)
     then \<exists>u. get_by_id (wd_db v') tid = Some u \<and> locked_by u = None \<and> retry_count u = retry_count t \<and>
            transcript u = transcript t \<and> pick_guard (io_clock io') (\<lambda>_. False) u
     else get_by_id (wd_db v') tid = Some t)"
proof -
  from start_ok [OF assms(5)] obtain tw ws where tw:
    "new_task_worker alnum (io_id io) (io_host io) (io_uuid io) (io_uuid2 io) s no_options
       (LLM_API_KEY s \<noteq> []) (wd_id_file w) = (Inr tw, wd_id_file wx)"
    and a: "ap_instance_id a = worker_id (exec_of (tw_cfg tw))" by (metis app.select_convs(5))
  from start_ok [OF assms(7)] obtain tx wt where tx:
    "new_task_worker alnum (io_id io') (io_host io') (io_uuid io') (io_uuid2 io') s no_options
       (LLM_API_KEY s \<noteq> []) (wd_id_file v) = (Inr tx, wd_id_file v')"
    and st: "worker_start (tw_cfg tx) (io_clock io') (io_monotonic io') (io_recover io') (wd_db v, new_worker) =
      (Inr (), wd_db v', wt)"
    and a': "ap_instance_id a' = worker_id (exec_of (tw_cfg tx))" by (metis app.select_convs(5))
  have same: "ap_instance_id a' = ap_instance_id a"
    using same_identity [OF assms(1-3) conjunct1 [OF new_task_worker_cases [OF tw]] assms(4)]
      conjunct1 [OF new_task_worker_cases [OF tx]] by (auto simp: a a' assms(6))
  have c: "io_recover io' = Commit"
    using worker_start_cases [OF st] by auto
  show ?thesis
    using start_recovers [OF st [unfolded c] assms(8)] same unfolding a' by auto
qed

text \<open>A start on the database of the other examples, by the worker \<open>w0\<close>.\<close>

definition sample_io :: startup_io where
  "sample_io = \<lparr>io_mkdir = (\<lambda>_. None), io_id = \<lparr>id_read_fails = False, id_write_fails = False\<rparr>,
     io_host = None, io_uuid = 1, io_uuid2 = 2,
     io_migrate = (\<lambda>sch. case upgrade sch of None \<Rightarrow> (Inl (OtherError []), sch) | Some sch' \<Rightarrow> (Inr (), sch')),
     io_clock = ck0, io_monotonic = 0, io_recover = Commit\<rparr>"

definition sample_wd :: world where
  "sample_wd = \<lparr>wd_id_file = Holds w0, wd_schema = \<lparr>sch_tables = [], sch_indexes = []\<rparr>,
     wd_db = sample_db, wd_clients = \<lparr>cp_next = 0, cp_open = []\<rparr>, wd_dirs = [], wd_engine = False\<rparr>"

lemma sample_start_ok:
  assumes "upgrade sch = Some sch'"
  shows "\<exists>a w. lifespan_start (\<lambda>c. 48 \<le> c \<and> c \<le> 57) (s\<lparr>WORKER_ID := None\<rparr>) sample_io (sample_wd\<lparr>wd_schema := sch\<rparr>) =
    (Inr a, w) \<and> wd_id_file w = Holds w0 \<and> ap_instance_id a = w0 \<and> ap_settings a = s\<lparr>WORKER_ID := None\<rparr> \<and>
    ap_summarizer a = new_service None \<and> ap_shared a = (LLM_API_KEY s \<noteq> []) \<and>
    wd_clients w = \<lparr>cp_next = 0, cp_open = []\<rparr>"
proof -
  have id: "resolve_worker_id (\<lambda>c. 48 \<le> c \<and> c \<le> 57) (io_id sample_io) None 1 2 None (Holds w0) = (Inr w0, Holds w0)"
    by (simp add: resolve_worker_id_def load_or_create_def or_str_def max_worker_id_len_def w0_def Let_def
        strip_def strip_by_def lstrip_by_def rstrip_by_def is_space_def asc_def sample_io_def)
  show ?thesis
    by (simp add: lifespan_start_def make_dir_def new_task_worker_def no_options_def or_str_def
        sample_wd_def id [unfolded sample_io_def, simplified] sample_io_def Let_def assms worker_start_unfold
        recover_zombie_tasks_def)
qed

lemma upgrade_empty: "\<exists>sch. upgrade \<lparr>sch_tables = [], sch_indexes = []\<rparr> = Some sch"
  by (simp add: upgrade_def create_table_def create_index_def users_table_def recordings_table_def
      tasks_table_def ix_def col_def asc_inj)

lemma sample_start:
  obtains a w where
    "lifespan_start (\<lambda>c. 48 \<le> c \<and> c \<le> 57) (s\<lparr>WORKER_ID := None\<rparr>) sample_io sample_wd = (Inr a, w)"
    and "wd_id_file w = Holds w0" and "ap_instance_id a = w0" and "ap_settings a = s\<lparr>WORKER_ID := None\<rparr>"
    and "ap_summarizer a = new_service None" and "ap_shared a = (LLM_API_KEY s \<noteq> [])"
    and "wd_clients w = \<lparr>cp_next = 0, cp_open = []\<rparr>"
proof -
  obtain sch where "upgrade (wd_schema sample_wd) = Some sch"
    using upgrade_empty by (auto simp: sample_wd_def)
  from sample_start_ok [OF this, of s] show thesis
    using that by (auto simp: sample_wd_def)
qed


theorem restart_recovers_witness:
  "\<exists>a w a' w' u. lifespan_start (\<lambda>c. 48 \<le> c \<and> c \<le> 57) (default_settings []) sample_io sample_wd = (Inr a, w) \<and>
     lifespan_start (\<lambda>c. 48 \<le> c \<and> c \<le> 57) (default_settings []) sample_io sample_wd = (Inr a', w') \<and>
     get_by_id (wd_db w') 13 = Some u \<and> locked_by u = None"
proof -
  let ?s = "default_settings []" and ?a = "\<lambda>c::nat. 48 \<le> c \<and> c \<le> 57"
  have s: "?s\<lparr>WORKER_ID := None\<rparr> = ?s" by (simp add: default_settings_def)
  obtain a w where st: "lifespan_start ?a ?s sample_io sample_wd = (Inr a, w)" "wd_id_file w = Holds w0"
    "ap_instance_id a = w0"
    by (rule sample_start [of ?s, unfolded s])
  have "\<forall>c. ?a c \<longrightarrow> \<not> is_space c" by (auto simp: is_space_def)
  moreover have "wd_id_file sample_wd = wd_id_file w" "get_by_id (wd_db sample_wd) 13 = Some busy_task"
    by (simp_all add: sample_wd_def st(2))
  ultimately show ?thesis
    using restart_recovers [of ?a sample_io sample_io ?s sample_wd a w sample_wd a w 13 busy_task] st
    by (auto simp: sample_io_def busy_task_def)
qed

section \<open>The summarizer while the process serves\<close>

text \<open>
  At most one client is open, the one the shared service has built and will close; without an
  API key there is none.
\<close>

definition clients_ok :: "app \<Rightarrow> client_pool \<Rightarrow> bool" where
  "clients_ok a p \<longleftrightarrow> ap_shared a = (LLM_API_KEY (ap_settings a) \<noteq> []) \<and>
     (case so_summarizer (ap_summarizer a) of
        None \<Rightarrow> cp_open p = []
      | Some m \<Rightarrow> cp_open p = [lm_client m] \<and> lm_owns_client m \<and> so_owns (ap_summarizer a) \<and> ap_shared a)"

lemma clients_ok_use:
  assumes "clients_ok a p" and "use_summarizer u (a, p) = (b, q)"
  shows "clients_ok b q \<and> ap_settings b = ap_settings a \<and> ap_worker b = ap_worker a \<and> ap_shared b = ap_shared a"
  using assms
  by (auto simp: use_summarizer_def clients_ok_def get_summarizer_def from_settings_def new_summarizer_def
      open_client_def service_view_def Let_def
      split: if_splits option.splits prod.splits sum.splits summarizer_use.splits)

lemma clients_ok_uses:
  assumes "clients_ok a p" and "fold use_summarizer us (a, p) = (b, q)"
  shows "clients_ok b q \<and> ap_settings b = ap_settings a \<and> ap_worker b = ap_worker a \<and> ap_shared b = ap_shared a"
  using assms
proof (induction us arbitrary: a p)
  case (Cons u us)
  obtain c r where c: "use_summarizer u (a, p) = (c, r)" by fastforce
  from clients_ok_use [OF Cons.prems(1) c] Cons.IH [of c r] Cons.prems(2) c show ?case by simp
qed simp

lemma clients_ok_start:
  assumes "lifespan_start alnum s io w = (Inr a, w')" and "cp_open (wd_clients w) = []"
  shows "clients_ok a (wd_clients w') \<and> ap_settings a = s \<and>
    has_summarizer (exec_of (tw_cfg (ap_worker a))) = (LLM_API_KEY s \<noteq> []) \<and>
    allow_mock_llm (exec_of (tw_cfg (ap_worker a))) = WORKER_ALLOW_MOCK_LLM s"
  by (rule start_ok [OF assms(1)]) (use assms(2) new_task_worker_cases in \<open>auto simp: clients_ok_def new_service_def\<close>)

text \<open>
  The pipeline and the stream endpoint of one process agree on where summaries come from: with
  an API key both ask the LLM, without one and with the mock allowed both give the same
  placeholder, otherwise both refuse: the endpoint with 503, the pipeline by failing the task.
  That does not change while the process serves, whoever has used the summarizer before.
\<close>

lemma wiring_agrees:
  assumes "lifespan_start alnum s io w = (Inr a, w')" and "cp_open (wd_clients w) = []"
    and "fold use_summarizer us (a, wd_clients w') = (b, p)"
    and "recording_get_by_id db rid = Some r" and "get_by_recording (env 0 db) (rec_id r) = Some t"
    and "or_none (summary t) = None" and "strip (or_str (transcript t) []) \<noteq> []"
  shows "let view = service_view s (ap_summarizer b); cfg = exec_of (tw_cfg (ap_worker b));
      ctx = \<lparr>sc_task_id = task_id t, sc_transcript = strip (or_str (transcript t) []), sc_existing = None\<rparr>
    in if LLM_API_KEY s \<noteq> []
       then fst (prepare_summary_stream env (Some view) rid db) = Inr ctx \<and>
         stream_summary (Some view) llm ctx = llm (sc_transcript ctx) \<and> summarize_result cfg x = x
       else if WORKER_ALLOW_MOCK_LLM s
       then fst (prepare_summary_stream env (Some view) rid db) = Inr ctx \<and>
         (\<exists>evs j. stream_summary (Some view) llm ctx = (evs @ [ev_done j], None) \<and> summarize_result cfg x = Inr j)
       else fst (prepare_summary_stream env (Some view) rid db) = Inl (ServiceUnavailableError msg_no_llm_stream) \<and>
         summarize_result cfg x = Inl (RuntimeError msg_no_llm)"
proof -
  have b: "clients_ok b p" "ap_settings b = s" "ap_worker b = ap_worker a"
    using clients_ok_uses [OF _ assms(3)] clients_ok_start [OF assms(1,2)] by auto
  then have v: "service_view s (ap_summarizer b) = \<lparr>has_llm = (LLM_API_KEY s \<noteq> []), allow_mock = WORKER_ALLOW_MOCK_LLM s\<rparr>"
    by (auto simp: service_view_def clients_ok_def split: option.splits)
  have prep: "fst (prepare_summary_stream env (Some view) rid db) =
      (if can_stream view then Inr \<lparr>sc_task_id = task_id t, sc_transcript = strip (or_str (transcript t) []), sc_existing = None\<rparr>
       else Inl (ServiceUnavailableError msg_no_llm_stream))" for view
    using assms(4-7) by (simp add: prepare_summary_stream_def repo_get_by_id_def require_task_def Let_def)
  have cfg: "has_summarizer (exec_of (tw_cfg (ap_worker b))) = (LLM_API_KEY s \<noteq> [])"
    "allow_mock_llm (exec_of (tw_cfg (ap_worker b))) = WORKER_ALLOW_MOCK_LLM s"
    using clients_ok_start [OF assms(1,2)] by (simp_all add: b(3))
  show ?thesis
    by (simp add: Let_def v prep can_stream_def summarize_result_def cfg stream_summary_def service_stream_def
        mock_summarize_stream_def mock_payload_def mock_summary_def)
qed

definition keyed_settings :: settings where
  "keyed_settings = (default_settings [])\<lparr>LLM_API_KEY := asc ''key''\<rparr>"

lemma keyed_settings [simp]: "keyed_settings\<lparr>WORKER_ID := None\<rparr> = keyed_settings"
    "LLM_API_KEY keyed_settings = asc ''key''" "LLM_MAX_RETRIES keyed_settings = 3"
  by (simp_all add: keyed_settings_def default_settings_def)

lemma wiring_agrees_witness:
  "\<exists>a w b p. lifespan_start (\<lambda>c. 48 \<le> c \<and> c \<le> 57) keyed_settings sample_io sample_wd = (Inr a, w) \<and>
     fold use_summarizer [StreamSummary] (a, wd_clients w) = (b, p) \<and>
     stream_summary (Some (service_view keyed_settings (ap_summarizer b))) (\<lambda>tr. ([ev_delta tr], None))
       \<lparr>sc_task_id = 11, sc_transcript = asc ''hi'', sc_existing = None\<rparr> = ([ev_delta (asc ''hi'')], None)"
proof -
  let ?t = "(sample_task 11 1 20)\<lparr>transcript := Some (asc ''hi'')\<rparr>"
  let ?db = "\<lparr>recordings = [sample_recording 1 (asc ''a'') 20], tasks = [?t]\<rparr>"
  obtain a w where st: "lifespan_start (\<lambda>c. 48 \<le> c \<and> c \<le> 57) keyed_settings sample_io sample_wd = (Inr a, w)"
    by (rule sample_start [of keyed_settings, unfolded keyed_settings])
  obtain b p where f: "fold use_summarizer [StreamSummary] (a, wd_clients w) = (b, p)"
    by fastforce
  have o: "cp_open (wd_clients sample_wd) = []" by (simp add: sample_wd_def)
  have d: "recording_get_by_id ?db 1 = Some (sample_recording 1 (asc ''a'') 20)"
    "get_by_recording (quiet 0 ?db) (rec_id (sample_recording 1 (asc ''a'') 20)) = Some ?t"
    "or_none (summary ?t) = None" "strip (or_str (transcript ?t) []) = asc ''hi''" "task_id ?t = 11"
    by (simp_all add: recording_get_by_id_def get_by_recording_def sql_where_def sample_defs or_none_def or_str_def
        strip_def strip_by_def lstrip_by_def rstrip_by_def is_space_def asc_def)
  show ?thesis
    using wiring_agrees [where env = quiet and llm = "\<lambda>tr. ([ev_delta tr], None)" and x = "Inr JNull",
        OF st o f d(1,2,3)] st f
    unfolding d(4,5) by (auto simp: Let_def)
qed

section \<open>Stopping\<close>

text \<open>C38.
  However the summarizer was used, at most one HTTP client is open while the process serves.  A
  shutdown returns exactly if the worker stops and the client, if one is open, can be closed;
  then no client is open and the engine is disposed of.  Otherwise the client stays open and the
  engine is not disposed of.
\<close>

theorem shutdown_closes:
  assumes "lifespan_start alnum s io w = (Inr a, w')" and "cp_open (wd_clients w) = []"
    and "fold use_summarizer us (a, wd_clients w') = (b, p)"
    and "lifespan_stop ck x close_fails (b\<lparr>ap_worker := tw\<rparr>, v\<lparr>wd_clients := p\<rparr>) = (res, c, v')"
  shows "length (cp_open p) \<le> 1 \<and>
    (if fst (worker_stop (tw_cfg tw) ck x (wd_db v, tw_state tw)) = Inr () \<and> (cp_open p = [] \<or> close_fails = None)
     then res = Inr () \<and> cp_open (wd_clients v') = [] \<and> so_summarizer (ap_summarizer c) = None \<and> \<not> wd_engine v'
     else (\<exists>e. res = Inl e) \<and> cp_open (wd_clients v') = cp_open p \<and> wd_engine v' = wd_engine v)"
proof -
  have ok: "clients_ok b p"
    using clients_ok_uses [OF _ assms(3)] clients_ok_start [OF assms(1,2)] by auto
  obtain r db ws where st: "worker_stop (tw_cfg tw) ck x (wd_db v, tw_state tw) = (r, db, ws)"
    by (metis prod_cases3)
  show ?thesis
    using assms(4) ok
    by (auto simp: lifespan_stop_def task_worker_stop_def st service_aclose_def summarizer_aclose_def
        close_client_def clients_ok_def Let_def split: sum.splits option.splits if_splits)
qed

theorem shutdown_closes_witness:
  "\<exists>a w b p c v. lifespan_start (\<lambda>c. 48 \<le> c \<and> c \<le> 57) keyed_settings sample_io sample_wd = (Inr a, w) \<and>
     fold use_summarizer [StreamSummary, WorkerSummary] (a, wd_clients w) = (b, p) \<and> cp_open p = [0] \<and>
     lifespan_stop ck0 Commit None (b\<lparr>ap_worker := ap_worker b\<rparr>, w\<lparr>wd_clients := p\<rparr>) = (Inr (), c, v) \<and>
     cp_open (wd_clients v) = []"
proof -
  obtain a w where st: "lifespan_start (\<lambda>c. 48 \<le> c \<and> c \<le> 57) keyed_settings sample_io sample_wd = (Inr a, w)"
    "ap_settings a = keyed_settings" "ap_summarizer a = new_service None" "ap_shared a"
    "wd_clients w = \<lparr>cp_next = 0, cp_open = []\<rparr>"
    by (rule sample_start [of keyed_settings, unfolded keyed_settings]) simp
  obtain b p where f: "fold use_summarizer [StreamSummary, WorkerSummary] (a, wd_clients w) = (b, p)"
    by fastforce
  have p: "cp_open p = [0]" "ap_worker b = ap_worker a"
    using f by (auto simp: use_summarizer_def st service_view_def get_summarizer_def new_service_def
        from_settings_def new_summarizer_def open_client_def Let_def)
  obtain res c v where stop:
    "lifespan_stop ck0 Commit None (b\<lparr>ap_worker := ap_worker b\<rparr>, w\<lparr>wd_clients := p\<rparr>) = (res, c, v)"
    by (metis prod_cases3)
  have "running (tw_state (ap_worker b)) = []"
    by (rule start_ok [OF st(1)]) (use worker_start_cases p(2) in \<open>fastforce simp: new_worker_def\<close>)
  then have "fst (worker_stop (tw_cfg (ap_worker b)) ck0 Commit (wd_db w, tw_state (ap_worker b))) = Inr ()"
    by (simp add: worker_stop_def pending_of_def worker_stop_loop_def)
  with shutdown_closes [OF st(1) _ f stop] have "res = Inr ()" "cp_open (wd_clients v) = []"
    by (simp_all add: sample_wd_def)
  then show ?thesis using st(1) f p(1) stop by blast
qed

end
