(* ===== verification/Test_Data.thy ===== *)
theory Test_Data
  imports Settings File_Properties
begin

text \<open>
  \<open>src/scripts/generate_testdata.py\<close>: the sample files for manual tests of the upload, and that
  the service judges each of them as the script means it.  \<open>tone i k\<close> is
  \<open>int(16000 * math.sin(2 * math.pi * freq_hz * k / rate))\<close> in the i-th tone; writing to the
  directories of the script is taken to succeed.
\<close>

section \<open>WAV files\<close>

definition MAX_FIXTURE_MB :: nat where
  "MAX_FIXTURE_MB = 50"

definition OVERSIZE_BYTES :: nat where
  "OVERSIZE_BYTES = MAX_FIXTURE_MB * 1024 * 1024 + 1"

text \<open>Little-endian numbers; \<open>struct.pack("<h", x)\<close> raises for what is not 16 bits wide.\<close>

fun le_bytes :: "nat \<Rightarrow> nat \<Rightarrow> bytes" where
  "le_bytes 0 x = []"
| "le_bytes (Suc n) x = x mod 256 # le_bytes n (x div 256)"

definition pack_h :: "int \<Rightarrow> exn + bytes" where
  "pack_h x =
     (if - 32768 \<le> x \<and> x \<le> 32767 then Inr (le_bytes 2 (nat (x mod 65536)))
      else Inl (OtherError (asc ''short format requires (-32768) <= number <= 32767'')))"

text \<open>\<open>for i in range(n): frames.extend(struct.pack(...))\<close>.\<close>

fun pack_frames :: "(nat \<Rightarrow> int) \<Rightarrow> nat \<Rightarrow> exn + bytes" where
  "pack_frames f 0 = Inr []"
| "pack_frames f (Suc n) =
     (case pack_frames f n of
        Inl e \<Rightarrow> Inl e
      | Inr bs \<Rightarrow> (case pack_h (f n) of Inl e \<Rightarrow> Inl e | Inr b \<Rightarrow> Inr (bs @ b)))"

text \<open>What the module \<open>wave\<close> writes: the header, for PCM, and the frames.\<close>

definition wave_file :: "nat \<Rightarrow> nat \<Rightarrow> nat \<Rightarrow> bytes \<Rightarrow> bytes" where
  "wave_file channels width rate frames =
     asc ''RIFF'' @ le_bytes 4 (36 + length frames) @ asc ''WAVEfmt '' @ le_bytes 4 16 @ le_bytes 2 1 @
     le_bytes 2 channels @ le_bytes 4 rate @ le_bytes 4 (channels * rate * width) @
     le_bytes 2 (channels * width) @ le_bytes 2 (width * 8) @ asc ''data'' @ le_bytes 4 (length frames) @ frames"

text \<open>
  \<open>int(8000 * (0.12 + i * 0.02))\<close> for i from 1 to 5, in binary floating point: the first sum is
  a little less than 0.14.
\<close>

definition tone_frames :: "nat \<Rightarrow> nat" where
  "tone_frames i = (if i = 1 then 1119 else 960 + 160 * i)"

definition tone_wav :: "(nat \<Rightarrow> nat \<Rightarrow> int) \<Rightarrow> nat \<Rightarrow> exn + bytes" where
  "tone_wav tone i =
     (case pack_frames (tone i) (tone_frames i) of Inl e \<Rightarrow> Inl e | Inr fr \<Rightarrow> Inr (wave_file 1 2 8000 fr))"

section \<open>The files\<close>

definition two_digits :: "nat \<Rightarrow> pstr" where
  "two_digits i = [48 + i div 10, 48 + i mod 10]"

definition valid_name :: "nat \<Rightarrow> string \<Rightarrow> pstr" where
  "valid_name i ext = asc ''valid_'' @ two_digits i @ asc ext"

definition payload :: "string \<Rightarrow> nat \<Rightarrow> bytes" where
  "payload prefix i = asc prefix @ asc ''-'' @ two_digits i @ asc ''-unique-payload'' @ [10]"

text \<open>The names with their contents, in the order they are written; a tone may raise.\<close>

fun tone_files :: "(nat \<Rightarrow> nat \<Rightarrow> int) \<Rightarrow> nat list \<Rightarrow> exn + (pstr \<times> bytes) list" where
  "tone_files tone [] = Inr []"
| "tone_files tone (i # is) =
     (case tone_wav tone i of
        Inl e \<Rightarrow> Inl e
      | Inr w \<Rightarrow> (case tone_files tone is of Inl e \<Rightarrow> Inl e | Inr fs \<Rightarrow> Inr ((valid_name i ''.wav'', w) # fs)))"

definition mock_files :: "(pstr \<times> bytes) list" where
  "mock_files =
     map (\<lambda>i. (valid_name i ''.mp3'', payload ''mock-mp3'' i)) [6..<11] @
     map (\<lambda>i. (valid_name i ''.m4a'', payload ''mock-m4a'' i)) [11..<16] @
     map (\<lambda>i. (valid_name i ''.aac'', payload ''mock-aac'' i)) [16..<21]"

definition generate_valid :: "(nat \<Rightarrow> nat \<Rightarrow> int) \<Rightarrow> exn + (pstr \<times> bytes) list" where
  "generate_valid tone =
     (case tone_files tone [1..<6] of Inl e \<Rightarrow> Inl e | Inr fs \<Rightarrow> Inr (fs @ mock_files))"

definition bad_files :: "(pstr \<times> bytes) list" where
  "bad_files =
     [(asc ''bad.txt'', asc ''not-an-audio-file'' @ [10]), (asc ''bad.flac'', asc ''fake-flac'' @ [10]),
      (asc ''bad.ogg'', asc ''fake-ogg'' @ [10]), (asc ''bad.mp4'', asc ''fake-mp4'' @ [10]),
      (asc ''bad.doc'', asc ''fake-doc'' @ [10]), (asc ''no_ext'', asc ''no-extension-payload'' @ [10]),
      (asc ''notes.md'', asc ''# not audio'' @ [10]), (asc ''archive.zip'', asc ''PK'' @ [3, 4] @ asc ''fake'' @ [10])]"

text \<open>The loop that fills the oversized file in steps of a mebibyte, then the rest.\<close>

function fill_zeros :: "nat \<Rightarrow> nat \<Rightarrow> nat \<Rightarrow> bytes" where
  "fill_zeros step remaining written =
     (if 0 < step \<and> written + step \<le> remaining
      then replicate step 0 @ fill_zeros step remaining (written + step)
      else if written < remaining then replicate (remaining - written) 0 else [])"
  by pat_completeness auto
termination
  by (relation "measure (\<lambda>(step, remaining, written). remaining - written)") auto

declare fill_zeros.simps [simp del]

definition too_large_file :: bytes where
  "too_large_file =
     (let header = asc ''RIFF....WAVEfmt '' in header @ fill_zeros (1024 * 1024) (OVERSIZE_BYTES - length header) 0)"

definition generate_invalid :: "bool \<Rightarrow> (pstr \<times> bytes) list" where
  "generate_invalid oversize =
     [(asc ''empty.wav'', []), (asc ''empty.mp3'', [])] @ bad_files @
     (if oversize then [(asc ''too_large.wav'', too_large_file)] else [])"

text \<open>
  \<open>main\<close>: both kinds are written, then reported with their sizes, the oversized one apart; a tone
  that raises ends the script before it prints.
\<close>

definition file_line :: "string \<Rightarrow> pstr \<times> bytes \<Rightarrow> pstr" where
  "file_line dir f = asc dir @ fst f @ asc ''  ('' @ nat_str (length (snd f)) @ asc '' bytes)''"

definition main_output :: "(nat \<Rightarrow> nat \<Rightarrow> int) \<Rightarrow> bool \<Rightarrow> exn + pstr list" where
  "main_output tone oversize =
     (case generate_valid tone of
        Inl e \<Rightarrow> Inl e
      | Inr valid \<Rightarrow>
          (let invalid = generate_invalid oversize;
               fixed = filter (\<lambda>f. fst f \<noteq> asc ''too_large.wav'') invalid
           in Inr ((asc ''valid:   '' @ nat_str (length valid) @ asc '' files under testdata/valid'') #
                map (file_line ''  testdata/valid/'') valid @
                (asc ''invalid: '' @ nat_str (length fixed) @ asc '' files under testdata/invalid'') #
                map (file_line ''  testdata/invalid/'') fixed @
                (if oversize then [file_line ''oversize: testdata/invalid/'' (asc ''too_large.wav'', too_large_file)]
                 else []))))"

section \<open>Facts\<close>

lemma length_le_bytes [simp]: "length (le_bytes n x) = n"
  by (induction n arbitrary: x) auto

lemma fill_zeros: "0 < step \<Longrightarrow> written \<le> remaining \<Longrightarrow> fill_zeros step remaining written = replicate (remaining - written) 0"
proof (induction step remaining written rule: fill_zeros.induct)
  case (1 step remaining written)
  then show ?case
    by (subst fill_zeros.simps) (auto simp: replicate_add [symmetric])
qed

lemma length_too_large: "length too_large_file = OVERSIZE_BYTES"
  by (simp add: too_large_file_def Let_def fill_zeros OVERSIZE_BYTES_def MAX_FIXTURE_MB_def)

lemma length_tone_files: "tone_files tone is = Inr fs \<Longrightarrow> length fs = length is"
  by (induction "is" arbitrary: fs) (auto split: sum.splits)

text \<open>Twenty valid files, ten invalid ones, and a line for each.\<close>

lemma length_main_output:
  assumes "main_output tone oversize = Inr ls"
  shows "length ls = 32 + (if oversize then 1 else 0)"
proof -
  obtain valid where v: "generate_valid tone = Inr valid"
    using assms by (auto simp: main_output_def split: sum.splits)
  have "length valid = 20"
    using v length_tone_files [of tone "[1..<6]"]
    by (auto simp: generate_valid_def mock_files_def split: sum.splits)
  moreover have "filter (\<lambda>f. fst f \<noteq> asc ''too_large.wav'') (generate_invalid oversize) =
      [(asc ''empty.wav'', []), (asc ''empty.mp3'', [])] @ bad_files"
    by (simp add: generate_invalid_def bad_files_def asc_inj)
  moreover have "length bad_files = 8" by (simp add: bad_files_def)
  ultimately show ?thesis
    using assms v by (auto simp: main_output_def Let_def)
qed

lemma pack_frames_ok:
  assumes "\<forall>k. \<bar>f k\<bar> \<le> 16000"
  shows "\<exists>bs. pack_frames f n = Inr bs \<and> length bs = 2 * n"
proof (induction n)
  case (Suc n)
  have "\<bar>f n\<bar> \<le> 16000" using assms by blast
  then have "- 32768 \<le> f n" "f n \<le> 32767" by linarith+
  then have "pack_h (f n) = Inr (le_bytes 2 (nat (f n mod 65536)))" by (simp add: pack_h_def)
  with Suc show ?case by auto
qed simp

lemma tone_wav_ok:
  assumes "\<forall>i k. \<bar>tone i k\<bar> \<le> 16000"
  shows "\<exists>w. tone_wav tone i = Inr w \<and> length w = 44 + 2 * tone_frames i"
  using pack_frames_ok [of "tone i" "tone_frames i"] assms
  by (auto simp: tone_wav_def wave_file_def)

lemma tone_files_ok:
  assumes "\<forall>i k. \<bar>tone i k\<bar> \<le> 16000"
  shows "\<exists>fs. tone_files tone is = Inr fs \<and> map fst fs = map (\<lambda>i. valid_name i ''.wav'') is \<and>
    map (length \<circ> snd) fs = map (\<lambda>i. 44 + 2 * tone_frames i) is"
proof (induction "is")
  case (Cons i "is")
  then show ?case using tone_wav_ok [OF assms, of i] by auto
qed simp

section \<open>The service's judgement\<close>

text \<open>The checks an upload makes before it asks the database, for a file that arrives in chunks.\<close>

definition upload_check :: "upload_cfg \<Rightarrow> uuid \<Rightarrow> pstr \<Rightarrow> bytes list \<Rightarrow> staged_upload tx_result" where
  "upload_check cfg u name cs =
     (case validate_extension (up_uni cfg) (up_pylist cfg) name (up_allowed cfg) of
        Inl e \<Rightarrow> Raised e
      | Inr ext \<Rightarrow> fst (stage_upload (up_sha256 cfg) (good_io cs) u ext (up_dir cfg)
          (max_file_size_bytes (up_max_mb cfg)) (up_max_mb cfg) (\<lambda>_. None)))"

lemma upload_check_staged:
  assumes "\<forall>c \<in> set cs. c \<noteq> []" and "0 \<le> up_max_mb cfg"
    and "validate_extension (up_uni cfg) (up_pylist cfg) name (up_allowed cfg) = Inr ext"
  shows "if int (length (concat cs)) > max_file_size_bytes (up_max_mb cfg) \<or> concat cs = []
    then \<exists>m. upload_check cfg u name cs = Raised (InvalidUploadError m)
    else \<exists>st. upload_check cfg u name cs = Returned st \<and> staged_sha st = up_sha256 cfg (concat cs) \<and>
      staged_size st = int (length (concat cs))"
proof -
  have "0 \<le> max_file_size_bytes (up_max_mb cfg)" using assms(2) by (simp add: max_file_size_bytes_def)
  from staging_cases_good [OF assms(1) this, of "\<lambda>_. None"] show ?thesis
    by (auto simp: upload_check_def assms(3))
qed

abbreviation default_upload :: "(pstr \<Rightarrow> pstr) \<Rightarrow> (pstr list \<Rightarrow> pstr) \<Rightarrow> (bytes \<Rightarrow> pstr) \<Rightarrow> pstr \<Rightarrow> upload_cfg" where
  "default_upload uni pylist sha256 root \<equiv> upload_settings uni pylist sha256 (default_settings root)"

lemma default_upload_parts:
  "up_uni (default_upload uni pylist sha256 root) = uni"
  "up_sha256 (default_upload uni pylist sha256 root) = sha256"
  "up_pylist (default_upload uni pylist sha256 root) = pylist"
  by (simp_all add: upload_settings_def)

lemmas judge_defs =
  validate_extension_def ext_of_def path_suffix_def path_name_def py_lower_def ascii_lower_def asc_def Let_def

abbreviation audio_exts :: "pstr list" where
  "audio_exts \<equiv> [asc ''.wav'', asc ''.mp3'', asc ''.m4a'', asc ''.aac'']"

lemma valid_names_accepted:
  "list_all (\<lambda>i. validate_extension uni pylist (valid_name i ''.wav'') audio_exts = Inr (asc ''.wav'')) [1..<6]"
  "list_all (\<lambda>i. validate_extension uni pylist (valid_name i ''.mp3'') audio_exts = Inr (asc ''.mp3'')) [6..<11]"
  "list_all (\<lambda>i. validate_extension uni pylist (valid_name i ''.m4a'') audio_exts = Inr (asc ''.m4a'')) [11..<16]"
  "list_all (\<lambda>i. validate_extension uni pylist (valid_name i ''.aac'') audio_exts = Inr (asc ''.aac'')) [16..<21]"
  by (simp_all add: upt_rec judge_defs valid_name_def two_digits_def)

lemma bad_names_refused:
  "list_all (\<lambda>(n, d). \<exists>m. validate_extension uni pylist n audio_exts = Inl (InvalidUploadError m)) bad_files"
  by (simp add: bad_files_def judge_defs)

lemma sized_names_accepted:
  "validate_extension uni pylist (asc ''empty.wav'') audio_exts = Inr (asc ''.wav'')"
  "validate_extension uni pylist (asc ''empty.mp3'') audio_exts = Inr (asc ''.mp3'')"
  "validate_extension uni pylist (asc ''too_large.wav'') audio_exts = Inr (asc ''.wav'')"
  by (simp_all add: judge_defs)

lemma mock_files_facts:
  "length mock_files = 15" "distinct (map snd mock_files)"
  "list_all (\<lambda>(n, d). d \<noteq> [] \<and> length d = 27) mock_files"
  by (simp_all add: mock_files_def upt_rec payload_def two_digits_def asc_def)

lemma distinct_by_length:
  assumes "distinct (map f xs)" and "map (length \<circ> snd) fs = map f xs"
  shows "distinct (map snd fs)"
  using assms distinct_map [of length "map snd fs"] by simp

lemma valid_files_facts:
  assumes "\<forall>i k. \<bar>tone i k\<bar> \<le> 16000" and "generate_valid tone = Inr fs"
  shows "length fs = 20 \<and> distinct (map snd fs) \<and>
    list_all (\<lambda>(n, d). d \<noteq> [] \<and> length d < 10000 \<and>
      (\<exists>ext. validate_extension uni pylist n audio_exts = Inr ext)) fs"
proof -
  obtain ts where ts: "tone_files tone [1..<6] = Inr ts" "map fst ts = map (\<lambda>i. valid_name i ''.wav'') [1..<6]"
    "map (length \<circ> snd) ts = map (\<lambda>i. 44 + 2 * tone_frames i) [1..<6]"
    using tone_files_ok [OF assms(1), of "[1..<6]"] by blast
  have fs: "fs = ts @ mock_files" using assms(2) ts(1) by (simp add: generate_valid_def)
  have tn: "distinct (map (\<lambda>i. 44 + 2 * tone_frames i) [1..<6])"
    "list_all (\<lambda>i. 27 < 44 + 2 * tone_frames i \<and> 44 + 2 * tone_frames i < 10000) [1..<6]"
    by (simp_all add: upt_rec tone_frames_def)
  have len: "\<exists>i \<in> set [1..<6]. length (snd p) = 44 + 2 * tone_frames i" if "p \<in> set ts" for p
    using that ts(3) by (metis (no_types, lifting) comp_apply image_iff list.set_map)
  have nm: "\<exists>i \<in> set [1..<6]. fst p = valid_name i ''.wav''" if "p \<in> set ts" for p
    using that ts(2) by (metis (no_types, lifting) image_iff list.set_map)
  have sz: "27 < length (snd p) \<and> length (snd p) < 10000" if "p \<in> set ts" for p
    using len [OF that] tn(2) by (auto simp: list_all_iff)
  have "length ts = 5" using arg_cong [OF ts(2), of length] by simp
  moreover have "distinct (map snd ts)" by (rule distinct_by_length [OF tn(1) ts(3)])
  moreover have "set (map snd ts) \<inter> set (map snd mock_files) = {}"
    using sz mock_files_facts(3) by (fastforce simp: list_all_iff)
  moreover have "list_all (\<lambda>(n, d). d \<noteq> [] \<and> length d < 10000 \<and>
      (\<exists>ext. validate_extension uni pylist n audio_exts = Inr ext)) ts"
    using sz nm valid_names_accepted(1) [of uni pylist] by (fastforce simp: list_all_iff)
  moreover have "list_all (\<lambda>(n, d). \<exists>ext. validate_extension uni pylist n audio_exts = Inr ext) mock_files"
    using valid_names_accepted(2-4) [of uni pylist] by (auto simp: mock_files_def list_all_iff)
  ultimately show ?thesis
    using mock_files_facts by (auto simp: fs list_all_iff)
qed

text \<open>
  The service judges every sample as the script means it, with the default settings and however
  a file is cut into chunks: the twenty valid files, of pairwise different contents, are staged
  with their hash and size; each of the invalid ones, the oversized one too, is refused as an
  invalid upload.
\<close>

lemma fixtures_judged:
  assumes "\<forall>i k. \<bar>tone i k\<bar> \<le> 16000" and "generate_valid tone = Inr fs"
    and "(name, concat cs) \<in> set (fs @ generate_invalid oversize)" and "\<forall>c \<in> set cs. c \<noteq> []"
  shows "length fs = 20 \<and> distinct (map snd fs) \<and>
    (if (name, concat cs) \<in> set fs
     then \<exists>st. upload_check (default_upload uni pylist sha256 root) u name cs = Returned st \<and>
       staged_sha st = sha256 (concat cs) \<and> staged_size st = int (length (concat cs))
     else \<exists>m. upload_check (default_upload uni pylist sha256 root) u name cs = Raised (InvalidUploadError m))"
proof -
  let ?cfg = "default_upload uni pylist sha256 root"
  note parts = default_upload_parts [of uni pylist sha256 root] default_upload_settings [of uni pylist sha256 root]
  note facts = valid_files_facts [OF assms(1,2), of uni pylist]
  note staged = upload_check_staged [OF assms(4), of ?cfg name, unfolded parts, simplified]
  show ?thesis
  proof (cases "(name, concat cs) \<in> set fs")
    case True
    then obtain ext where "validate_extension uni pylist name audio_exts = Inr ext" "concat cs \<noteq> []"
      "length (concat cs) < 10000"
      using facts by (auto simp: list_all_iff)
    then show ?thesis
      using facts staged True by (simp add: max_file_size_bytes_def)
  next
    case False
    then have "(name, concat cs) \<in> set (generate_invalid oversize)" using assms(3) by simp
    then consider "(name, concat cs) \<in> set bad_files"
      | "concat cs = []" "\<exists>ext. validate_extension uni pylist name audio_exts = Inr ext"
      | "concat cs = too_large_file" "\<exists>ext. validate_extension uni pylist name audio_exts = Inr ext"
      using sized_names_accepted [of uni pylist] by (auto simp: generate_invalid_def split: if_splits)
    then have "\<exists>m. upload_check ?cfg u name cs = Raised (InvalidUploadError m)"
    proof cases
      case 1
      then show ?thesis
        using bad_names_refused [of uni pylist] by (auto simp: list_all_iff upload_check_def parts)
    next
      case 3
      then show ?thesis
        using staged by (auto simp: length_too_large OVERSIZE_BYTES_def MAX_FIXTURE_MB_def max_file_size_bytes_def)
    qed (use staged in auto)
    then show ?thesis using facts False by simp
  qed
qed

lemma fixtures_judged_witness:
  "\<exists>st. upload_check (default_upload (\<lambda>t. t) concat (\<lambda>_. []) []) 5 (valid_name 6 ''.mp3'')
     [payload ''mock-mp3'' 6] = Returned st \<and> staged_size st = 27"
proof -
  obtain ts where "tone_files (\<lambda>_ _. 0) [1..<6] = Inr ts"
    using tone_files_ok [of "\<lambda>_ _. 0" "[1..<6]"] by auto
  then have g: "generate_valid (\<lambda>_ _. 0) = Inr (ts @ mock_files)" by (simp add: generate_valid_def)
  have m: "(valid_name 6 ''.mp3'', concat [payload ''mock-mp3'' 6]) \<in> set (ts @ mock_files)"
    by (simp add: mock_files_def)
  have p: "payload ''mock-mp3'' 6 \<noteq> []" "length (payload ''mock-mp3'' 6) = 27"
    by (simp_all add: payload_def two_digits_def)
  from m have "(valid_name 6 ''.mp3'', concat [payload ''mock-mp3'' 6]) \<in> set ((ts @ mock_files) @ generate_invalid False)"
    by (metis Un_iff set_append)
  from fixtures_judged [OF _ g this, of "\<lambda>t. t" concat "\<lambda>_. []" "[]" 5] p
  have "\<exists>st. upload_check (default_upload (\<lambda>t. t) concat (\<lambda>_. []) []) 5 (valid_name 6 ''.mp3'')
     [payload ''mock-mp3'' 6] = Returned st \<and> staged_size st = int (length (concat [payload ''mock-mp3'' 6]))"
    using m by auto
  then show ?thesis by (simp add: p)
qed

end
