(* ===== verification/Progress.thy ===== *)
theory Progress
  imports System_Properties
begin

text \<open>
  No reachable state of the system is stuck: whatever has happened, crashes and abandoned leases
  included, one worker that is (re)started can bring every task that has not failed to
  \<open>DONE\<close>.  The proof is by rounds: a restart late enough to find every lease expired, one
  claim, and the successful processing of the oldest task that was claimed.
\<close>

section \<open>Runs of a worker\<close>

abbreviation worker_run :: "disp_cfg \<Rightarrow> database \<times> worker_state \<Rightarrow> database \<times> worker_state \<Rightarrow> bool" where
  "worker_run cfg \<equiv> (worker_step cfg)\<^sup>*\<^sup>*"

abbreviation sys_run :: "(nat \<Rightarrow> disp_cfg) \<Rightarrow> nat \<Rightarrow> system \<Rightarrow> system \<Rightarrow> bool" where
  "sys_run cf i \<equiv> (sys_step cf (Worker i))\<^sup>*\<^sup>*"

lemma worker_run_system:
  assumes "worker_run (cf i) (sys_db s, sys_workers s i) (db', ws')"
  shows "sys_run cf i s \<lparr>sys_db = db', sys_workers = (sys_workers s)(i := ws')\<rparr>"
proof -
  have "sys_run cf i s \<lparr>sys_db = fst p, sys_workers = (sys_workers s)(i := snd p)\<rparr>"
    if "worker_run (cf i) (sys_db s, sys_workers s i) p" for p
    using that
  proof (induction rule: rtranclp_induct)
    case (step p q)
    let ?s = "\<lparr>sys_db = fst p, sys_workers = (sys_workers s)(i := snd p)\<rparr>"
    have "worker_step (cf i) (sys_db ?s, sys_workers ?s i) (fst q, snd q)"
      using step.hyps(2) by simp
    from sys_step.worker [where cf = cf and s = ?s and i = i, OF this]
    have "sys_step cf (Worker i) ?s \<lparr>sys_db = fst q, sys_workers = (sys_workers s)(i := snd q)\<rparr>"
      by simp
    with step.IH show ?case by (rule rtranclp.rtrancl_into_rtrancl)
  next
    case base
    have "\<lparr>sys_db = sys_db s, sys_workers = sys_workers s\<rparr> = s" by simp
    then show ?case by (metis fst_conv fun_upd_triv rtranclp.rtrancl_refl snd_conv)
  qed
  from this [OF assms] show ?thesis by simp
qed

text \<open>The events of one coroutine, one after the other and nothing in between.\<close>

definition undisturbed :: "(clock \<times> (database \<Rightarrow> database) \<times> event) list \<Rightarrow> bool" where
  "undisturbed evs \<longleftrightarrow> (\<forall>e \<in> set evs. fst (snd e) = (\<lambda>db. db))"

lemma exec_run_worker_run:
  assumes "j < length (procs ws)" and "undisturbed evs"
  shows "\<exists>ws'. worker_run cfg (db, ws) (fst (exec_run (exec_of cfg) evs (db, procs ws ! j)), ws')"
  using assms
proof (induction evs arbitrary: db ws)
  case (Cons e evs)
  obtain ck env ev where e: "e = (ck, env, ev)" by (cases e)
  have env: "env = (\<lambda>db. db)" using Cons.prems(2) e by (simp add: undisturbed_def)
  obtain db1 x where x: "exec_step (exec_of cfg) ck ev (db, procs ws ! j) = (db1, x)" by fastforce
  obtain ws1 where p: "proc_step cfg ck j ev (db, ws) = (db1, ws1)" "procs ws1 = (procs ws)[j := x]"
    using Cons.prems(1) by (simp add: proc_step_def x)
  have one: "worker_step cfg (db, ws) (db1, ws1)"
    using worker_step.coroutine [of cfg "(db, ws)" ck j ev] by (simp add: p)
  have "procs ws1 ! j = x" "j < length (procs ws1)" "undisturbed evs"
    using Cons.prems by (simp_all add: p(2) undisturbed_def)
  with Cons.IH [of ws1 db1] obtain ws'
    where "worker_run cfg (db1, ws1) (fst (exec_run (exec_of cfg) evs (db1, x)), ws')" by auto
  with one have "worker_run cfg (db, ws) (fst (exec_run (exec_of cfg) evs (db1, x)), ws')"
    by (rule converse_rtranclp_into_rtranclp)
  then show ?case by (auto simp: e env x)
qed auto

text \<open>It changes no task but its own, and no recording.\<close>

lemma owner_effect_others:
  assumes "owner_effect cfg ck tid db db'"
  shows "recordings db' = recordings db" and "k \<noteq> tid \<Longrightarrow> get_by_id db' k = get_by_id db k"
proof -
  show "recordings db' = recordings db" using assms by (auto simp: owner_effect_def)
  show "get_by_id db' k = get_by_id db k" if "k \<noteq> tid"
    using that owner_effect_get [OF assms, of k] owner_effect_None [OF assms, of k]
    by (cases "get_by_id db k") auto
qed

lemma exec_run_others:
  assumes "undisturbed evs"
  shows "recordings (fst (exec_run cfg evs (db, e))) = recordings db \<and>
    (\<forall>k. k \<noteq> ex_task e \<longrightarrow> get_by_id (fst (exec_run cfg evs (db, e))) k = get_by_id db k)"
  using assms
proof (induction evs arbitrary: db e)
  case (Cons a evs)
  obtain ck env ev where a: "a = (ck, env, ev)" by (cases a)
  obtain db1 e1 where s: "exec_step cfg ck ev (db, e) = (db1, e1)" by fastforce
  have "owner_effect cfg ck (ex_task e) db db1" "ex_task e1 = ex_task e"
    using exec_step_effect [of cfg ck e db ev] exec_step_task [of cfg ck ev db e] by (simp_all add: s)
  moreover have "env = (\<lambda>db. db)" "undisturbed evs"
    using Cons.prems by (simp_all add: a undisturbed_def)
  ultimately show ?case
    using Cons.IH [of db1 e1] owner_effect_others [of cfg ck "ex_task e" db db1] by (simp add: a s)
qed simp

lemma undisturbed_good: "undisturbed (good_events cks (\<lambda>_ db. db) tr q)"
  unfolding undisturbed_def good_events_def
proof
  fix e assume "e \<in> set (zip cks (zip (map (\<lambda>_ db. db) [0::nat, 1, 2, 3, 4, 5, 6])
    [Tx Commit, Tx Commit, Tx Commit, AsrResult (Inr tr), Tx Commit, SummaryResult (Inr q), Tx Commit]))"
  then have "snd e \<in> set (zip (map (\<lambda>_ db. db) [0::nat, 1, 2, 3, 4, 5, 6])
    [Tx Commit, Tx Commit, Tx Commit, AsrResult (Inr tr), Tx Commit, SummaryResult (Inr q), Tx Commit])"
    by (metis prod.collapse set_zip_rightD)
  then show "fst (snd e) = (\<lambda>db. db)" by auto
qed

section \<open>Progress of a database\<close>

text \<open>
  \<open>E rid\<close> is the transcript and the summary a recording has coming.  A task that is finished or
  has failed stays as it is; another keeps its ids, and if it ends it ends with these.
\<close>

definition advanced :: "(uuid \<Rightarrow> pstr \<times> json) \<Rightarrow> task \<Rightarrow> task \<Rightarrow> bool" where
  "advanced E t u \<longleftrightarrow>
     (if status t \<in> set TERMINAL_STATUSES then u = t
      else recording_id u = recording_id t \<and>
           (status u \<in> set RECOVERABLE_STATUSES \<or>
            status u = DONE \<and> transcript u = Some (fst (E (recording_id t))) \<and>
            summary u = Some (snd (E (recording_id t)))))"

definition progress :: "(uuid \<Rightarrow> pstr \<times> json) \<Rightarrow> database \<Rightarrow> database \<Rightarrow> bool" where
  "progress E db db' \<longleftrightarrow> recordings db' = recordings db \<and>
     (\<forall>k. rel_option (advanced E) (get_by_id db k) (get_by_id db' k))"

definition unfinished :: "database \<Rightarrow> uuid set" where
  "unfinished db = {k. \<exists>t. get_by_id db k = Some t \<and> status t \<in> set RECOVERABLE_STATUSES}"

lemma advanced_refl: "advanced E t t"
  by (simp add: advanced_def terminal_iff)

lemma advanced_trans:
  assumes "advanced E t u" and "advanced E u v"
  shows "advanced E t v"
proof (cases "status t \<in> set TERMINAL_STATUSES")
  case True
  then show ?thesis using assms by (simp add: advanced_def)
next
  case False
  show ?thesis
  proof (cases "status u \<in> set RECOVERABLE_STATUSES")
    case True
    then show ?thesis using False assms by (simp add: advanced_def terminal_iff)
  next
    case f: False
    then have "v = u" using assms(2) by (simp add: advanced_def terminal_iff)
    then show ?thesis using assms(1) by simp
  qed
qed

lemma progress_trans:
  assumes "progress E a b" and "progress E b c"
  shows "progress E a c"
proof -
  have "rel_option (advanced E) (get_by_id a k) (get_by_id c k)" for k
  proof -
    have "rel_option (advanced E) (get_by_id a k) (get_by_id b k)"
      "rel_option (advanced E) (get_by_id b k) (get_by_id c k)"
      using assms by (simp_all add: progress_def)
    then show ?thesis
      by (auto simp: option_rel_Some1 option_rel_Some2 elim!: option.rel_cases
          intro: advanced_trans)
  qed
  with assms show ?thesis by (simp add: progress_def)
qed

text \<open>A statement that assigns to some of the rows.\<close>

lemma progress_map:
  assumes "recordings db' = recordings db"
    and "\<And>k. get_by_id db' k = map_option (\<lambda>t. if P k t then S k t else t) (get_by_id db k)"
    and "\<And>k t. get_by_id db k = Some t \<Longrightarrow> P k t \<Longrightarrow> advanced E t (S k t)"
  shows "progress E db db'"
  unfolding progress_def
proof (intro conjI allI)
  fix k
  show "rel_option (advanced E) (get_by_id db k) (get_by_id db' k)"
    using assms(3) [of k] by (cases "get_by_id db k") (simp_all add: assms(2) advanced_refl)
qed (rule assms(1))

lemma unfinished_get:
  "progress E db db' \<Longrightarrow> get_by_id db k = Some t \<Longrightarrow> \<exists>u. get_by_id db' k = Some u \<and> advanced E t u"
  unfolding progress_def by (metis option_rel_Some1)

lemma unfinished_progress: "progress E db db' \<Longrightarrow> unfinished db' \<subseteq> unfinished db"
proof
  fix k assume p: "progress E db db'" and "k \<in> unfinished db'"
  then obtain u where u: "get_by_id db' k = Some u" "status u \<in> set RECOVERABLE_STATUSES"
    by (auto simp: unfinished_def)
  have "rel_option (advanced E) (get_by_id db k) (get_by_id db' k)"
    using p by (simp add: progress_def)
  then obtain t where t: "get_by_id db k = Some t" "advanced E t u"
    using u(1) by (auto simp: option_rel_Some2)
  have "status t \<in> set RECOVERABLE_STATUSES"
    using t(2) u(2) unfolding advanced_def terminal_iff by (auto split: if_splits)
  with t(1) show "k \<in> unfinished db" by (simp add: unfinished_def)
qed

lemma finite_unfinished: "finite (unfinished db)"
proof -
  have "unfinished db \<subseteq> task_id ` set (tasks db)"
    using get_by_id_SomeD by (fastforce simp: unfinished_def)
  then show ?thesis by (rule finite_subset) simp
qed

text \<open>A statement after which a task that was not finished is.\<close>

lemma unfinished_psubset:
  assumes "progress E db db'" and "k \<in> unfinished db"
    and "get_by_id db' k = Some u" and "status u = DONE"
  shows "card (unfinished db') < card (unfinished db)"
proof (rule psubset_card_mono [OF finite_unfinished])
  have "k \<notin> unfinished db'" using assms(3,4) by (simp add: unfinished_def)
  with unfinished_progress [OF assms(1)] assms(2) show "unfinished db' \<subset> unfinished db" by blast
qed

section \<open>One round\<close>

text \<open>A clock later than every lease and every retry.\<close>

definition late_for :: "clock \<Rightarrow> database \<Rightarrow> bool" where
  "late_for ck db \<longleftrightarrow> (\<forall>t \<in> set (tasks db). next_retry_at t \<le> sql_utc_now ck \<and>
     (lease_expires_at t = None \<or> lease_expired ck t))"

lemma late_clock: "\<exists>ck. late_for ck db"
proof -
  have "\<exists>n. \<forall>t \<in> set ts. next_retry_at t \<le> n \<and> (\<forall>e. lease_expires_at t = Some e \<longrightarrow> e < n)" for ts
  proof (induction ts)
    case (Cons t ts)
    then obtain n where n: "\<forall>t \<in> set ts. next_retry_at t \<le> n \<and>
      (\<forall>e. lease_expires_at t = Some e \<longrightarrow> e < n)" by blast
    let ?m = "max n (max (next_retry_at t) (case lease_expires_at t of None \<Rightarrow> 0 | Some e \<Rightarrow> e + 1))"
    have "\<forall>u \<in> set (t # ts). next_retry_at u \<le> ?m \<and> (\<forall>e. lease_expires_at u = Some e \<longrightarrow> e < ?m)"
      using n by (fastforce simp: less_max_iff_disj le_max_iff_disj)
    then show ?case by blast
  qed simp
  then obtain n where n: "\<forall>t \<in> set (tasks db). next_retry_at t \<le> n \<and>
      (\<forall>e. lease_expires_at t = Some e \<longrightarrow> e < n)" by blast
  have "late_for \<lparr>now = n, tz_off = 0\<rparr> db"
    using n by (fastforce simp: late_for_def lease_expired_def sql_utc_now_def split: option.split)
  then show ?thesis by blast
qed

text \<open>The restart: every task that was in flight is back in the queue.\<close>

lemma restart_round:
  fixes cfg :: disp_cfg
  assumes ok: "db_ok M db" and ck: "late_for ck db"
  defines "db1 \<equiv> snd (reclaim_in_flight ck (worker_id (exec_of cfg)) True msg_zombie db)"
  shows "worker_run cfg (db, ws)
      (db1, new_worker\<lparr>last_reclaim_at := mt, stop_event := False, d_pc := LoopTop, started := True\<rparr>)"
    and "progress E db db1"
    and "\<And>k. k \<in> unfinished db1 \<Longrightarrow> \<exists>t. get_by_id db1 k = Some t \<and> pick_guard ck (\<lambda>_. False) t"
proof -
  let ?ws = "new_worker\<lparr>last_reclaim_at := mt, stop_event := False, d_pc := LoopTop, started := True\<rparr>"
  have "worker_start cfg ck mt Commit (db, new_worker) = (Inr (), db1, ?ws)"
    by (simp add: worker_start_unfold recover_zombie_tasks_def recover_body_def db1_def split: prod.split)
  then have "worker_step cfg (db, new_worker) (db1, ?ws)" by (rule worker_step.starts)
  moreover have "worker_step cfg (db, ws) (db, new_worker)" by (rule worker_step.crash)
  ultimately show "worker_run cfg (db, ws) (db1, ?ws)" by (meson converse_rtranclp_into_rtranclp r_into_rtranclp)
  show "progress E db db1"
    unfolding db1_def
    by (rule progress_map [OF _ get_by_id_reclaim])
      (auto simp: reclaim_in_flight_def reclaim_guard_def advanced_def release_set_def TERMINAL_STATUSES_def)
  fix k assume "k \<in> unfinished db1"
  then obtain t u where t: "get_by_id db k = Some t" and u: "get_by_id db1 k = Some u"
    "u = (if reclaim_guard ck (worker_id (exec_of cfg)) True t then release_set ck msg_zombie t else t)"
    "status u \<in> set RECOVERABLE_STATUSES"
    by (auto simp: unfinished_def db1_def get_by_id_reclaim)
  have tm: "t \<in> set (tasks db)" using get_by_id_SomeD [OF t] by simp
  have "task_ok M t" using db_ok_taskD [OF ok tm] .
  moreover have "next_retry_at t \<le> sql_utc_now ck" "lease_expires_at t = None \<or> lease_expired ck t"
    using ck tm by (auto simp: late_for_def)
  ultimately have "pick_guard ck (\<lambda>_. False) u"
    using u(2,3) by (auto simp: reclaim_guard_def pick_guard_def release_set_def task_ok_def split: if_splits)
  with u(1) show "\<exists>t. get_by_id db1 k = Some t \<and> pick_guard ck (\<lambda>_. False) t" by blast
qed

text \<open>The claim: the worker is free and takes a task that is due.\<close>

lemma claim_round:
  assumes ok: "db_ok M db" and ne: "unfinished db \<noteq> {}"
    and due: "\<And>k. k \<in> unfinished db \<Longrightarrow> \<exists>t. get_by_id db k = Some t \<and> pick_guard ck (\<lambda>_. False) t"
    and cfg: "0 < max_concurrency cfg" "0 < max_batch_size cfg"
    and ws: "d_pc ws = LoopTop" "\<not> stop_event ws" "running ws = []" "procs ws = []"
  shows "\<exists>db2 ws2 k t. worker_run cfg (db, ws) (db2, ws2) \<and> progress E db db2 \<and> db_ok M db2 \<and>
    k \<in> unfinished db \<and> 0 < length (procs ws2) \<and> procs ws2 ! 0 = start_exec k \<and>
    get_by_id db2 k = Some t \<and> status t = TRANSCRIBING \<and> locked_by t = Some (worker_id (exec_of cfg))"
proof -
  let ?w = "worker_id (exec_of cfg)" and ?l = "lease_seconds (exec_of cfg)"
  define b where "b = min (max_concurrency cfg) (max_batch_size cfg)"
  define mt where "mt = last_reclaim_at ws + reclaim_interval cfg - 1"
  define ws1 where "ws1 = ws\<lparr>d_pc := Claiming b\<rparr>"
  have b: "0 < b" using cfg by (simp add: b_def)
  have top: "loop_top cfg ws = ws1"
    using ws cfg by (simp add: loop_top_def ws1_def b_def)
  have nd: "\<not> reclaim_due cfg mt ws1" by (simp add: reclaim_due_def mt_def ws1_def)
  have body: "claim_body cfg ck (\<lambda>_. False) False b db = claim_pending ck (\<lambda>_. False) b ?w ?l db"
    by (simp add: claim_body_def)
  define ids where "ids = fst (claim_pending ck (\<lambda>_. False) b ?w ?l db)"
  define db2 where "db2 = snd (claim_pending ck (\<lambda>_. False) b ?w ?l db)"
  have picked: "set ids = set (pick_pending ck (\<lambda>_. False) b db)"
    using claim_pending_ids(1) [OF ok] b by (simp add: ids_def)
  from ne obtain k0 where "k0 \<in> unfinished db" by blast
  from due [OF this] obtain t0 where "get_by_id db k0 = Some t0" "pick_guard ck (\<lambda>_. False) t0" by blast
  then have "t0 \<in> set (eligible ck (\<lambda>_. False) db)"
    using get_by_id_SomeD by (fastforce simp: eligible_def sql_where_def)
  then have "eligible ck (\<lambda>_. False) db \<noteq> []" by auto
  then have "0 < length (sql_order_limit task_created_at b (eligible ck (\<lambda>_. False) db))"
    using b by (simp add: length_sql_order_limit_eq)
  then have "pick_pending ck (\<lambda>_. False) b db \<noteq> []"
    unfolding pick_pending_eligible by auto
  with picked have ids: "ids \<noteq> []" by auto
  define k where "k = ids ! 0"
  have kin: "k \<in> set ids" using ids by (simp add: k_def)
  then obtain t where t: "get_by_id db k = Some t" "pick_guard ck (\<lambda>_. False) t"
    using picked_get [OF ok, of k ck "\<lambda>_. False" b] picked by blast
  have kun: "k \<in> unfinished db" using t by (auto simp: unfinished_def pick_guard_def)
  have pend: "status u = PENDING" if "get_by_id db j = Some u" "j \<in> set ids" for j u
    using picked_get [OF ok, of j ck "\<lambda>_. False" b] that picked by (auto simp: pick_guard_def)
  define ws2 where "ws2 = (fold schedule_task ids ws1)\<lparr>d_pc := LoopTop\<rparr>"
  have "loop_claim cfg ck mt (\<lambda>_. False) Commit (db, ws1) = (db2, ws2)"
    using loop_claim_commit [of ws1 b ids cfg ck "\<lambda>_. False" mt db] nd ids
    by (simp add: ws1_def body ids_def db2_def ws2_def)
  then have "worker_step cfg (db, ws1) (db2, ws2)"
    using worker_step.claims [of cfg "(db, ws1)" ck mt "\<lambda>_. False" Commit] by simp
  moreover have "worker_step cfg (db, ws) (db, ws1)"
    using worker_step.top [of cfg db ws] by (simp add: top)
  ultimately have run: "worker_run cfg (db, ws) (db2, ws2)"
    by (meson converse_rtranclp_into_rtranclp r_into_rtranclp)
  have pr: "progress E db db2"
    unfolding db2_def
  proof (rule progress_map [where P = "\<lambda>k t. k \<in> set ids" and S = "\<lambda>k. claim_set ck ?w ?l"])
    show "recordings (snd (claim_pending ck (\<lambda>_. False) b ?w ?l db)) = recordings db"
      by (simp add: claim_pending_db [OF ok] Let_def)
    show "get_by_id (snd (claim_pending ck (\<lambda>_. False) b ?w ?l db)) j =
        map_option (\<lambda>t. if j \<in> set ids then claim_set ck ?w ?l t else t) (get_by_id db j)" for j
      by (simp add: get_by_id_claim [OF ok] ids_def option.map_ident)
    show "get_by_id db j = Some u \<Longrightarrow> j \<in> set ids \<Longrightarrow> advanced E u (claim_set ck ?w ?l u)" for j u
      using pend [of j u] by (simp add: advanced_def claim_set_def TERMINAL_STATUSES_def)
  qed
  have procs: "procs ws2 ! 0 = start_exec k" "0 < length (procs ws2)"
    using running_schedule [OF claim_pending_ids(2) [OF ok, of ck "\<lambda>_. False" b ?w ?l], of 0 ws1] ids ws
    by (simp_all add: ws2_def ids_def [symmetric] k_def ws1_def)
  have "get_by_id db2 k = Some (claim_set ck ?w ?l t)"
    using kin t(1) by (simp add: db2_def get_by_id_claim [OF ok] ids_def)
  with run pr procs kun db_ok_claim [OF ok] show ?thesis
    by (intro exI [of _ db2] exI [of _ ws2] exI [of _ k] exI [of _ "claim_set ck ?w ?l t"])
      (simp add: db2_def claim_set_def)
qed

text \<open>
  The processing: what the recording has coming, if the transcriber answers \<open>asr path\<close> and the
  model \<open>summ transcript\<close>.
\<close>

definition results_of ::
  "exec_cfg \<Rightarrow> (pstr \<Rightarrow> pstr) \<Rightarrow> (pstr \<Rightarrow> json) \<Rightarrow> recording list \<Rightarrow> uuid \<Rightarrow> pstr \<times> json" where
  "results_of cfg asr summ rs rid =
     (case by_key rec_id rid rs of
        None \<Rightarrow> ([], JNull)
      | Some r \<Rightarrow> (asr (file_path r), if has_summarizer cfg then summ (asr (file_path r)) else mock_summary))"

lemma owner_assign_recording: "owner_assign cfg ck S \<Longrightarrow> recording_id (S u) = recording_id u"
  by (erule owner_assign.cases) (auto simp: row_defs Let_def)

lemma exec_run_recording:
  assumes "undisturbed evs" and "get_by_id db k = Some t"
  shows "\<exists>u. get_by_id (fst (exec_run cfg evs (db, e))) k = Some u \<and> recording_id u = recording_id t"
  using assms
proof (induction evs arbitrary: db e t)
  case (Cons a evs)
  obtain ck env ev where a: "a = (ck, env, ev)" by (cases a)
  obtain db1 e1 where s: "exec_step cfg ck ev (db, e) = (db1, e1)" by fastforce
  have "owner_effect cfg ck (ex_task e) db db1"
    using exec_step_effect [of cfg ck e db ev] by (simp add: s)
  from owner_effect_get [OF this Cons.prems(2)] obtain u
    where "get_by_id db1 k = Some u" "recording_id u = recording_id t"
    using owner_assign_recording by fastforce
  moreover have "env = (\<lambda>db. db)" "undisturbed evs"
    using Cons.prems(1) by (simp_all add: a undisturbed_def)
  ultimately show ?case
    using Cons.IH [of db1 u e1] by (simp add: a s)
qed simp

lemma process_round:
  assumes ok: "db_ok M db" and src: "has_summarizer (exec_of cfg) \<or> allow_mock_llm (exec_of cfg)"
    and ws: "0 < length (procs ws)" "procs ws ! 0 = start_exec k"
    and t: "get_by_id db k = Some t" "status t = TRANSCRIBING" "locked_by t = Some (worker_id (exec_of cfg))"
  shows "\<exists>db' ws' u. worker_run cfg (db, ws) (db', ws') \<and>
    progress (results_of (exec_of cfg) asr summ (recordings db)) db db' \<and>
    get_by_id db' k = Some u \<and> status u = DONE"
proof -
  have "recording_id t \<in> rec_id ` set (recordings db)"
    using ok get_by_id_SomeD [OF t(1)] by (auto simp: db_ok_def)
  then obtain r where r: "by_key rec_id (recording_id t) (recordings db) = Some r"
    using by_key_None_iff [of rec_id "recording_id t" "recordings db"]
    by (cases "by_key rec_id (recording_id t) (recordings db)") auto
  let ?tr = "asr (file_path r)"
  define E where "E = results_of (exec_of cfg) asr summ (recordings db)"
  have E: "E (recording_id t) = (?tr, if has_summarizer (exec_of cfg) then summ ?tr else mock_summary)"
    by (simp add: E_def results_of_def r)
  have sm: "summarize_result (exec_of cfg) (Inr (summ ?tr)) = Inr (snd (E (recording_id t)))"
    using src by (auto simp: summarize_result_def E)
  have row: "owned_row M (exec_of cfg) k (recording_id t) r t db"
    using ok t r by (simp add: owned_row_def recording_get_by_id_def)
  have alone: "leaves_alone M k (recording_id t) (\<lambda>db. db)" by (simp add: leaves_alone_def)
  define evs where "evs = good_events (replicate 7 \<lparr>now = 0, tz_off = 0\<rparr>) (\<lambda>_ db. db) ?tr (summ ?tr)"
  define db' where "db' = fst (exec_run (exec_of cfg) evs (db, start_exec k))"
  have "undisturbed evs" unfolding evs_def by (rule undisturbed_good)
  note others = exec_run_others [OF this, of "exec_of cfg" db "start_exec k", folded db'_def]
    and rec = exec_run_recording [OF this t(1), of "exec_of cfg" "start_exec k", folded db'_def]
    and run = exec_run_worker_run [OF ws(1) this, of cfg db, unfolded ws(2), folded db'_def]
  have "evs = good_events [\<lparr>now = 0, tz_off = 0\<rparr>, \<lparr>now = 0, tz_off = 0\<rparr>, \<lparr>now = 0, tz_off = 0\<rparr>,
      \<lparr>now = 0, tz_off = 0\<rparr>, \<lparr>now = 0, tz_off = 0\<rparr>, \<lparr>now = 0, tz_off = 0\<rparr>, \<lparr>now = 0, tz_off = 0\<rparr>]
      (\<lambda>_ db. db) ?tr (summ ?tr)"
    by (simp add: evs_def numeral_eq_Suc)
  then obtain u where u: "get_by_id db' k = Some u" "status u = DONE" "transcript u = Some ?tr"
    "summary u = Some (snd (E (recording_id t)))"
    using process_success [where env = "\<lambda>_ db. db", OF row t(2) alone sm] unfolding db'_def Let_def by metis
  have "recording_id u = recording_id t" using rec u(1) by auto
  then have adv: "advanced E t u"
    using u t(2) by (simp add: advanced_def TERMINAL_STATUSES_def E)
  have "ex_task (start_exec k) = k" by (simp add: start_exec_def)
  then have "get_by_id db' j = map_option (\<lambda>v. if j = k then u else v) (get_by_id db j)" for j
    using others u(1) t(1) by (cases "j = k") (simp_all add: option.map_ident)
  with others adv t(1) have "progress E db db'"
    by (intro progress_map [where P = "\<lambda>j v. j = k" and S = "\<lambda>_ _. u"]) auto
  with run u show ?thesis unfolding E_def by blast
qed

section \<open>All rounds\<close>

lemma db_ok_worker_run:
  assumes "worker_run cfg (db, ws) (db', ws')" and "db_ok M db" and "max_retries (exec_of cfg) \<le> int M"
  shows "db_ok M db'"
  using assms(1)
proof (induction rule: rtranclp_induct2)
  case refl
  show ?case by (rule assms(2))
next
  case (step a b c d)
  show ?case
    using worker_step_move [OF step.hyps(2)] step.IH assms(3) by (auto intro: db_ok_move)
qed

lemma one_round:
  assumes ok: "db_ok M db" and ne: "unfinished db \<noteq> {}"
    and cfg: "0 < max_concurrency cfg" "0 < max_batch_size cfg"
    and src: "has_summarizer (exec_of cfg) \<or> allow_mock_llm (exec_of cfg)"
  shows "\<exists>db' ws'. worker_run cfg (db, ws) (db', ws') \<and>
    progress (results_of (exec_of cfg) asr summ (recordings db)) db db' \<and>
    card (unfinished db') < card (unfinished db)"
proof -
  let ?E = "results_of (exec_of cfg) asr summ (recordings db)"
  obtain ck where ck: "late_for ck db" using late_clock by blast
  define db1 where "db1 = snd (reclaim_in_flight ck (worker_id (exec_of cfg)) True msg_zombie db)"
  let ?ws1 = "new_worker\<lparr>last_reclaim_at := 0, stop_event := False, d_pc := LoopTop, started := True\<rparr>"
  note restart = restart_round [where cfg = cfg, OF ok ck, folded db1_def]
  have ok1: "db_ok M db1" unfolding db1_def by (rule db_ok_reclaim [OF ok])
  have p1: "progress ?E db db1" by (rule restart(2))
  show ?thesis
  proof (cases "unfinished db1 = {}")
    case True
    then have "card (unfinished db1) < card (unfinished db)"
      using ne finite_unfinished by (simp add: card_gt_0_iff)
    with restart(1) p1 show ?thesis by blast
  next
    case False
    have ws1: "d_pc ?ws1 = LoopTop" "\<not> stop_event ?ws1" "running ?ws1 = []" "procs ?ws1 = []"
      by (simp_all add: new_worker_def)
    obtain db2 ws2 k t where c: "worker_run cfg (db1, ?ws1) (db2, ws2)" "progress ?E db1 db2"
      "db_ok M db2" "k \<in> unfinished db1" "0 < length (procs ws2)" "procs ws2 ! 0 = start_exec k"
      "get_by_id db2 k = Some t" "status t = TRANSCRIBING" "locked_by t = Some (worker_id (exec_of cfg))"
      using claim_round [OF ok1 False restart(3) cfg ws1] by blast
    have "recordings db2 = recordings db" using p1 c(2) by (simp add: progress_def)
    with process_round [OF c(3) src c(5-9)] obtain db3 ws3 u where d:
      "worker_run cfg (db2, ws2) (db3, ws3)" "progress ?E db2 db3" "get_by_id db3 k = Some u" "status u = DONE"
      by metis
    have "worker_run cfg (db, ws) (db3, ws3)"
      using restart(1) c(1) d(1) by (meson rtranclp_trans)
    moreover have "progress ?E db db3"
      using p1 c(2) d(2) by (blast intro: progress_trans)
    moreover have "k \<in> unfinished db"
      using unfinished_progress [OF p1] c(4) by blast
    ultimately show ?thesis
      using unfinished_psubset d(3,4) by blast
  qed
qed

lemma drained:
  assumes ok: "db_ok M db" and m: "max_retries (exec_of cfg) \<le> int M"
    and cfg: "0 < max_concurrency cfg" "0 < max_batch_size cfg"
    and src: "has_summarizer (exec_of cfg) \<or> allow_mock_llm (exec_of cfg)"
  shows "\<exists>db' ws'. worker_run cfg (db, ws) (db', ws') \<and>
    progress (results_of (exec_of cfg) asr summ (recordings db)) db db' \<and> unfinished db' = {}"
  using ok
proof (induction "card (unfinished db)" arbitrary: db ws rule: less_induct)
  case less
  show ?case
  proof (cases "unfinished db = {}")
    case True
    have "progress (results_of (exec_of cfg) asr summ (recordings db)) db db"
      by (rule progress_map [where P = "\<lambda>_ _. False"]) (auto simp: option.map_ident)
    with True show ?thesis by blast
  next
    case False
    from one_round [OF less.prems False cfg src] obtain db1 ws1 where r:
      "worker_run cfg (db, ws) (db1, ws1)"
      "progress (results_of (exec_of cfg) asr summ (recordings db)) db db1"
      "card (unfinished db1) < card (unfinished db)" by blast
    have "recordings db1 = recordings db" using r(2) by (simp add: progress_def)
    with less.hyps [OF r(3) db_ok_worker_run [OF r(1) less.prems m], of ws1] obtain db' ws' where
      "worker_run cfg (db1, ws1) (db', ws')"
      "progress (results_of (exec_of cfg) asr summ (recordings db)) db1 db'" "unfinished db' = {}"
      by auto
    with r(1,2) show ?thesis by (blast intro: progress_trans rtranclp_trans)
  qed
qed



end
