(* ===== verification/Storage.thy ===== *)
theory Storage
  imports System_Properties Recording_Properties
begin

text \<open>
  The upload directory and the table of recordings under concurrency.  An upload is cut where
  other requests can come between its effects: it is staged, its hash is looked up, its file is
  renamed, its rows are inserted, and what is not kept is removed; a deletion is its transaction
  and then the removal of the file.  Any number of uploads and deletions are under way at a time,
  beside the workers and the retries of tasks.  The system is orderly: files can be removed, the
  lookups succeed, and no commit or rename fails after it has been applied.
\<close>

section \<open>Requests under way\<close>

datatype job =
    Staged staged_upload pstr
  | Committing staged_upload pstr
  | Inserting pstr staged_upload pstr
  | Removing pstr

record storage =
  st_fs :: fs
  st_db :: database
  st_jobs :: "job list"

definition empty_storage :: storage where
  "empty_storage = \<lparr>st_fs = (\<lambda>_. None), st_db = empty_db, st_jobs = []\<rparr>"

text \<open>The file a request has on disk, and the names it may use.\<close>

fun job_path :: "job \<Rightarrow> pstr" where
  "job_path (Staged st _) = tmp_path st"
| "job_path (Committing st _) = tmp_path st"
| "job_path (Inserting path _ _) = path"
| "job_path (Removing path) = path"

fun job_names :: "job \<Rightarrow> pstr list" where
  "job_names (Staged st _) = [tmp_path st, final_path st]"
| "job_names (Committing st _) = [tmp_path st, final_path st]"
| "job_names (Inserting path _ _) = [path]"
| "job_names (Removing path) = [path]"

definition names :: "storage \<Rightarrow> pstr list" where
  "names s = map file_path (recordings (st_db s)) @ concat (map job_names (st_jobs s))"

text \<open>What follows the rename, and the insertion.\<close>

definition after_commit :: "staged_upload \<Rightarrow> pstr \<Rightarrow> pstr tx_result \<Rightarrow> job" where
  "after_commit st f res = (case res of Returned path \<Rightarrow> Inserting path st f | _ \<Rightarrow> Removing (tmp_path st))"

definition after_insert :: "pstr \<Rightarrow> (recording \<times> task option \<times> bool) tx_result \<Rightarrow> job list" where
  "after_insert path res = (case res of Returned (_, _, True) \<Rightarrow> [] | _ \<Rightarrow> [Removing path])"

definition after_delete :: "pstr option tx_result \<Rightarrow> job list" where
  "after_delete res = (case res of Returned (Some path) \<Rightarrow> [Removing path] | _ \<Rightarrow> [])"

definition after_stage :: "pstr \<Rightarrow> staged_upload tx_result \<Rightarrow> job list" where
  "after_stage f res = (case res of Returned st \<Rightarrow> [Staged st f] | _ \<Rightarrow> [])"

inductive storage_step :: "upload_cfg \<Rightarrow> storage \<Rightarrow> storage \<Rightarrow> bool" for cfg where
  stage: "validate_extension (up_uni cfg) (up_pylist cfg) f (up_allowed cfg) = Inr ext \<Longrightarrow>
    open_res io = Commit \<Longrightarrow> unlink_ok io (part_path (up_dir cfg) u ext) \<Longrightarrow>
    part_path (up_dir cfg) u ext \<notin> set (names s) \<Longrightarrow> path_child (up_dir cfg) (uuid_hex u @ ext) \<notin> set (names s) \<Longrightarrow>
    stage_upload (up_sha256 cfg) io u ext (up_dir cfg) (max_file_size_bytes (up_max_mb cfg)) (up_max_mb cfg)
      (st_fs s) = (res, fs') \<Longrightarrow>
    storage_step cfg s (s\<lparr>st_fs := fs', st_jobs := st_jobs s @ after_stage f res\<rparr>)"
| look_up: "st_jobs s = js @ Staged st f # ks \<Longrightarrow>
    storage_step cfg s (s\<lparr>st_jobs := js @
      (case recording_get_by_hash (st_db s) (staged_sha st) of
         None \<Rightarrow> Committing st f | Some r \<Rightarrow> Removing (tmp_path st)) # ks\<rparr>)"
| commit: "st_jobs s = js @ Committing st f # ks \<Longrightarrow> \<not> ambiguous x \<Longrightarrow>
    staged_commit x st (st_fs s) = (res, fs') \<Longrightarrow>
    storage_step cfg s (s\<lparr>st_fs := fs', st_jobs := js @ after_commit st f res # ks\<rparr>)"
| insertion: "st_jobs s = js @ Inserting path st f # ks \<Longrightarrow> \<not> ambiguous x \<Longrightarrow>
    create_recording_and_task ck rid tid quiet x f path (staged_size st) (staged_sha st) (st_db s) = (res, db') \<Longrightarrow>
    storage_step cfg s (s\<lparr>st_db := db', st_jobs := js @ after_insert path res @ ks\<rparr>)"
| removal: "st_jobs s = js @ Removing path # ks \<Longrightarrow> unl path \<Longrightarrow>
    storage_step cfg s (s\<lparr>st_fs := remove_file unl path (st_fs s), st_jobs := js @ ks\<rparr>)"
| deletion: "\<not> ambiguous x \<Longrightarrow> repo_delete quiet x rid (st_db s) = (res, db') \<Longrightarrow>
    storage_step cfg s (s\<lparr>st_db := db', st_jobs := st_jobs s @ after_delete res\<rparr>)"
| work: "db_move wcfg (st_db s) db' \<Longrightarrow> storage_step cfg s (s\<lparr>st_db := db'\<rparr>)"
| retry: "storage_step cfg s (s\<lparr>st_db := snd (requeue_failed ck tid (st_db s))\<rparr>)"

abbreviation storage_reachable :: "upload_cfg \<Rightarrow> storage \<Rightarrow> bool" where
  "storage_reachable cfg s \<equiv> (storage_step cfg)\<^sup>*\<^sup>* empty_storage s"

section \<open>The invariant\<close>

text \<open>The file at a path holds the bytes of this hash and this size, within the limits.\<close>

definition holds :: "upload_cfg \<Rightarrow> fs \<Rightarrow> pstr \<Rightarrow> pstr \<Rightarrow> int \<Rightarrow> bool" where
  "holds cfg fs path h sz \<longleftrightarrow> (\<exists>d. fs path = Some d \<and> h = up_sha256 cfg d \<and> sz = int (length d) \<and>
     d \<noteq> [] \<and> int (length d) \<le> max_file_size_bytes (up_max_mb cfg))"

fun job_ok :: "upload_cfg \<Rightarrow> fs \<Rightarrow> job \<Rightarrow> bool" where
  "job_ok cfg fs (Staged st _) \<longleftrightarrow> holds cfg fs (tmp_path st) (staged_sha st) (staged_size st)"
| "job_ok cfg fs (Committing st _) \<longleftrightarrow> holds cfg fs (tmp_path st) (staged_sha st) (staged_size st)"
| "job_ok cfg fs (Inserting path st _) \<longleftrightarrow> holds cfg fs path (staged_sha st) (staged_size st)"
| "job_ok cfg fs (Removing path) \<longleftrightarrow> fs path \<noteq> None"

definition recording_stored :: "upload_cfg \<Rightarrow> fs \<Rightarrow> recording \<Rightarrow> bool" where
  "recording_stored cfg fs r \<longleftrightarrow> holds cfg fs (file_path r) (file_hash r) (file_size r)"

definition storage_ok :: "upload_cfg \<Rightarrow> storage \<Rightarrow> bool" where
  "storage_ok cfg s \<longleftrightarrow>
     distinct (names s) \<and>
     distinct (map rec_id (recordings (st_db s))) \<and>
     list_all (recording_stored cfg (st_fs s)) (recordings (st_db s)) \<and>
     list_all (job_ok cfg (st_fs s)) (st_jobs s) \<and>
     (\<forall>p. st_fs s p \<noteq> None \<longrightarrow>
        p \<in> file_path ` set (recordings (st_db s)) \<or> p \<in> job_path ` set (st_jobs s))"

lemma holds_cong: "fs' p = fs p \<Longrightarrow> holds cfg fs' p h sz \<longleftrightarrow> holds cfg fs p h sz"
  by (simp add: holds_def)

lemma job_ok_cong: "fs' (job_path j) = fs (job_path j) \<Longrightarrow> job_ok cfg fs' j \<longleftrightarrow> job_ok cfg fs j"
  by (cases j) (simp_all cong: holds_cong)

lemma job_ok_file: "job_ok cfg fs j \<Longrightarrow> fs (job_path j) \<noteq> None"
  by (cases j) (auto simp: holds_def)

lemma job_path_name: "job_path j \<in> set (job_names j)"
  by (cases j) simp_all

lemma job_path_names: "j \<in> set (st_jobs s) \<Longrightarrow> job_path j \<in> set (names s)"
  using job_path_name by (auto simp: names_def)

lemma storage_ok_empty: "storage_ok cfg empty_storage"
  by (simp add: storage_ok_def empty_storage_def names_def empty_db_def)

text \<open>What touches neither the recordings nor the files.\<close>

lemma storage_ok_db:
  "storage_ok cfg s \<Longrightarrow> recordings db' = recordings (st_db s) \<Longrightarrow> storage_ok cfg (s\<lparr>st_db := db'\<rparr>)"
  by (simp add: storage_ok_def names_def)

lemma distinct_replace:
  "distinct (a @ b @ c @ d) \<Longrightarrow> distinct e \<Longrightarrow> set e \<subseteq> set c \<Longrightarrow> distinct (a @ b @ e @ d)"
  by auto

text \<open>A request goes on, and touches only the files it may use.\<close>

lemma storage_ok_replace:
  assumes ok: "storage_ok cfg s" and jobs: "st_jobs s = js @ j # ks"
    and dist: "distinct (concat (map job_names new))"
    and sub: "set (concat (map job_names new)) \<subseteq> set (job_names j)"
    and frame: "\<And>p. p \<notin> set (job_names j) \<Longrightarrow> fs' p = st_fs s p"
    and new: "list_all (job_ok cfg fs') new"
    and exact: "\<And>p. p \<in> set (job_names j) \<Longrightarrow> fs' p \<noteq> None \<Longrightarrow> p \<in> job_path ` set new"
  shows "storage_ok cfg (s\<lparr>st_fs := fs', st_jobs := js @ new @ ks\<rparr>)"
proof -
  let ?s = "s\<lparr>st_fs := fs', st_jobs := js @ new @ ks\<rparr>"
  note ok = ok [unfolded storage_ok_def]
  have d: "distinct (map file_path (recordings (st_db s)) @ concat (map job_names (js @ j # ks)))"
    using ok jobs by (simp add: names_def)
  have "distinct (names ?s)"
    using distinct_replace [of "map file_path (recordings (st_db s))" "concat (map job_names js)"
        "job_names j" "concat (map job_names ks)" "concat (map job_names new)"] d dist sub
    by (simp add: names_def)
  moreover have "fs' (file_path r) = st_fs s (file_path r)" if "r \<in> set (recordings (st_db s))" for r
    using d that by (intro frame) auto
  moreover have "fs' (job_path i) = st_fs s (job_path i)" if "i \<in> set js \<union> set ks" for i
    using d that job_path_name [of i] by (intro frame) auto
  moreover have "p \<in> file_path ` set (recordings (st_db s)) \<or> p \<in> job_path ` (set js \<union> (set new \<union> set ks))"
    if "fs' p \<noteq> None" for p
  proof (cases "p \<in> set (job_names j)")
    case True
    with exact that show ?thesis by blast
  next
    case False
    with frame that have "st_fs s p \<noteq> None" by simp
    moreover have "p \<noteq> job_path j" using False job_path_name by metis
    ultimately show ?thesis using ok jobs by auto
  qed
  ultimately show ?thesis
    using ok new jobs unfolding storage_ok_def
    by (auto simp: list_all_iff recording_stored_def cong: holds_cong job_ok_cong)
qed

text \<open>A new request, with a file of its own or with the file of a row that has gone.\<close>

lemma storage_ok_stage:
  assumes ok: "storage_ok cfg s" and st: "staged = Staged st f"
    and fresh: "tmp_path st \<notin> set (names s)" "final_path st \<notin> set (names s)" "tmp_path st \<noteq> final_path st"
    and h: "holds cfg ((st_fs s)(tmp_path st \<mapsto> d)) (tmp_path st) (staged_sha st) (staged_size st)"
  shows "storage_ok cfg (s\<lparr>st_fs := (st_fs s)(tmp_path st \<mapsto> d), st_jobs := st_jobs s @ [staged]\<rparr>)"
proof -
  let ?fs = "(st_fs s)(tmp_path st \<mapsto> d)"
  have "?fs (file_path r) = st_fs s (file_path r)" if "r \<in> set (recordings (st_db s))" for r
  proof -
    have "file_path r \<in> set (names s)" using that by (simp add: names_def)
    with fresh(1) show ?thesis by auto
  qed
  moreover have "?fs (job_path i) = st_fs s (job_path i)" if "i \<in> set (st_jobs s)" for i
    using fresh(1) job_path_names [OF that] by auto
  moreover have "p \<in> file_path ` set (recordings (st_db s)) \<or> p \<in> job_path ` (insert staged (set (st_jobs s)))"
    if "?fs p \<noteq> None" for p
    using ok that unfolding storage_ok_def by (cases "p = tmp_path st") (simp_all add: st)
  ultimately show ?thesis
    using ok fresh h unfolding storage_ok_def
    by (auto simp: st names_def list_all_iff recording_stored_def simp del: fun_upd_apply
        cong: holds_cong job_ok_cong split: if_splits)
qed

section \<open>What the transactions do to the recordings\<close>

lemma create_quiet:
  assumes "create_recording_and_task ck rid tid quiet x name path sz h db = (res, db')" and "\<not> ambiguous x"
  shows "(\<exists>t. res = Returned (new_recording ck rid name path sz h, t, True) \<and>
      recordings db' = recordings db @ [new_recording ck rid name path sz h] \<and>
      rid \<notin> rec_id ` set (recordings db)) \<or>
    ((\<forall>r t. res \<noteq> Returned (r, t, True)) \<and> db' = db)"
proof (cases "recording_get_by_hash db h")
  case (Some r)
  then show ?thesis using assms(1) by (auto simp: create_recording_and_task_def)
next
  case None
  obtain r1 db1 where ins: "insert_pair_tx ck rid tid x name path sz h db = (r1, db1)" by force
  show ?thesis
  proof (cases "\<exists>p. r1 = Returned p")
    case True
    then obtain r t where p: "r1 = Returned (r, t)" by auto
    then have "insert_pair ck rid tid name path sz h db = Inr ((r, t), db1)"
      using insert_pair_tx_cases [OF ins] by auto
    note ip = insert_pair_Inr [OF this]
    have "res = Returned (r, Some t, True)" "db' = db1"
      using assms(1) None p ins by (simp_all add: create_recording_and_task_def)
    with ip show ?thesis by simp
  next
    case False
    then have "db1 = db" using insert_pair_tx_cases [OF ins] assms(2) by auto
    then show ?thesis
      using assms(1) None ins False
      by (auto simp: create_recording_and_task_def split: tx_result.splits exn.splits option.splits)
  qed
qed

lemma delete_quiet:
  assumes "repo_delete quiet x rid db = (res, db')" and "\<not> ambiguous x"
  shows "(\<exists>r. recording_get_by_id db rid = Some r \<and> res = Returned (Some (file_path r)) \<and>
      recordings db' = filter (\<lambda>q. rec_id q \<noteq> rid) (recordings db)) \<or>
    (after_delete res = [] \<and> db' = db)"
  using assms
  by (auto simp: repo_delete_def after_delete_def task_tx_def ambiguous_def delete_recording_row_def
      delete_by_recording_def sql_delete_def dest: recording_get_by_id_SomeD split: option.splits tx.splits)

lemma db_move_recordings:
  assumes "db_move cfg db db'"
  shows "recordings db' = recordings db"
  using assms
proof cases
  case (claim ck lk rc n)
  then show ?thesis
    by (simp add: claim_body_def claim_pending_def claim_rows_def reclaim_in_flight_def Let_def)
qed (auto simp: owner_effect_def reclaim_in_flight_def reset_aborted_def)

section \<open>Each step\<close>

lemma storage_ok_inserted:
  assumes ok: "storage_ok cfg s" and jobs: "st_jobs s = js @ Inserting path st f # ks"
    and db: "recordings db' = recordings (st_db s) @ [new_recording ck rid f path (staged_size st) (staged_sha st)]"
    and rid: "rid \<notin> rec_id ` set (recordings (st_db s))"
  shows "storage_ok cfg (s\<lparr>st_db := db', st_jobs := js @ ks\<rparr>)"
proof -
  note ok = ok [unfolded storage_ok_def]
  have "distinct (map file_path (recordings (st_db s)) @ concat (map job_names js) @ [path] @ concat (map job_names ks))"
    using ok jobs by (simp add: names_def)
  then have "distinct ((map file_path (recordings (st_db s)) @ [path]) @ concat (map job_names js) @ concat (map job_names ks))"
    by auto
  moreover have "holds cfg (st_fs s) path (staged_sha st) (staged_size st)"
    using ok jobs by simp
  moreover have "\<forall>p. st_fs s p \<noteq> None \<longrightarrow> p \<in> insert path (file_path ` set (recordings (st_db s))) \<or>
      p \<in> job_path ` (set js \<union> set ks)"
    using ok jobs by auto
  ultimately show ?thesis
    using ok jobs rid unfolding storage_ok_def
    by (simp add: names_def db recording_stored_def new_recording_def image_Un list_all_iff)
qed

lemma storage_ok_deleted:
  assumes ok: "storage_ok cfg s" and r: "recording_get_by_id (st_db s) rid = Some r"
    and db: "recordings db' = filter (\<lambda>q. rec_id q \<noteq> rid) (recordings (st_db s))"
  shows "storage_ok cfg (s\<lparr>st_db := db', st_jobs := st_jobs s @ [Removing (file_path r)]\<rparr>)"
proof -
  note ok = ok [unfolded storage_ok_def]
  let ?rs = "recordings (st_db s)"
  have rin: "r \<in> set ?rs" "rec_id r = rid" using recording_get_by_id_SomeD [OF r] by auto
  have "file_path r \<noteq> file_path q" if "q \<in> set ?rs" "rec_id q \<noteq> rid" for q
    using ok rin that by (auto simp: names_def distinct_map dest: inj_onD)
  moreover have "q = r" if "q \<in> set ?rs" "rec_id q = rid" for q
    using ok rin that by (auto simp: distinct_map dest: inj_onD)
  moreover have "distinct (map file_path (filter (\<lambda>q. rec_id q \<noteq> rid) ?rs) @ concat (map job_names (st_jobs s)))"
    using ok by (auto simp: names_def distinct_map_filter)
  moreover have "file_path r \<notin> set (concat (map job_names (st_jobs s)))"
    using ok rin(1) by (auto simp: names_def)
  moreover have "st_fs s (file_path r) \<noteq> None"
    using ok rin(1) by (auto simp: list_all_iff recording_stored_def holds_def)
  moreover have "p \<in> file_path ` {q \<in> set ?rs. rec_id q \<noteq> rid} \<or> p = file_path r \<or> p \<in> job_path ` set (st_jobs s)"
    if "st_fs s p \<noteq> None" for p
  proof -
    have "p \<in> file_path ` set ?rs \<or> p \<in> job_path ` set (st_jobs s)" using ok that by blast
    then show ?thesis using \<open>\<And>q. q \<in> set ?rs \<Longrightarrow> rec_id q = rid \<Longrightarrow> q = r\<close> by auto
  qed
  ultimately show ?thesis
    using ok unfolding storage_ok_def
    by (auto simp: names_def db list_all_iff distinct_map_filter)
qed

lemma job_path_concat: "i \<in> set js \<Longrightarrow> job_path i \<in> set (concat (map job_names js))"
  using job_path_name by auto

lemma storage_ok_free:
  assumes "storage_ok cfg s" and "p \<notin> set (names s)"
  shows "st_fs s p = None"
proof -
  have "p \<notin> file_path ` set (recordings (st_db s))" using assms(2) by (simp add: names_def)
  moreover have "p \<notin> job_path ` set (st_jobs s)" using assms(2) job_path_names by fastforce
  ultimately show ?thesis using assms(1) unfolding storage_ok_def by metis
qed

text \<open>A name a request may use and does not yet is free.\<close>

lemma storage_ok_reserved:
  assumes ok: "storage_ok cfg s" and jobs: "st_jobs s = js @ j # ks"
    and p: "p \<in> set (job_names j)" "p \<noteq> job_path j"
  shows "st_fs s p = None"
proof (rule ccontr)
  assume "st_fs s p \<noteq> None"
  then have "p \<in> file_path ` set (recordings (st_db s)) \<or> p \<in> job_path ` (set js \<union> set ks)"
    using ok jobs p(2) unfolding storage_ok_def by auto
  then have "p \<in> set (map file_path (recordings (st_db s))) \<union> set (concat (map job_names js)) \<union>
      set (concat (map job_names ks))"
  proof (elim disjE)
    assume "p \<in> job_path ` (set js \<union> set ks)"
    then obtain i where "p = job_path i" "i \<in> set js \<or> i \<in> set ks" by auto
    then show ?thesis using job_path_concat [of i js] job_path_concat [of i ks] by auto
  qed simp
  moreover have "distinct (map file_path (recordings (st_db s)) @ concat (map job_names js) @ job_names j @
      concat (map job_names ks))"
    using ok jobs by (simp add: storage_ok_def names_def)
  ultimately show False using p(1) by (simp only: distinct_append set_append) blast
qed

lemma part_neq_child: "part_path dir u ext \<noteq> path_child dir (uuid_hex u @ ext)"
  by (simp add: part_path_def)

lemma storage_ok_staged:
  assumes ok: "storage_ok cfg s" and max: "0 \<le> up_max_mb cfg"
    and "open_res io = Commit" "unlink_ok io (part_path (up_dir cfg) u ext)"
    and fresh: "part_path (up_dir cfg) u ext \<notin> set (names s)" "path_child (up_dir cfg) (uuid_hex u @ ext) \<notin> set (names s)"
    and st: "stage_upload (up_sha256 cfg) io u ext (up_dir cfg) (max_file_size_bytes (up_max_mb cfg)) (up_max_mb cfg)
      (st_fs s) = (res, fs')"
  shows "storage_ok cfg (s\<lparr>st_fs := fs', st_jobs := st_jobs s @ after_stage f res\<rparr>)"
proof -
  have "0 \<le> max_file_size_bytes (up_max_mb cfg)" using max by (simp add: max_file_size_bytes_def)
  from stage_upload_cases [OF st storage_ok_free [OF ok fresh(1)] this] show ?thesis
  proof (elim disjE exE conjE)
    fix d
    assume res: "res = Returned \<lparr>tmp_path = part_path (up_dir cfg) u ext,
        final_path = path_child (up_dir cfg) (uuid_hex u @ ext), staged_sha = up_sha256 cfg d, staged_size = int (length d)\<rparr>"
      and d: "d \<noteq> []" "int (length d) \<le> max_file_size_bytes (up_max_mb cfg)"
      and fs': "fs' = (st_fs s)(part_path (up_dir cfg) u ext \<mapsto> d)"
    let ?st = "\<lparr>tmp_path = part_path (up_dir cfg) u ext, final_path = path_child (up_dir cfg) (uuid_hex u @ ext),
      staged_sha = up_sha256 cfg d, staged_size = int (length d)\<rparr>"
    have "storage_ok cfg (s\<lparr>st_fs := (st_fs s)(tmp_path ?st \<mapsto> d), st_jobs := st_jobs s @ [Staged ?st f]\<rparr>)"
      by (rule storage_ok_stage [OF ok refl]) (use fresh d part_neq_child in \<open>simp_all add: holds_def\<close>)
    then show ?thesis by (simp add: res fs' after_stage_def)
  next
    assume "\<forall>st. res \<noteq> Returned st"
      "unlink_ok io (part_path (up_dir cfg) u ext) \<and> open_res io = Commit \<longrightarrow> fs' = st_fs s"
    then show ?thesis using ok assms(3,4) by (cases res) (simp_all add: after_stage_def)
  qed
qed

lemma storage_ok_committed:
  assumes ok: "storage_ok cfg s" and jobs: "st_jobs s = js @ Committing st f # ks"
    and x: "\<not> ambiguous x" "staged_commit x st (st_fs s) = (res, fs')"
  shows "storage_ok cfg (s\<lparr>st_fs := fs', st_jobs := js @ after_commit st f res # ks\<rparr>)"
proof -
  note okd = ok [unfolded storage_ok_def]
  have neq: "tmp_path st \<noteq> final_path st" using okd jobs by (simp add: names_def)
  have h: "holds cfg (st_fs s) (tmp_path st) (staged_sha st) (staged_size st)" using okd jobs by simp
  have "final_path st \<in> set (names s)" using jobs by (simp add: names_def)
  have "storage_ok cfg (s\<lparr>st_fs := fs', st_jobs := js @ [after_commit st f res] @ ks\<rparr>)"
  proof (rule storage_ok_replace [OF ok jobs])
    have *: "fs' = replace_file (tmp_path st) (final_path st) (st_fs s) \<and> res = Returned (final_path st) \<or>
        fs' = st_fs s \<and> after_commit st f res = Removing (tmp_path st)"
      using staged_commit_cases [OF x(2,1)] by (cases res) (auto simp: after_commit_def)
    have fin: "st_fs s (final_path st) = None"
      using storage_ok_reserved [OF ok jobs, of "final_path st"] neq by simp
    show "distinct (concat (map job_names [after_commit st f res]))"
      "set (concat (map job_names [after_commit st f res])) \<subseteq> set (job_names (Committing st f))"
      using * by (auto simp: after_commit_def)
    show "fs' p = st_fs s p" if "p \<notin> set (job_names (Committing st f))" for p
      using * that by (auto simp: replace_file_def)
    show "list_all (job_ok cfg fs') [after_commit st f res]"
      using * h by (auto simp: after_commit_def replace_file_def holds_def)
    show "p \<in> job_path ` set [after_commit st f res]"
      if "p \<in> set (job_names (Committing st f))" "fs' p \<noteq> None" for p
      using * that fin neq by (auto simp: after_commit_def replace_file_def split: if_splits)
  qed
  then show ?thesis by simp
qed

lemma storage_ok_looked_up:
  assumes ok: "storage_ok cfg s" and jobs: "st_jobs s = js @ Staged st f # ks"
    and new: "new = Committing st f \<or> new = Removing (tmp_path st)"
  shows "storage_ok cfg (s\<lparr>st_jobs := js @ new # ks\<rparr>)"
proof -
  note okd = ok [unfolded storage_ok_def]
  have neq: "tmp_path st \<noteq> final_path st" using okd jobs by (simp add: names_def)
  have h: "holds cfg (st_fs s) (tmp_path st) (staged_sha st) (staged_size st)" using okd jobs by simp
  have "storage_ok cfg (s\<lparr>st_fs := st_fs s, st_jobs := js @ [new] @ ks\<rparr>)"
  proof (rule storage_ok_replace [OF ok jobs])
    show "distinct (concat (map job_names [new]))"
      "set (concat (map job_names [new])) \<subseteq> set (job_names (Staged st f))"
      using new neq by auto
    show "list_all (job_ok cfg (st_fs s)) [new]"
      using new h by (auto simp: holds_def)
    show "p \<in> job_path ` set [new]" if p: "p \<in> set (job_names (Staged st f))" "st_fs s p \<noteq> None" for p
    proof -
      have "p = tmp_path st" using p(2) storage_ok_reserved [OF ok jobs p(1)] by fastforce
      with new show ?thesis by auto
    qed
  qed simp
  then show ?thesis by simp
qed

lemma storage_ok_step:
  assumes "storage_step cfg s s'" and ok: "storage_ok cfg s" and max: "0 \<le> up_max_mb cfg"
  shows "storage_ok cfg s'"
  using assms(1)
proof cases
  case (stage f ext io u res fs')
  then show ?thesis using storage_ok_staged [OF ok max] by simp
next
  case (look_up js st f ks)
  have "(case recording_get_by_hash (st_db s) (staged_sha st) of
      None \<Rightarrow> Committing st f | Some r \<Rightarrow> Removing (tmp_path st)) \<in> {Committing st f, Removing (tmp_path st)}"
    by (simp split: option.split)
  with look_up show ?thesis using storage_ok_looked_up [OF ok] by blast
next
  case (commit js st f ks x res fs')
  then show ?thesis using storage_ok_committed [OF ok] by simp
next
  case (insertion js path st f ks x ck rid tid res db')
  show ?thesis
    using create_quiet [OF insertion(4,3)]
  proof (elim disjE conjE exE)
    fix t
    assume "res = Returned (new_recording ck rid f path (staged_size st) (staged_sha st), t, True)"
      "recordings db' = recordings (st_db s) @ [new_recording ck rid f path (staged_size st) (staged_sha st)]"
      "rid \<notin> rec_id ` set (recordings (st_db s))"
    with storage_ok_inserted [OF ok insertion(2)] insertion(1) show ?thesis by (simp add: after_insert_def)
  next
    assume "\<forall>r t. res \<noteq> Returned (r, t, True)" and db: "db' = st_db s"
    then have a: "after_insert path res = [Removing path]"
      by (auto simp: after_insert_def split: tx_result.splits bool.splits)
    have "holds cfg (st_fs s) path (staged_sha st) (staged_size st)"
      using ok insertion(2) by (simp add: storage_ok_def)
    then have "storage_ok cfg (s\<lparr>st_fs := st_fs s, st_jobs := js @ [Removing path] @ ks\<rparr>)"
      by (intro storage_ok_replace [OF ok insertion(2)]) (auto simp: holds_def)
    then show ?thesis using insertion(1) db a by simp
  qed
next
  case (removal js path ks unl)
  have "storage_ok cfg (s\<lparr>st_fs := remove_file unl path (st_fs s), st_jobs := js @ [] @ ks\<rparr>)"
    by (rule storage_ok_replace [OF ok removal(2)]) (simp_all add: remove_file_def removal(3))
  then show ?thesis using removal(1) by simp
next
  case (deletion x rid res db')
  show ?thesis
    using delete_quiet [OF deletion(3,2)]
  proof (elim disjE conjE exE)
    fix r
    assume "recording_get_by_id (st_db s) rid = Some r" "res = Returned (Some (file_path r))"
      "recordings db' = filter (\<lambda>q. rec_id q \<noteq> rid) (recordings (st_db s))"
    with storage_ok_deleted [OF ok] deletion(1) show ?thesis by (simp add: after_delete_def)
  next
    assume "after_delete res = []" "db' = st_db s"
    then show ?thesis using ok deletion(1) by simp
  qed
next
  case (work wcfg db')
  then show ?thesis using storage_ok_db [OF ok] db_move_recordings by simp
next
  case (retry ck tid)
  then show ?thesis
    using storage_ok_db [OF ok] by (simp add: requeue_failed_def Let_def split: option.splits)
qed

lemma storage_ok_reachable:
  "storage_reachable cfg s \<Longrightarrow> 0 \<le> up_max_mb cfg \<Longrightarrow> storage_ok cfg s"
  by (induction rule: rtranclp_induct) (auto intro: storage_ok_empty storage_ok_step)


section \<open>The service's operations are runs\<close>

lemma run_step:
  "(storage_step cfg)\<^sup>*\<^sup>* s s' \<Longrightarrow> storage_step cfg s' s'' \<Longrightarrow> (storage_step cfg)\<^sup>*\<^sup>* s s''"
  by (rule rtranclp.rtrancl_into_rtrancl)

text \<open>\<open>storage_step.removal\<close> of the last request.\<close>

lemma run_remove:
  assumes "(storage_step cfg)\<^sup>*\<^sup>* s \<lparr>st_fs = fs, st_db = db, st_jobs = js @ [Removing path]\<rparr>" and "unl path"
  shows "(storage_step cfg)\<^sup>*\<^sup>* s \<lparr>st_fs = remove_file unl path fs, st_db = db, st_jobs = js\<rparr>"
proof -
  let ?t = "\<lparr>st_fs = fs, st_db = db, st_jobs = js @ [Removing path]\<rparr>"
  have "storage_step cfg ?t (?t\<lparr>st_fs := remove_file unl path (st_fs ?t), st_jobs := js @ []\<rparr>)"
    by (rule storage_step.removal [where path = path]) (simp_all add: assms(2))
  from run_step [OF assms(1) this] show ?thesis by simp
qed

lemma delete_run:
  assumes "delete_recording quiet x unl rid (fs, db) = (res, fs', db')" and "\<not> ambiguous x"
    and "\<And>p. unl p"
  shows "(storage_step cfg)\<^sup>*\<^sup>* \<lparr>st_fs = fs, st_db = db, st_jobs = js\<rparr> \<lparr>st_fs = fs', st_db = db', st_jobs = js\<rparr>"
proof -
  let ?s = "\<lparr>st_fs = fs, st_db = db, st_jobs = js\<rparr>"
  obtain r db1 where d: "repo_delete quiet x rid db = (r, db1)" by force
  have "storage_step cfg ?s (?s\<lparr>st_db := db1, st_jobs := st_jobs ?s @ after_delete r\<rparr>)"
    by (rule storage_step.deletion [where rid = rid, OF assms(2)]) (simp add: d)
  then have run: "(storage_step cfg)\<^sup>*\<^sup>* ?s \<lparr>st_fs = fs, st_db = db1, st_jobs = js @ after_delete r\<rparr>"
    by simp
  have db: "db' = db1" using assms(1) d by (auto simp: delete_recording_def split: tx_result.splits option.splits)
  show ?thesis
  proof (cases "\<exists>path. r = Returned (Some path)")
    case True
    then obtain path where r: "r = Returned (Some path)" by blast
    then have "fs' = remove_file unl path fs" using assms(1) d by (simp add: delete_recording_def)
    with run_remove [where path = path and unl = unl, OF _ assms(3)] run db show ?thesis
      by (simp add: r after_delete_def)
  next
    case False
    then have "after_delete r = []" "fs' = fs"
      using assms(1) d by (auto simp: after_delete_def delete_recording_def split: tx_result.splits option.splits)
    with run db show ?thesis by simp
  qed
qed

text \<open>An upload whose file is staged: the rest of its way.\<close>

lemma upload_staged_run:
  assumes run: "(storage_step cfg)\<^sup>*\<^sup>* s \<lparr>st_fs = fs1, st_db = db, st_jobs = js @ [Staged st f]\<rparr>"
    and unl: "unlink_ok (w_io w) (tmp_path st)" "unlink_ok (w_io w) (final_path st)"
    and x: "\<not> ambiguous (w_rename w)" "\<not> ambiguous (w_commit w)" "w_env w = quiet" "w_lookup_env w = quiet"
    and res: "(case lookup_hash Commit quiet (staged_sha st) db of
        (Raised e, db1) \<Rightarrow> (Raised e, fs1, db1, wk)
      | (TxCancelled, db1) \<Rightarrow> (TxCancelled, fs1, db1, wk)
      | (Returned (Some r, t), db1) \<Rightarrow>
          upload_answer (Returned (r, t, False)) (staged_discard (unlink_ok (w_io w)) st fs1, db1, wk)
      | (Returned (None, _), db1) \<Rightarrow>
          (case staged_commit (w_rename w) st fs1 of
             (Raised e, fs2) \<Rightarrow> (Raised e, staged_discard (unlink_ok (w_io w)) st fs2, db1, wk)
           | (TxCancelled, fs2) \<Rightarrow> (TxCancelled, staged_discard (unlink_ok (w_io w)) st fs2, db1, wk)
           | (Returned path, fs2) \<Rightarrow>
               (case create_keeping
                       (\<lambda>p. create_recording_and_task (w_clock w) (w_rec_id w) (w_task_id w)
                          (w_env w) (w_commit w) f p (staged_size st) (staged_sha st))
                       (unlink_ok (w_io w)) path (fs2, w_lookup_env w 1 db1) of
                  (res, fs3, db2) \<Rightarrow> upload_answer res (fs3, db2, wk)))) = (res, fs', db', wk')"
  shows "(storage_step cfg)\<^sup>*\<^sup>* s \<lparr>st_fs = fs', st_db = db', st_jobs = js\<rparr>"
proof -
  let ?unl = "unlink_ok (w_io w)"
  define new where "new = (case recording_get_by_hash db (staged_sha st) of
      None \<Rightarrow> Committing st f | Some r \<Rightarrow> Removing (tmp_path st))"
  let ?t = "\<lparr>st_fs = fs1, st_db = db, st_jobs = js @ [Staged st f]\<rparr>"
  have "storage_step cfg ?t (?t\<lparr>st_jobs := js @ new # []\<rparr>)"
    using storage_step.look_up [of ?t js st f "[]" cfg] by (simp add: new_def)
  from run_step [OF run this] have looked:
    "(storage_step cfg)\<^sup>*\<^sup>* s \<lparr>st_fs = fs1, st_db = db, st_jobs = js @ [new]\<rparr>" by simp
  show ?thesis
  proof (cases "recording_get_by_hash db (staged_sha st)")
    case (Some r)
    have "upload_answer (Returned (r, get_by_recording db (rec_id r), False)) (remove_file ?unl (tmp_path st) fs1, db, wk) =
        (res, fs', db', wk')"
      using res Some by (simp add: lookup_hash_def repo_get_by_hash_def staged_discard_def)
    note ans = upload_answer_state [OF this]
    from run_remove [where path = "tmp_path st" and unl = ?unl, OF _ unl(1)] looked ans(1,2) show ?thesis
      by (simp add: new_def Some)
  next
    case None
    obtain cr fs2 where com: "staged_commit (w_rename w) st fs1 = (cr, fs2)" by force
    let ?u = "\<lparr>st_fs = fs1, st_db = db, st_jobs = js @ [Committing st f]\<rparr>"
    have "storage_step cfg ?u (?u\<lparr>st_fs := fs2, st_jobs := js @ after_commit st f cr # []\<rparr>)"
      by (rule storage_step.commit [OF _ x(1)]) (simp_all add: com)
    from run_step [OF looked [unfolded new_def None option.case] this] have committed:
      "(storage_step cfg)\<^sup>*\<^sup>* s \<lparr>st_fs = fs2, st_db = db, st_jobs = js @ [after_commit st f cr]\<rparr>" by simp
    show ?thesis
    proof (cases "\<exists>p. cr = Returned p")
      case False
      then have "fs' = remove_file ?unl (tmp_path st) fs2" "db' = db" "after_commit st f cr = Removing (tmp_path st)"
        using res None com
        by (auto simp: lookup_hash_def repo_get_by_hash_def staged_discard_def after_commit_def split: tx_result.splits)
      with run_remove [where path = "tmp_path st" and unl = ?unl, OF _ unl(1)] committed show ?thesis by simp
    next
      case True
      then have cr: "cr = Returned (final_path st)"
        using staged_commit_cases [OF com x(1)] by auto
      obtain ir db2 where ins: "create_recording_and_task (w_clock w) (w_rec_id w) (w_task_id w) quiet (w_commit w) f
          (final_path st) (staged_size st) (staged_sha st) db = (ir, db2)" by force
      let ?v = "\<lparr>st_fs = fs2, st_db = db, st_jobs = js @ [Inserting (final_path st) st f]\<rparr>"
      have "storage_step cfg ?v (?v\<lparr>st_db := db2, st_jobs := js @ after_insert (final_path st) ir @ []\<rparr>)"
        by (rule storage_step.insertion [where ck = "w_clock w" and rid = "w_rec_id w" and tid = "w_task_id w", OF _ x(2)])
          (use ins in simp_all)
      with committed have inserted: "(storage_step cfg)\<^sup>*\<^sup>* s
          \<lparr>st_fs = fs2, st_db = db2, st_jobs = js @ after_insert (final_path st) ir\<rparr>"
        using run_step by (fastforce simp: cr after_commit_def)
      define keep where "keep = (case ir of Returned (_, _, created) \<Rightarrow> created | _ \<Rightarrow> False)"
      have "upload_answer ir (if keep then fs2 else remove_file ?unl (final_path st) fs2, db2, wk) = (res, fs', db', wk')"
        using res None com cr ins x(3,4)
        by (simp add: lookup_hash_def repo_get_by_hash_def create_keeping_def keep_def Let_def)
      note ans = upload_answer_state [OF this]
      show ?thesis
      proof (cases keep)
        case True
        then have "after_insert (final_path st) ir = []"
          by (auto simp: keep_def after_insert_def split: tx_result.splits)
        with inserted ans(1,2) True show ?thesis by simp
      next
        case False
        then have "after_insert (final_path st) ir = [Removing (final_path st)]"
          by (auto simp: keep_def after_insert_def split: tx_result.splits)
        with run_remove [where path = "final_path st" and unl = ?unl, OF _ unl(2)] inserted ans(1,2) False show ?thesis by simp
      qed
    qed
  qed
qed


definition sample_upload :: "(recording \<times> task \<times> bool) tx_result \<times> fs \<times> database \<times> worker_state option" where
  "sample_upload = upload sample_upload_cfg (sample_world Commit Commit) (asc ''a.wav'') (\<lambda>_. None, empty_db, None)"


text \<open>A state in which one recording is stored and a second upload is under way.\<close>

definition busy_storage :: storage where
  "busy_storage = \<lparr>st_fs = [part_path (asc ''/u'') 5 (asc ''.wav'') \<mapsto> [1, 2]], st_db = empty_db,
     st_jobs = [Staged \<lparr>tmp_path = part_path (asc ''/u'') 5 (asc ''.wav''),
      final_path = path_child (asc ''/u'') (uuid_hex 5 @ asc ''.wav''), staged_sha = asc ''ff'', staged_size = 2\<rparr> (asc ''a.wav'')]\<rparr>"


end
