(* ===== verification/Log_Calls.thy ===== *)
theory Log_Calls
  imports Logger_Properties
begin

text \<open>
  The calls of \<open>logger\<close> in the code as values: level, message, event and fields, the record
  loguru makes of one, and what is in the line of JSON that is written for it.  \<open>Worker_Logs\<close>,
  \<open>Service_Logs\<close> and \<open>Llm_Logs\<close> say which calls the components make.
\<close>

section \<open>Calls of the logger\<close>

record log_call =
  lc_level :: pstr
  lc_message :: pstr
  lc_event :: pstr
  lc_fields :: "(pstr \<times> json) list"
  lc_exc :: "exn option"

definition log_info :: "pstr \<Rightarrow> pstr \<Rightarrow> (pstr \<times> json) list \<Rightarrow> log_call" where
  "log_info m ev fs = \<lparr>lc_level = asc ''INFO'', lc_message = m, lc_event = ev, lc_fields = fs, lc_exc = None\<rparr>"

definition log_warning :: "pstr \<Rightarrow> pstr \<Rightarrow> (pstr \<times> json) list \<Rightarrow> log_call" where
  "log_warning m ev fs = \<lparr>lc_level = asc ''WARNING'', lc_message = m, lc_event = ev, lc_fields = fs, lc_exc = None\<rparr>"

definition log_error :: "pstr \<Rightarrow> pstr \<Rightarrow> (pstr \<times> json) list \<Rightarrow> log_call" where
  "log_error m ev fs = \<lparr>lc_level = asc ''ERROR'', lc_message = m, lc_event = ev, lc_fields = fs, lc_exc = None\<rparr>"

text \<open>\<open>logger.exception\<close>, in the handler of \<open>e\<close>.\<close>

definition log_exception :: "pstr \<Rightarrow> pstr \<Rightarrow> exn \<Rightarrow> log_call" where
  "log_exception m ev e = \<lparr>lc_level = asc ''ERROR'', lc_message = m, lc_event = ev, lc_fields = [], lc_exc = Some e\<rparr>"

text \<open>The record loguru makes of a call of \<open>get_logger(name)\<close>: keyword arguments go to \<open>extra\<close>.\<close>

definition call_record :: "pstr \<Rightarrow> (exn \<Rightarrow> log_exc) \<Rightarrow> time \<Rightarrow> log_call \<Rightarrow> log_record" where
  "call_record name describe t c =
     \<lparr>lg_time = t, lg_level = lc_level c, lg_name = name, lg_message = lc_message c,
      lg_extra = (asc ''name'', Val (JStr name)) # (asc ''event'', Val (JStr (lc_event c))) #
        map (\<lambda>(k, v). (k, Val v)) (lc_fields c),
      lg_exception = map_option describe (lc_exc c)\<rparr>"

text \<open>What a call gives for a field.\<close>

definition report :: "log_call \<Rightarrow> pstr \<Rightarrow> json option" where
  "report r k = map_of (lc_fields r) k"

section \<open>The context of a call\<close>

text \<open>Inside \<open>with log_context(task_id=..., recording_id=...)\<close>.\<close>

definition bound :: "uuid option \<Rightarrow> uuid option \<Rightarrow> log_ctx \<Rightarrow> log_ctx" where
  "bound task recording c =
     snd (enter_context [(RequestId, None), (TaskId, map_option uuid_str task),
            (RecordingId, map_option uuid_str recording)] c)"

lemma bound_vars [simp]:
  "bound task recording c RequestId = c RequestId"
  "bound task recording c WorkerId = c WorkerId"
  "bound (Some u) recording c TaskId = Some (uuid_str u)"
  "bound None recording c TaskId = c TaskId"
  "bound task (Some v) c RecordingId = Some (uuid_str v)"
  "bound task None c RecordingId = c RecordingId"
  by (simp_all add: bound_def bind_var_def split: option.splits)

lemma log_context_bound:
  "fst (log_context None (map_option uuid_str task) (map_option uuid_str recording) body c) =
     fst (body (bound task recording c))"
  by (simp add: log_context_def bound_def split: prod.splits)

section \<open>The line of a call\<close>

text \<open>The line of a call in the context it is made in.\<close>

definition call_line ::
  "(time \<Rightarrow> pstr) \<Rightarrow> (extra_val \<Rightarrow> pstr) \<Rightarrow> (exn \<Rightarrow> log_exc) \<Rightarrow> pstr list \<Rightarrow> log_ctx \<Rightarrow> pstr option \<Rightarrow>
     pstr \<Rightarrow> time \<Rightarrow> log_call \<Rightarrow> (pstr \<times> json) list" where
  "call_line iso_ts str describe active c inst name t r =
     log_doc iso_ts str (patcher active c inst (call_record name describe t r))"

text \<open>
  The ids of the context are in every line, unless the call gives that field itself, and so is
  the event.
\<close>

lemma ctx_fields_keys:
  assumes "(k, x) \<in> set (ctx_fields c inst)" and "set active \<subseteq> {asc ''json'', asc ''console'', asc ''plain''}"
  shows "k \<noteq> asc ''name''" and "k \<noteq> asc ''event''" and "k \<noteq> asc ''_exc''" and "k \<notin> render_key ` set active"
proof -
  have k: "k \<in> {asc ''request_id'', asc ''task_id'', asc ''recording_id'', asc ''worker_id'', asc ''instance_id''}"
    using assms(1) by (auto simp: ctx_fields_def)
  then show "k \<noteq> asc ''name''" "k \<noteq> asc ''event''" "k \<noteq> asc ''_exc''" by (auto simp: asc_inj)
  have "hd q = 95" if "q \<in> render_key ` set active" for q
    using that by (auto simp: render_key_def asc_def)
  moreover have "hd k \<noteq> 95" using k by (auto simp: asc_def)
  ultimately show "k \<notin> render_key ` set active" by blast
qed

lemma map_of_fields: "map_of (map (\<lambda>(k, v). (k, f v)) fs) k = map_option f (map_of fs k)"
  by (induction fs) auto

lemma call_line_ctx:
  assumes mem: "(k, x) \<in> set (ctx_fields c inst)" and act: "set active \<subseteq> {asc ''json'', asc ''console'', asc ''plain''}"
  shows "map_of (call_line iso_ts str describe active c inst name t r) k =
    Some (case map_of (lc_fields r) k of Some j \<Rightarrow> j | None \<Rightarrow> opt_json x)"
proof -
  let ?r = "call_record name describe t r"
  note key = ctx_fields_keys [OF mem act]
  have ext: "map_of (lg_extra ?r) k = map_option Val (map_of (lc_fields r) k)"
    using key(1,2) by (simp add: call_record_def map_of_fields)
  have "map_of (patch_extra c inst (lg_extra ?r)) k =
      Some (Val (case map_of (lc_fields r) k of Some j \<Rightarrow> j | None \<Rightarrow> opt_json x))"
  proof (cases "map_of (lc_fields r) k")
    case None
    with ext have "map_of (lg_extra ?r) k = None" by simp
    then have "k \<notin> fst ` set (lg_extra ?r)" by (simp only: map_of_eq_None_iff not_False_eq_True)
    from patch_ctx [OF mem this] None show ?thesis by simp
  next
    case (Some j)
    then show ?thesis using patch_keeps [of "lg_extra ?r" k "Val j" c inst] ext by simp
  qed
  then have "map_of (lg_extra (patcher active c inst ?r)) k =
      Some (Val (case map_of (lc_fields r) k of Some j \<Rightarrow> j | None \<Rightarrow> opt_json x))"
    using patcher_lookup [OF key(4,3)] by simp
  then have "get_json str k (lg_extra (patcher active c inst ?r)) =
      (case map_of (lc_fields r) k of Some j \<Rightarrow> j | None \<Rightarrow> opt_json x)"
    by (simp add: get_json_def dict_get_def to_json_def)
  with log_doc_ctx [OF mem] show ?thesis by (simp add: call_line_def)
qed

lemma call_line_event:
  assumes "set active \<subseteq> {asc ''json'', asc ''console'', asc ''plain''}"
  shows "map_of (call_line iso_ts str describe active c inst name t r) (asc ''event'') = Some (JStr (lc_event r))"
proof -
  let ?r = "call_record name describe t r"
  have "asc ''event'' \<notin> render_key ` set active" "asc ''event'' \<noteq> asc ''_exc''"
    using assms by (auto simp: render_key_def asc_def)
  note look = patcher_lookup [OF this]
  have "map_of (lg_extra ?r) (asc ''event'') = Some (Val (JStr (lc_event r)))"
    by (simp add: call_record_def asc_inj)
  then have "map_of (lg_extra (patcher active c inst ?r)) (asc ''event'') = Some (Val (JStr (lc_event r)))"
    using look patch_keeps by simp
  then show ?thesis
    by (simp add: call_line_def log_doc_def Let_def get_json_def dict_get_def to_json_def asc_inj)
qed

end
