(* ===== verification/Worker_Logs.thy ===== *)
theory Worker_Logs
  imports Executor_Properties Dispatcher_Properties Log_Calls
begin

text \<open>
  What the worker writes to the log: the calls of \<open>logger\<close> in \<open>api/worker/executor.py\<close> and
  \<open>api/worker/dispatcher.py\<close>, as values beside the steps that make them.  The trail of a task
  ends with the record of its outcome, what it reports is what the database holds, and each of
  its lines carries the id of the task.
\<close>

section \<open>Messages\<close>

text \<open>"the task does not exist, skipped".\<close>

definition msg_log_not_found :: pstr where
  [msg_defs]: "msg_log_not_found = [20219, 21153, 19981, 23384, 22312, 65292, 36339, 36807]"

text \<open>"the task's status or lease does not match, skipped".\<close>

definition msg_log_mismatch :: pstr where
  [msg_defs]: "msg_log_mismatch = [20219, 21153, 29366, 24577] @ asc ''/'' @ [31199, 32422, 19981,
     31526, 65292, 36339, 36807]"

text \<open>"task status changed".\<close>

definition msg_log_status :: pstr where
  [msg_defs]: "msg_log_status = [20219, 21153, 29366, 24577, 21464, 26356]"

text \<open>"task executed".\<close>

definition msg_log_done :: pstr where
  [msg_defs]: "msg_log_done = [20219, 21153, 25191, 34892, 25104, 21151]"

text \<open>"task cancelled".\<close>

definition msg_log_cancelled :: pstr where
  [msg_defs]: "msg_log_cancelled = [20219, 21153, 34987, 21462, 28040]"

text \<open>"lease lost, processing ends here".\<close>

definition msg_log_lease_lost :: pstr where
  [msg_defs]: "msg_log_lease_lost = [31199, 32422, 20002, 22833, 65292, 20013, 27490, 26412,
     26426, 22788, 29702]"

text \<open>"task processing failed".\<close>

definition msg_log_failed :: pstr where
  [msg_defs]: "msg_log_failed = [20219, 21153, 22788, 29702, 22833, 36133]"

text \<open>"the first renewal failed (the lease may be lost)".\<close>

definition msg_log_first_renew :: pstr where
  [msg_defs]: "msg_log_first_renew = [39318, 27425, 32493, 32422, 22833, 36133, 65288, 31199,
     32422, 21487, 33021, 24050, 20002, 22833, 65289]"

text \<open>"the renewal failed (the lease may be lost)".\<close>

definition msg_log_renew :: pstr where
  [msg_defs]: "msg_log_renew = [32493, 32422, 22833, 36133, 65288, 31199, 32422, 21487, 33021,
     24050, 20002, 22833, 65289]"

text \<open>"the failure was not booked (this worker may not hold the task any more)".\<close>

definition msg_log_not_applied :: pstr where
  [msg_defs]: "msg_log_not_applied = [22833, 36133, 22788, 29702, 26410, 29983, 25928, 65288,
     21487, 33021, 24050, 38750, 26412] @ asc '' worker '' @ [25345, 26377, 65289]"

text \<open>"task failed, will be retried after a pause".\<close>

definition msg_log_retry :: pstr where
  [msg_defs]: "msg_log_retry = [20219, 21153, 22833, 36133, 65292, 23558, 36864, 36991, 21518,
     37325, 35797]"

text \<open>"the task's retries are used up, marked failed".\<close>

definition msg_log_exhausted :: pstr where
  [msg_defs]: "msg_log_exhausted = [20219, 21153, 37325, 35797, 32791, 23613, 65292, 26631, 35760]
     @ asc '' failed''"

text \<open>"LLM summary generated".\<close>

definition msg_log_summarized :: pstr where
  [msg_defs]: "msg_log_summarized = asc ''LLM '' @ [25688, 35201, 29983, 25104, 25104, 21151]"

text \<open>"using the placeholder summary (WORKER_ALLOW_MOCK_LLM=true)".\<close>

definition msg_log_mock :: pstr where
  [msg_defs]: "msg_log_mock = [20351, 29992, 21344, 20301, 25688, 35201, 65288] @ asc
     ''WORKER_ALLOW_MOCK_LLM=true'' @ [65289]"

text \<open>"LLM placeholder summary generated".\<close>

definition msg_log_mocked :: pstr where
  [msg_defs]: "msg_log_mocked = asc ''LLM '' @ [21344, 20301, 25688, 35201, 29983, 25104, 25104,
     21151]"

text \<open>"graceful shutdown timed out, cancelled tasks reset to pending".\<close>

definition msg_log_aborted :: pstr where
  [msg_defs]: "msg_log_aborted = [20248, 38597, 20851, 38381, 36229, 26102, 65292, 37325, 32622,
     34987, 21462, 28040, 20219, 21153, 22238] @ asc '' pending''"

text \<open>"the dispatcher has taken tasks and schedules them".\<close>

definition msg_log_claimed :: pstr where
  [msg_defs]: "msg_log_claimed = [27966, 21457, 22120, 25289, 21462, 21040, 20219, 21153, 65292,
     24320, 22987, 35843, 24230]"

text \<open>"service restarted or lease expired, zombie tasks reset to pending".\<close>

definition msg_log_zombie :: pstr where
  [msg_defs]: "msg_log_zombie = [26381, 21153, 37325, 21551] @ asc ''/'' @ [31199, 32422, 36807,
     26399, 65292, 37325, 32622, 20725, 23608, 20219, 21153, 20026] @ asc '' pending''"

text \<open>"periodic recovery: tasks with expired leases reset to pending".\<close>

definition msg_log_expired :: pstr where
  [msg_defs]: "msg_log_expired = [21608, 26399, 22238, 25910, 65306, 37325, 32622, 36807, 26399,
     31199, 32422, 20219, 21153, 20026] @ asc '' pending''"

text \<open>"dispatcher exception".\<close>

definition msg_log_dispatcher :: pstr where
  [msg_defs]: "msg_log_dispatcher = [27966, 21457, 22120, 24322, 24120]"

section \<open>The executor's calls\<close>

definition log_not_found :: log_call where
  "log_not_found = log_warning msg_log_not_found (asc ''task.skipped'') [(asc ''reason'', JStr (asc ''not_found''))]"

definition log_mismatch :: "task \<Rightarrow> log_call" where
  "log_mismatch t = log_warning msg_log_mismatch (asc ''task.skipped'')
     [(asc ''reason'', JStr (asc ''status_or_lease_mismatch'')), (asc ''status'', JStr (status_value (status t))),
      (asc ''locked_by'', opt_json (locked_by t))]"

definition log_status :: "TaskStatus \<Rightarrow> TaskStatus \<Rightarrow> log_call" where
  "log_status a b = log_info msg_log_status (asc ''task.status_changed'')
     [(asc ''status_from'', JStr (status_value a)), (asc ''status_to'', JStr (status_value b))]"

definition log_done :: "pstr \<Rightarrow> log_call" where
  "log_done ms = log_info msg_log_done (asc ''task.done'')
     [(asc ''status'', JStr (status_value DONE)), (asc ''duration_ms'', JFloat ms)]"

definition log_cancelled :: log_call where
  "log_cancelled = log_info msg_log_cancelled (asc ''task.cancelled'') []"

definition log_lease_lost :: log_call where
  "log_lease_lost = log_warning msg_log_lease_lost (asc ''task.lease_lost'') []"

definition log_failed :: "exn \<Rightarrow> log_call" where
  "log_failed e = log_exception msg_log_failed (asc ''task.failed'') e"

definition log_first_renew :: log_call where
  "log_first_renew = log_warning msg_log_first_renew (asc ''task.lease_renew_failed'') []"

definition log_renew :: log_call where
  "log_renew = log_warning msg_log_renew (asc ''task.lease_renew_failed'') []"

text \<open>\<open>_handle_task_failure\<close>.\<close>

definition log_not_applied :: log_call where
  "log_not_applied = log_warning msg_log_not_applied (asc ''task.failure_not_applied'') []"

definition log_retry :: "exec_cfg \<Rightarrow> int \<Rightarrow> pstr \<Rightarrow> log_call" where
  "log_retry cfg n msg = log_warning msg_log_retry (asc ''task.retry_scheduled'')
     [(asc ''attempt'', JInt n), (asc ''max_attempts'', JInt (max_retries cfg + 1)),
      (asc ''delay_seconds'', JInt (2 ^ nat n)), (asc ''error'', JDict [(asc ''message'', JStr (take 200 msg))])]"

definition log_exhausted :: "exec_cfg \<Rightarrow> int \<Rightarrow> pstr \<Rightarrow> log_call" where
  "log_exhausted cfg n msg = log_error msg_log_exhausted (asc ''task.failed'')
     [(asc ''attempt'', JInt n), (asc ''max_attempts'', JInt (max_retries cfg + 1)),
      (asc ''error'', JDict [(asc ''message'', JStr (take 500 msg))])]"

definition failure_logs :: "exec_cfg \<Rightarrow> pstr \<Rightarrow> (int \<times> TaskStatus) option \<Rightarrow> log_call list" where
  "failure_logs cfg msg row =
     (case row of
        None \<Rightarrow> [log_not_applied]
      | Some (n, st) \<Rightarrow> (if st = PENDING then [log_retry cfg n msg] else [log_exhausted cfg n msg]))"

text \<open>\<open>_summarize\<close>: the placeholder is announced when it starts.\<close>

definition log_summarized :: "pstr \<Rightarrow> log_call" where
  "log_summarized ms = log_info msg_log_summarized (asc ''llm.summarize.done'') [(asc ''duration_ms'', JFloat ms)]"

definition log_mock :: log_call where
  "log_mock = log_warning msg_log_mock (asc ''llm.summarize.mock'') []"

definition log_mocked :: "pstr \<Rightarrow> log_call" where
  "log_mocked ms = log_info msg_log_mocked (asc ''llm.summarize.mock.done'') [(asc ''duration_ms'', JFloat ms)]"

text \<open>\<open>reset_aborted\<close>.\<close>

definition reset_logs :: "int \<Rightarrow> log_call list" where
  "reset_logs n = (if n = 0 then []
     else [log_warning msg_log_aborted (asc ''worker.reset_aborted'') [(asc ''count'', JInt n)]])"

section \<open>The calls of a step\<close>

text \<open>
  What a step does not determine: whether the code before the \<open>await\<close> that failed was reached
  (the body of the first transaction logs before its commit, and a coroutine cancelled before it
  first runs logs nothing), and the printed duration.
\<close>

record log_io =
  li_reached :: bool
  li_ms :: pstr

definition tx_end_logs :: "tx \<Rightarrow> log_call list" where
  "tx_end_logs x = (case x of Commit \<Rightarrow> [] | Abort _ e \<Rightarrow> [log_failed e] | CancelTx _ \<Rightarrow> [log_cancelled])"

definition fetch_logs :: "exec_cfg \<Rightarrow> task option \<Rightarrow> log_call list" where
  "fetch_logs cfg t =
     (case t of
        None \<Rightarrow> [log_not_found]
      | Some t \<Rightarrow> (if status t \<noteq> TRANSCRIBING \<or> locked_by t \<noteq> Some (worker_id cfg) then [log_mismatch t] else []))"

definition mock_start_logs :: "exec_cfg \<Rightarrow> log_call list" where
  "mock_start_logs cfg = (if \<not> has_summarizer cfg \<and> allow_mock_llm cfg then [log_mock] else [])"

definition exec_tx_logs :: "exec_cfg \<Rightarrow> clock \<Rightarrow> log_io \<Rightarrow> tx \<Rightarrow> database \<Rightarrow> exec_state \<Rightarrow> log_call list" where
  "exec_tx_logs cfg ck io x db e =
     (case ex_pc e of
        Fetch \<Rightarrow>
          (if x = Commit \<or> li_reached io then fetch_logs cfg (get_by_id db (ex_task e)) else []) @ tx_end_logs x
      | FirstRenew rid \<Rightarrow>
          (if x = Commit
           then (if fst (renew_lease ck (ex_task e) (worker_id cfg) (lease_seconds cfg) db)
                 then (if lease_lost e then [log_lease_lost] else [])
                 else [log_first_renew, log_lease_lost])
           else tx_end_logs x)
      | ReadRecording rid \<Rightarrow>
          (if x = Commit
           then (case recording_get_by_id db rid of
                   None \<Rightarrow> [log_failed (RuntimeError (msg_recording_missing (ex_task e) rid))] | Some r \<Rightarrow> [])
           else tx_end_logs x)
      | MarkSummarizing tr \<Rightarrow>
          (if x = Commit
           then (if fst (mark_summarizing ck (ex_task e) (worker_id cfg) tr db)
                 then log_status TRANSCRIBING SUMMARIZING #
                   (if lease_lost e then [log_lease_lost] else mock_start_logs cfg)
                 else [log_lease_lost])
           else tx_end_logs x)
      | MarkDone sm \<Rightarrow>
          (if x = Commit
           then (if fst (mark_done ck (ex_task e) (worker_id cfg) sm db)
                 then [log_status SUMMARIZING DONE, log_done (li_ms io)] else [log_lease_lost])
           else tx_end_logs x)
      | HandleFailure msg \<Rightarrow>
          (if x = Commit
           then failure_logs cfg msg (fst (mark_failure ck (ex_task e) (worker_id cfg) msg (max_retries cfg) db))
           else [])
      | _ \<Rightarrow> [])"

definition exec_asr_logs :: "exn + pstr \<Rightarrow> exec_state \<Rightarrow> log_call list" where
  "exec_asr_logs r e =
     (case ex_pc e of Transcribe path \<Rightarrow> (case r of Inl ex \<Rightarrow> [log_failed ex] | Inr tr \<Rightarrow> []) | _ \<Rightarrow> [])"

definition exec_summary_logs :: "exec_cfg \<Rightarrow> log_io \<Rightarrow> exn + json \<Rightarrow> exec_state \<Rightarrow> log_call list" where
  "exec_summary_logs cfg io r e =
     (case ex_pc e of
        Summarize tr \<Rightarrow>
          (case summarize_result cfg r of
             Inl ex \<Rightarrow> [log_failed ex]
           | Inr sm \<Rightarrow> [if has_summarizer cfg then log_summarized (li_ms io) else log_mocked (li_ms io)])
      | _ \<Rightarrow> [])"

definition exec_renew_logs :: "exec_cfg \<Rightarrow> clock \<Rightarrow> tx \<Rightarrow> database \<Rightarrow> exec_state \<Rightarrow> log_call list" where
  "exec_renew_logs cfg ck x db e =
     (if \<not> renewing e \<or> x \<noteq> Commit \<or>
         fst (renew_lease ck (ex_task e) (worker_id cfg) (lease_seconds cfg) db) then []
      else log_renew # (if leased_work (ex_pc e) then [log_lease_lost] else []))"

text \<open>A cancellation in the handler of another exception is not seen by \<open>except CancelledError\<close>.\<close>

definition exec_cancel_logs :: "log_io \<Rightarrow> exec_state \<Rightarrow> log_call list" where
  "exec_cancel_logs io e =
     (case ex_pc e of
        Exited _ \<Rightarrow> [] | HandleFailure _ \<Rightarrow> []
      | Fetch \<Rightarrow> (if li_reached io then [log_cancelled] else [])
      | _ \<Rightarrow> [log_cancelled])"

definition exec_logs :: "exec_cfg \<Rightarrow> clock \<Rightarrow> log_io \<Rightarrow> event \<Rightarrow> database \<Rightarrow> exec_state \<Rightarrow> log_call list" where
  "exec_logs cfg ck io ev db e =
     (case ev of
        Tx x \<Rightarrow> exec_tx_logs cfg ck io x db e
      | AsrResult r \<Rightarrow> exec_asr_logs r e
      | SummaryResult r \<Rightarrow> exec_summary_logs cfg io r e
      | RenewTick x \<Rightarrow> exec_renew_logs cfg ck x db e
      | Cancel \<Rightarrow> exec_cancel_logs io e)"

text \<open>The log of a run of \<open>process\<close>.\<close>

type_synonym logged_event = "log_io \<times> clock \<times> (database \<Rightarrow> database) \<times> event"

fun exec_trail :: "exec_cfg \<Rightarrow> logged_event list \<Rightarrow> database \<times> exec_state \<Rightarrow> log_call list" where
  "exec_trail cfg [] s = []"
| "exec_trail cfg ((io, ck, env, ev) # evs) s =
     exec_logs cfg ck io ev (env (fst s)) (snd s) @
     exec_trail cfg evs (exec_step cfg ck ev (env (fst s), snd s))"

section \<open>The dispatcher's calls\<close>

text \<open>Each with the task id it is bound to, if any: \<open>_schedule_task\<close> binds it before it logs.\<close>

definition recover_logs :: "bool \<Rightarrow> int \<Rightarrow> log_call list" where
  "recover_logs include_own n =
     (if n = 0 then []
      else [if include_own then log_warning msg_log_zombie (asc ''worker.recover.zombie'') [(asc ''count'', JInt n)]
            else log_warning msg_log_expired (asc ''worker.recover.expired_lease'') [(asc ''count'', JInt n)]])"

definition log_claimed :: "uuid list \<Rightarrow> log_call" where
  "log_claimed ids = log_info msg_log_claimed (asc ''dispatcher.claimed'')
     [(asc ''count'', JInt (int (length ids))), (asc ''task_ids'', JList (map (\<lambda>i. JStr (uuid_str i)) ids))]"

definition schedule_log :: "uuid \<Rightarrow> uuid option \<times> log_call" where
  "schedule_log tid = (Some tid, log_status PENDING TRANSCRIBING)"

definition reclaim_logs :: "disp_cfg \<Rightarrow> clock \<Rightarrow> bool \<Rightarrow> database \<Rightarrow> (uuid option \<times> log_call) list" where
  "reclaim_logs cfg ck do_reclaim db =
     (if do_reclaim
      then map (Pair None) (recover_logs False (fst (reclaim_in_flight ck (worker_id (exec_of cfg)) False msg_expired db)))
      else [])"

definition loop_claim_logs ::
  "disp_cfg \<Rightarrow> clock \<Rightarrow> time \<Rightarrow> (uuid \<Rightarrow> bool) \<Rightarrow> tx \<Rightarrow> log_io \<Rightarrow> database \<times> worker_state \<Rightarrow>
     (uuid option \<times> log_call) list" where
  "loop_claim_logs cfg ck mt lk x io s =
     (case d_pc (snd s) of
        Claiming b \<Rightarrow>
          (let do_reclaim = reclaim_due cfg mt (snd s);
               inner = (if x = Commit \<or> li_reached io then reclaim_logs cfg ck do_reclaim (fst s) else []);
               ids = fst (claim_body cfg ck lk do_reclaim b (fst s))
           in inner @
             (case x of
                Commit \<Rightarrow> (if ids = [] then [] else (None, log_claimed ids) # map schedule_log ids)
              | Abort _ e \<Rightarrow> [(None, log_exception msg_log_dispatcher (asc ''dispatcher.error'') e)]
              | CancelTx _ \<Rightarrow> []))
      | _ \<Rightarrow> [])"

text \<open>The context a coroutine is created in: the dispatcher's, with the task bound.\<close>

definition child_ctx :: "uuid \<Rightarrow> log_ctx \<Rightarrow> log_ctx" where
  "child_ctx tid c = snd (bind_var TaskId (Some (uuid_str tid)) c)"

text \<open>\<open>process\<close> binds it again, and resets to what it found.\<close>

definition process_ctx :: "uuid \<Rightarrow> log_ctx \<Rightarrow> log_ctx" where
  "process_ctx tid c = snd (bind_var TaskId (Some (uuid_str tid)) (child_ctx tid c))"

section \<open>The record of the outcome\<close>

definition closes :: "exec_cfg \<Rightarrow> outcome \<Rightarrow> log_call list \<Rightarrow> bool" where
  "closes cfg out tr \<longleftrightarrow>
     (case out of
        NotFound \<Rightarrow> tr \<noteq> [] \<and> last tr = log_not_found
      | Mismatch \<Rightarrow> tr \<noteq> [] \<and> (\<exists>t. last tr = log_mismatch t)
      | LostLease \<Rightarrow> tr \<noteq> [] \<and> last tr = log_lease_lost
      | Completed \<Rightarrow> tr \<noteq> [] \<and> (\<exists>ms. last tr = log_done ms)
      | Failed n st \<Rightarrow> tr \<noteq> [] \<and>
          (\<exists>msg. last tr = (if st = PENDING then log_retry cfg n msg else log_exhausted cfg n msg))
      | FailureNotApplied \<Rightarrow> tr \<noteq> [] \<and> last tr = log_not_applied
      | Crashed ex \<Rightarrow> tr \<noteq> [] \<and> (\<exists>e. last tr = log_failed e)
      | Cancelled \<Rightarrow> tr = [] \<or> last tr = log_cancelled \<or> (\<exists>e. last tr = log_failed e))"

text \<open>The trail so far fits the program point.\<close>

definition trail_fits :: "exec_cfg \<Rightarrow> exec_state \<Rightarrow> log_call list \<Rightarrow> bool" where
  "trail_fits cfg e tr \<longleftrightarrow>
     (case ex_pc e of
        Exited out \<Rightarrow> closes cfg out tr
      | HandleFailure _ \<Rightarrow> tr \<noteq> [] \<and> (\<exists>ex. last tr = log_failed ex)
      | Fetch \<Rightarrow> tr = [] \<and> \<not> renewing e
      | _ \<Rightarrow> True)"

lemmas logs_defs =
  exec_logs_def exec_tx_logs_def exec_asr_logs_def exec_summary_logs_def exec_renew_logs_def exec_cancel_logs_def
  fetch_logs_def tx_end_logs_def failure_logs_def

text \<open>Every step, at each program point.\<close>

lemma trail_tx:
  assumes "trail_fits cfg e tr"
  shows "trail_fits cfg (snd (exec_step cfg ck (Tx x) (db, e))) (tr @ exec_logs cfg ck io (Tx x) db e)"
  using assms
  by (cases "ex_pc e"; cases x)
    (auto simp: trail_fits_def closes_def exec_defs logs_defs split: option.splits prod.splits)

lemma trail_renew:
  assumes "trail_fits cfg e tr" and "exec_ok e"
  shows "trail_fits cfg (snd (exec_step cfg ck (RenewTick x) (db, e))) (tr @ exec_logs cfg ck io (RenewTick x) db e)"
  using assms
  by (cases "ex_pc e"; cases x)
    (auto simp: trail_fits_def closes_def exec_ok_def exec_defs logs_defs leased_work_def)

lemma trail_answer:
  assumes "trail_fits cfg e tr" and "ev = AsrResult q \<or> ev = SummaryResult r \<or> ev = Cancel"
  shows "trail_fits cfg (snd (exec_step cfg ck ev (db, e))) (tr @ exec_logs cfg ck io ev db e)"
  using assms
  by (cases "ex_pc e") (auto simp: trail_fits_def closes_def exec_defs logs_defs split: sum.splits)

lemma trail_step:
  assumes "trail_fits cfg e tr" and "exec_ok e"
  shows "trail_fits cfg (snd (exec_step cfg ck ev (db, e))) (tr @ exec_logs cfg ck io ev db e)"
  using assms trail_tx trail_renew trail_answer by (cases ev) auto

lemma trail_run:
  assumes "trail_fits cfg (snd s) tr" and "exec_ok (snd s)"
  shows "trail_fits cfg (snd (exec_run cfg (map snd evs) s)) (tr @ exec_trail cfg evs s)"
  using assms
proof (induction evs arbitrary: s tr)
  case (Cons a evs)
  obtain io ck env ev where a: "a = (io, ck, env, ev)" by (cases a)
  show ?case
    using Cons.IH [OF trail_step [OF Cons.prems, of ck ev "env (fst s)" io] exec_ok_step [OF Cons.prems(2)]]
    by (simp add: a)
qed simp

section \<open>The lines of a trail\<close>

text \<open>No call of the executor sets a field that the context or the formatter fills in.\<close>

definition plain_fields :: "log_call \<Rightarrow> bool" where
  "plain_fields r \<longleftrightarrow> asc ''task_id'' \<notin> fst ` set (lc_fields r)"

lemmas call_defs =
  log_info_def log_warning_def log_error_def log_exception_def log_not_found_def log_mismatch_def
  log_status_def log_done_def log_cancelled_def log_lease_lost_def log_failed_def log_first_renew_def
  log_renew_def log_not_applied_def log_retry_def log_exhausted_def log_summarized_def log_mock_def log_mocked_def

lemma plain_calls [simp]:
  "plain_fields log_not_found" "plain_fields (log_mismatch t)" "plain_fields (log_status a b)"
  "plain_fields (log_done ms)" "plain_fields log_cancelled" "plain_fields log_lease_lost"
  "plain_fields (log_failed e)" "plain_fields log_first_renew" "plain_fields log_renew"
  "plain_fields log_not_applied" "plain_fields (log_retry cfg n msg)" "plain_fields (log_exhausted cfg n msg)"
  "plain_fields (log_summarized ms)" "plain_fields log_mock" "plain_fields (log_mocked ms)"
  by (simp_all add: plain_fields_def call_defs) (simp_all add: asc_def)

lemma plain_step: "list_all plain_fields (exec_logs cfg ck io ev db e)"
  by (auto simp: logs_defs mock_start_logs_def
      split: event.splits pc.splits tx.splits option.splits sum.splits prod.splits)

lemma plain_trail: "list_all plain_fields (exec_trail cfg evs s)"
proof (induction evs arbitrary: s)
  case (Cons a evs)
  then show ?case by (cases a) (simp add: plain_step)
qed simp

lemma call_line_task:
  assumes "plain_fields r" and "set active \<subseteq> {asc ''json'', asc ''console'', asc ''plain''}"
  shows "map_of (call_line iso_ts str describe active (process_ctx tid c) inst name t r) (asc ''task_id'') =
      Some (JStr (uuid_str tid))"
proof -
  have "(asc ''task_id'', Some (uuid_str tid)) \<in> set (ctx_fields (process_ctx tid c) inst)"
    by (simp add: ctx_fields_def process_ctx_def bind_var_def)
  moreover have "map_of (lc_fields r) (asc ''task_id'') = None"
    using assms(1) by (simp add: plain_fields_def map_of_eq_None_iff)
  ultimately show ?thesis
    using call_line_ctx [OF _ assms(2)] by (fastforce simp: opt_json_def)
qed



section \<open>What the records report\<close>

text \<open>
  The fields that report the state of the task: the status it has got, how often it has been
  attempted, and after how many seconds it is due again.
\<close>

definition reports :: "log_call \<Rightarrow> bool" where
  "reports r \<longleftrightarrow> report r (asc ''status_to'') \<noteq> None \<or> report r (asc ''attempt'') \<noteq> None"

definition report_true :: "clock \<Rightarrow> log_call \<Rightarrow> task \<Rightarrow> bool" where
  "report_true ck r t \<longleftrightarrow>
     report r (asc ''status_to'') \<in> {None, Some (JStr (status_value (status t)))} \<and>
     report r (asc ''attempt'') \<in> {None, Some (JInt (retry_count t))} \<and>
     (case report r (asc ''delay_seconds'') of
        None \<Rightarrow> report r (asc ''attempt'') \<noteq> None \<longrightarrow> status t = FAILED
      | Some d \<Rightarrow> status t = PENDING \<and>
          (\<exists>n. d = JInt n \<and> next_retry_at t = sql_utc_now ck + seconds n))"

lemma silent_calls [simp]:
  "\<not> reports log_not_found" "\<not> reports (log_mismatch t)" "\<not> reports (log_done ms)" "\<not> reports log_cancelled"
  "\<not> reports log_lease_lost" "\<not> reports (log_failed e)" "\<not> reports log_first_renew" "\<not> reports log_renew"
  "\<not> reports log_not_applied" "\<not> reports (log_summarized ms)" "\<not> reports log_mock" "\<not> reports (log_mocked ms)"
  by (simp_all add: reports_def report_def call_defs) (simp_all add: asc_def)

lemma report_status [simp]:
  "report_true ck (log_status a b) t \<longleftrightarrow> status_value b = status_value (status t)"
  by (simp add: report_true_def report_def call_defs) (auto simp: asc_def)

lemma report_retry [simp]:
  "report_true ck (log_retry cfg n msg) t \<longleftrightarrow>
     n = retry_count t \<and> status t = PENDING \<and> next_retry_at t = sql_utc_now ck + seconds (2 ^ nat n)"
  by (simp add: report_true_def report_def call_defs) (auto simp: asc_def)

lemma report_exhausted [simp]:
  "report_true ck (log_exhausted cfg n msg) t \<longleftrightarrow> n = retry_count t \<and> status t = FAILED"
  by (simp add: report_true_def report_def call_defs) (auto simp: asc_def)

lemma failure_logs_true:
  assumes ok: "db_ok M db" and own: "owns db (worker_id cfg) tid"
    and r: "r \<in> set (failure_logs cfg msg (fst (mark_failure ck tid (worker_id cfg) msg (max_retries cfg) db)))"
  shows "\<exists>t. get_by_id (snd (mark_failure ck tid (worker_id cfg) msg (max_retries cfg) db)) tid = Some t \<and>
    report_true ck r t"
proof -
  obtain t where t: "get_by_id db tid = Some t" "locked_by t = Some (worker_id cfg)"
    using own by (auto simp: owns_def split: option.splits)
  have "task_id t = tid" using get_by_id_SomeD [OF t(1)] by simp
  then have "get_by_id (snd (mark_failure ck tid (worker_id cfg) msg (max_retries cfg) db)) tid =
      Some (failure_set ck msg (max_retries cfg) t)"
    using t by (simp add: get_by_id_failure owner_guard_def)
  moreover have "fst (mark_failure ck tid (worker_id cfg) msg (max_retries cfg) db) =
      Some (retry_count t + 1, if retry_count t + 1 \<le> max_retries cfg then PENDING else FAILED)"
    using t by (simp add: mark_failure_result [OF ok])
  ultimately show ?thesis
    using r by (auto simp: failure_logs_def failure_set_def Let_def make_interval_secs_def split: if_splits)
qed

lemma mark_logs_true:
  assumes ok: "db_ok M db"
  shows "fst (mark_summarizing ck tid w tr db) \<Longrightarrow>
      \<exists>t. get_by_id (snd (mark_summarizing ck tid w tr db)) tid = Some t \<and> status t = SUMMARIZING"
    and "fst (mark_done ck tid w sm db) \<Longrightarrow>
      \<exists>t. get_by_id (snd (mark_done ck tid w sm db)) tid = Some t \<and> status t = DONE \<and> summary t = Some sm"
  using get_by_id_SomeD [of db tid]
  by (auto simp: mark_summarizing_result [OF ok] mark_done_result [OF ok] owns_def get_by_id_summarizing
      get_by_id_done owner_guard_def summarizing_set_def done_set_def split: option.splits)

text \<open>C16.
  What the log reports is true.  Whenever a step of \<open>process\<close> logs a new status, an attempt or a
  pause, the database it leaves behind holds a row of the task with exactly that status, that
  number of failures and that time of the next attempt, and a reported attempt without a pause
  means that the task has failed for good.
\<close>

theorem records_true:
  assumes ok: "db_ok M db" and step: "exec_step cfg ck ev (db, e) = (db', e')"
    and r: "r \<in> set (exec_logs cfg ck io ev db e)" and rep: "reports r"
  shows "\<exists>t. get_by_id db' (ex_task e) = Some t \<and> report_true ck r t"
proof -
  have "ev = Tx Commit"
    using r rep by (auto simp: logs_defs split: event.splits pc.splits tx.splits option.splits sum.splits if_splits)
  note step = step [unfolded this] and r = r [unfolded this]
  consider tr where "ex_pc e = MarkSummarizing tr" | sm where "ex_pc e = MarkDone sm" | msg where "ex_pc e = HandleFailure msg"
    using r rep by (cases "ex_pc e") (auto simp: logs_defs split: option.splits if_splits)
  then show ?thesis
  proof cases
    case 1
    then have "fst (mark_summarizing ck (ex_task e) (worker_id cfg) tr db)" "status_value SUMMARIZING = status_value SUMMARIZING"
      "r = log_status TRANSCRIBING SUMMARIZING"
      using r rep by (auto simp: logs_defs mock_start_logs_def split: if_splits)
    moreover have "db' = snd (mark_summarizing ck (ex_task e) (worker_id cfg) tr db)"
      using step 1 by (simp add: exec_defs split: if_splits)
    ultimately show ?thesis using mark_logs_true(1) [OF ok] by fastforce
  next
    case 2
    then have "fst (mark_done ck (ex_task e) (worker_id cfg) sm db)" "r = log_status SUMMARIZING DONE"
      using r rep by (auto simp: logs_defs split: if_splits)
    moreover have "db' = snd (mark_done ck (ex_task e) (worker_id cfg) sm db)"
      using step 2 by (simp add: exec_defs split: if_splits)
    ultimately show ?thesis using mark_logs_true(2) [OF ok] by fastforce
  next
    case 3
    then have m: "r \<in> set (failure_logs cfg msg (fst (mark_failure ck (ex_task e) (worker_id cfg) msg (max_retries cfg) db)))"
      using r by (simp add: exec_logs_def exec_tx_logs_def)
    then have "owns db (worker_id cfg) (ex_task e)"
      using rep mark_failure_not_owned [OF ok] by (cases "owns db (worker_id cfg) (ex_task e)") (auto simp: failure_logs_def)
    moreover have "db' = snd (mark_failure ck (ex_task e) (worker_id cfg) msg (max_retries cfg) db)"
      using step 3 by (auto simp: exec_defs split: option.splits prod.splits)
    ultimately show ?thesis using failure_logs_true [OF ok _ m] by blast
  qed
qed

text \<open>A failure of the sample task that is booked for a second attempt.\<close>

theorem records_true_witness:
  "\<exists>t. get_by_id (fst (exec_step sample_cfg ck0 (Tx Commit)
       (sample_db, (start_exec 13)\<lparr>ex_pc := HandleFailure (asc ''no'')\<rparr>))) 13 = Some t \<and>
     report_true ck0 (log_retry sample_cfg (retry_count busy_task + 1) (asc ''no'')) t"
proof -
  let ?e = "(start_exec 13)\<lparr>ex_pc := HandleFailure (asc ''no'')\<rparr>"
  have row: "get_by_id sample_db 13 = Some busy_task" "locked_by busy_task = Some (worker_id sample_cfg)"
    "retry_count busy_task + 1 \<le> max_retries sample_cfg"
    using sample_get(3) by (simp_all add: sample_cfg_def busy_task_def sample_task_def new_task_def)
  have mem: "log_retry sample_cfg (retry_count busy_task + 1) (asc ''no'')
      \<in> set (exec_logs sample_cfg ck0 \<lparr>li_reached = True, li_ms = []\<rparr> (Tx Commit) sample_db ?e)"
    using row by (simp add: exec_logs_def exec_tx_logs_def start_exec_def mark_failure_result [OF sample_db_ok] failure_logs_def)
  have rep: "reports (log_retry sample_cfg (retry_count busy_task + 1) (asc ''no''))"
    by (simp add: reports_def report_def call_defs)
  have t: "ex_task ?e = 13" by (simp add: start_exec_def)
  show ?thesis
    using records_true [OF sample_db_ok prod.collapse [symmetric] mem rep] by (simp add: t)
qed

section \<open>The dispatcher\<close>

text \<open>
  A claim that is logged: the list names the tasks the loop schedules, in that order, and each
  \<open>status_changed\<close> record names, and is bound to, a task whose row has become
  \<open>transcribing\<close> under this worker's lock.
\<close>

lemma claim_logs_true:
  assumes "db_ok M db" and "(Some tid, r) \<in> set (loop_claim_logs cfg ck mt lk x io (db, ws))"
    and "loop_claim cfg ck mt lk x (db, ws) = (db', ws')"
  shows "r = log_status PENDING TRANSCRIBING \<and>
    (\<exists>t. get_by_id db' tid = Some t \<and> status t = TRANSCRIBING \<and> locked_by t = Some (worker_id (exec_of cfg))) \<and>
    (\<exists>i. map_of (running ws') (uuid_str tid) = Some i \<and> procs ws' ! i = start_exec tid) \<and>
    (\<exists>ids. tid \<in> set ids \<and> (None, log_claimed ids) \<in> set (loop_claim_logs cfg ck mt lk x io (db, ws)))"
proof -
  obtain b where b: "d_pc ws = Claiming b"
    using assms(2) by (cases "d_pc ws") (simp_all add: loop_claim_logs_def)
  define ids where "ids = fst (claim_body cfg ck lk (reclaim_due cfg mt ws) b db)"
  have x: "x = Commit" and tid: "tid \<in> set ids" and r: "r = log_status PENDING TRANSCRIBING"
    using assms(2) b by (auto simp: loop_claim_logs_def reclaim_logs_def schedule_log_def ids_def Let_def
        split: tx.splits if_splits)
  then obtain k where k: "k < length ids" "ids ! k = tid" by (auto simp: in_set_conv_nth)
  have "ids \<noteq> []" using tid by auto
  then have lc: "db' = snd (claim_body cfg ck lk (reclaim_due cfg mt ws) b db)"
    "ws' = (fold schedule_task ids (if reclaim_due cfg mt ws then ws\<lparr>last_reclaim_at := mt\<rparr> else ws))\<lparr>d_pc := LoopTop\<rparr>"
    using loop_claim_commit [OF b ids_def] assms(3) x by simp_all
  have "\<exists>t. get_by_id db' tid = Some t \<and> status t = TRANSCRIBING \<and> locked_by t = Some (worker_id (exec_of cfg))"
    using claim_body_row [OF assms(1)] tid unfolding ids_def lc(1) by blast
  moreover have "\<exists>i. map_of (running ws') (uuid_str tid) = Some i \<and> procs ws' ! i = start_exec tid"
    using running_schedule [OF distinct_claim_body [OF assms(1)], of k cfg ck lk "reclaim_due cfg mt ws" b,
        folded ids_def] k by (auto simp: lc(2) nth_append)
  moreover have "(None, log_claimed ids) \<in> set (loop_claim_logs cfg ck mt lk x io (db, ws))"
    using b x \<open>ids \<noteq> []\<close> by (simp add: loop_claim_logs_def Let_def ids_def)
  ultimately show ?thesis using r tid by blast
qed

end
