(* ===== verification/Wiring.thy ===== *)
theory Wiring
  imports Application_Properties Schema_Properties
begin

text \<open>
  The edges of the program: the engine and the request session of \<open>api/core/db/db_connector.py\<close>,
  the migrations at the start (\<open>api/core/db/migrate.py\<close>, \<open>alembic/env.py\<close>), and the accessors of
  \<open>api/depends\<close>.  Which revisions are pending is Alembic's decision, an argument; how SQLAlchemy
  connects and commits is the environment's.
\<close>

section \<open>The engine and the request session\<close>

record engine_cfg =
  en_url :: pstr
  en_pool_size :: int
  en_pool_timeout :: time
  en_pre_ping :: bool

definition build_engine :: "settings \<Rightarrow> engine_cfg" where
  "build_engine s = \<lparr>en_url = DATABASE_URL s, en_pool_size = POOL_SIZE s, en_pool_timeout = POOL_TIMEOUT s,
     en_pre_ping = True\<rparr>"

text \<open>
  \<open>get_async_session\<close>: the body is the code of the request between the \<open>yield\<close> and its return.
  An exception rolls back and is raised again; a cancellation is no \<open>Exception\<close>, and the session
  is closed without a commit.
\<close>

definition get_async_session ::
  "(database \<Rightarrow> 'a tx_result \<times> database) \<Rightarrow> tx \<Rightarrow> database \<Rightarrow> 'a tx_result \<times> database" where
  "get_async_session body x db =
     (case body db of
        (Returned v, db') \<Rightarrow> task_tx x (\<lambda>_. (v, db')) db
      | (Raised e, _) \<Rightarrow> (Raised e, db)
      | (TxCancelled, _) \<Rightarrow> (TxCancelled, db))"

section \<open>The migrations\<close>

record alembic_cfg =
  ac_ini :: pstr
  ac_script_location :: pstr
  ac_revision :: pstr

definition alembic_config :: "pstr \<Rightarrow> pstr \<Rightarrow> alembic_cfg" where
  "alembic_config root revision = \<lparr>ac_ini = path_child root (asc ''alembic.ini''),
     ac_script_location = path_child root (asc ''alembic''), ac_revision = revision\<rparr>"

text \<open>
  The connection, the revisions Alembic finds pending for a configuration, the exception the
  server raises for a refused operation, how the one transaction ends, and the disposal of the
  engine.
\<close>

record migration_io =
  mi_connect :: "exn option"
  mi_pending :: "alembic_cfg \<Rightarrow> (schema \<Rightarrow> schema option) list"
  mi_refused :: exn
  mi_commit :: tx
  mi_dispose :: "exn option"

definition do_run_migrations :: "migration_io \<Rightarrow> alembic_cfg \<Rightarrow> schema \<Rightarrow> (exn + unit) \<times> schema" where
  "do_run_migrations io ac s =
     (case run_ops (mi_pending io ac) s of
        None \<Rightarrow> (Inl (mi_refused io), s)
      | Some s' \<Rightarrow>
          (case mi_commit io of
             Commit \<Rightarrow> (Inr (), s')
           | Abort applied e \<Rightarrow> (Inl e, if applied then s' else s)
           | CancelTx applied \<Rightarrow> (Inl (OtherError []), if applied then s' else s)))"

text \<open>\<open>run_async_migrations\<close>; the flag says that the engine was disposed of, which a failure skips.\<close>

definition run_async_migrations ::
  "migration_io \<Rightarrow> alembic_cfg \<Rightarrow> schema \<Rightarrow> (exn + unit) \<times> schema \<times> bool" where
  "run_async_migrations io ac s =
     (case mi_connect io of
        Some e \<Rightarrow> (Inl e, s, False)
      | None \<Rightarrow>
          (case do_run_migrations io ac s of
             (Inl e, s') \<Rightarrow> (Inl e, s', False)
           | (Inr _, s') \<Rightarrow> (case mi_dispose io of Some e \<Rightarrow> (Inl e, s', False) | None \<Rightarrow> (Inr (), s', True))))"

text \<open>The offline mode prints the SQL and touches no database.\<close>

definition run_env :: "bool \<Rightarrow> migration_io \<Rightarrow> alembic_cfg \<Rightarrow> schema \<Rightarrow> (exn + unit) \<times> schema \<times> bool" where
  "run_env offline io ac s = (if offline then (Inr (), s, False) else run_async_migrations io ac s)"

definition head_revision :: pstr where
  "head_revision = asc ''head''"

definition run_migrations :: "pstr \<Rightarrow> migration_io \<Rightarrow> schema \<Rightarrow> (exn + unit) \<times> schema" where
  "run_migrations root io s =
     (case run_env False io (alembic_config root head_revision) s of (r, s', disposed) \<Rightarrow> (r, s'))"

text \<open>
  \<open>fileConfig\<close> with the levels of \<open>alembic.ini\<close>, only where no root handler is installed: in the
  application \<open>setup_logging\<close> has already put its own there.
\<close>

definition alembic_ini_levels :: "(pstr \<times> pstr) list" where
  "alembic_ini_levels =
     [([], asc ''WARN''), (asc ''sqlalchemy.engine'', asc ''WARN''), (asc ''alembic'', asc ''INFO'')]"

definition env_logging :: "bool \<Rightarrow> 'h list \<Rightarrow> (pstr \<times> pstr) list \<Rightarrow> (pstr \<times> pstr) list" where
  "env_logging has_config_file root_handlers levels =
     (if has_config_file \<and> root_handlers = [] then fold (\<lambda>(n, l). dict_set n l) alembic_ini_levels levels
      else levels)"

section \<open>The accessors\<close>

text \<open>
  \<open>request.app.state\<close> holds the services once the application has started; before that the
  attribute is missing.
\<close>

definition msg_no_attribute :: "string \<Rightarrow> pstr" where
  "msg_no_attribute n = [39] @ asc ''State'' @ [39] @ asc '' object has no attribute '' @ [39] @ asc n @ [39]"

definition get_recording_service :: "app option \<Rightarrow> exn + summarizer_service \<times> worker_state" where
  "get_recording_service st =
     (case st of
        None \<Rightarrow> Inl (OtherError (msg_no_attribute ''recording_service''))
      | Some a \<Rightarrow> Inr (service_view (ap_settings a) (ap_summarizer a), tw_state (ap_worker a)))"

definition get_task_service :: "app option \<Rightarrow> exn + worker_state" where
  "get_task_service st =
     (case st of
        None \<Rightarrow> Inl (OtherError (msg_no_attribute ''task_service'')) | Some a \<Rightarrow> Inr (tw_state (ap_worker a)))"

section \<open>All or nothing\<close>

lemma request_session_cases:
  assumes "get_async_session body x db = (r, db')" and "\<not> ambiguous x"
  shows "(\<exists>v. r = Returned v \<and> x = Commit \<and> body db = (Returned v, db')) \<or>
    ((\<forall>v. r \<noteq> Returned v) \<and> db' = db)"
  using assms
  by (cases x; cases "fst (body db)") (auto simp: get_async_session_def ambiguous_def split: prod.splits)

lemma do_run_migrations_cases:
  assumes "do_run_migrations io ac s = (r, s')" and "\<not> ambiguous (mi_commit io)"
  shows "(r = Inr () \<and> run_ops (mi_pending io ac) s = Some s') \<or> ((\<exists>e. r = Inl e) \<and> s' = s)"
  using assms
  by (cases "mi_commit io") (auto simp: do_run_migrations_def ambiguous_def split: option.splits)

lemma run_migrations_cases:
  assumes "run_migrations root io s = (r, s')" and "\<not> ambiguous (mi_commit io)"
  shows "run_ops (mi_pending io (alembic_config root head_revision)) s = Some s' \<or> ((\<exists>e. r = Inl e) \<and> s' = s)"
    and "r = Inr () \<Longrightarrow> run_ops (mi_pending io (alembic_config root head_revision)) s = Some s'"
  using assms do_run_migrations_cases [of io "alembic_config root head_revision" s]
  by (auto simp: run_migrations_def run_env_def run_async_migrations_def split: option.splits prod.splits sum.splits)

text \<open>The application's logging survives its own migrations.\<close>

lemma app_logging_kept: "env_logging has_config_file (intercept # hs) levels = levels"
  by (simp add: env_logging_def)

text \<open>The migration cannot be applied twice: no operation of it takes a table away.\<close>

definition keeps_tables :: "(schema \<Rightarrow> schema option) \<Rightarrow> bool" where
  "keeps_tables f \<longleftrightarrow> (\<forall>x y. f x = Some y \<longrightarrow> tbl_name ` set (sch_tables x) \<subseteq> tbl_name ` set (sch_tables y))"

lemma keeps_tables_ops [simp]: "keeps_tables (create_table t)" "keeps_tables (create_index i)"
  by (auto simp: keeps_tables_def create_table_def create_index_def split: if_splits)

lemma keeps_tables_run:
  "list_all keeps_tables fs \<Longrightarrow> run_ops fs a = Some b \<Longrightarrow> tbl_name ` set (sch_tables a) \<subseteq> tbl_name ` set (sch_tables b)"
proof (induction fs arbitrary: a)
  case (Cons f fs)
  then obtain c where "f a = Some c" "run_ops fs c = Some b" by (auto split: option.splits)
  then have "tbl_name ` set (sch_tables a) \<subseteq> tbl_name ` set (sch_tables c)"
    "tbl_name ` set (sch_tables c) \<subseteq> tbl_name ` set (sch_tables b)"
    using Cons by (simp_all add: keeps_tables_def)
  then show ?case by (rule subset_trans)
qed simp

lemma upgrade_twice:
  assumes "upgrade s = Some s'"
  shows "upgrade s' = None"
proof -
  obtain fs where fs: "upgrade = run_ops (create_table users_table # fs)" "list_all keeps_tables fs"
    by (rule that [OF upgrade_def]) simp
  obtain s1 where s1: "create_table users_table s = Some s1" "run_ops fs s1 = Some s'"
    using assms by (auto simp: fs(1) split: option.splits)
  have "tbl_name users_table \<in> tbl_name ` set (sch_tables s1)"
    using s1(1) by (auto simp: create_table_def split: if_splits)
  with keeps_tables_run [OF fs(2) s1(2)] have "create_table users_table s' = None"
    by (auto simp: create_table_def)
  then show ?thesis by (simp add: fs(1))
qed

text \<open>C36.
  Migrations at the start.  A run that succeeds has applied exactly the pending revisions, one
  that fails has changed nothing.  After a first start has applied the migration, a restart that
  finds nothing pending leaves the schema alone, and a second process that had found it pending
  too (there is no lock) fails on the names that now exist, and leaves the schema as the first
  one made it.
\<close>

theorem migrations_at_start:
  assumes "run_migrations root io s = (r, s')" and "\<not> ambiguous (mi_commit io)"
    and "mi_pending io (alembic_config root head_revision) = [upgrade]"
    and "mi_pending io2 (alembic_config root head_revision) = []" and "mi_connect io2 = None"
    and "mi_commit io2 = Commit" and "mi_dispose io2 = None"
    and "mi_pending io3 = mi_pending io" and "mi_connect io3 = None"
  shows "(r = Inr () \<longrightarrow> upgrade s = Some s' \<and>
      run_migrations root io2 s' = (Inr (), s') \<and>
      run_migrations root io3 s' = (Inl (mi_refused io3), s')) \<and>
    (upgrade s = None \<longrightarrow> (\<exists>e. r = Inl e)) \<and>
    (s' = s \<or> upgrade s = Some s')"
proof -
  have one: "run_ops [upgrade] x = upgrade x" for x by (simp split: option.split)
  have "run_migrations root io2 s' = (Inr (), s')"
    using assms(4-7) by (simp add: run_migrations_def run_env_def run_async_migrations_def do_run_migrations_def)
  moreover have "run_migrations root io3 s' = (Inl (mi_refused io3), s')" if "upgrade s = Some s'"
    using assms(3,8,9) upgrade_twice [OF that]
    by (simp add: run_migrations_def run_env_def run_async_migrations_def do_run_migrations_def)
  moreover have "upgrade s = Some s'" if "r = Inr ()"
    using run_migrations_cases(2) [OF assms(1,2) that] by (simp add: assms(3) one del: run_ops.simps)
  moreover have "upgrade s = Some s' \<or> ((\<exists>e. r = Inl e) \<and> s' = s)"
    using run_migrations_cases(1) [OF assms(1,2)] by (simp add: assms(3) one del: run_ops.simps)
  ultimately show ?thesis by auto
qed

text \<open>The empty database, migrated by one process and by a late second one.\<close>

definition sample_migration :: "(schema \<Rightarrow> schema option) list \<Rightarrow> migration_io" where
  "sample_migration plan = \<lparr>mi_connect = None, mi_pending = (\<lambda>_. plan), mi_refused = OtherError [],
     mi_commit = Commit, mi_dispose = None\<rparr>"

theorem migrations_at_start_witness:
  "run_migrations (asc ''/app'') (sample_migration [upgrade])
     (snd (run_migrations (asc ''/app'') (sample_migration [upgrade]) \<lparr>sch_tables = [], sch_indexes = []\<rparr>)) =
   (Inl (OtherError []), snd (run_migrations (asc ''/app'') (sample_migration [upgrade]) \<lparr>sch_tables = [], sch_indexes = []\<rparr>))"
proof -
  let ?s = "\<lparr>sch_tables = [], sch_indexes = []\<rparr>"
  let ?io = "sample_migration [upgrade]"
  obtain r s' where run: "run_migrations (asc ''/app'') ?io ?s = (r, s')" by force
  have f: "\<not> ambiguous (mi_commit ?io)" "mi_pending ?io ac = [upgrade]" "mi_pending (sample_migration []) ac = []"
    "mi_connect (sample_migration p) = None" "mi_commit (sample_migration p) = Commit"
    "mi_dispose (sample_migration p) = None" "mi_refused ?io = OtherError []" for ac p
    by (simp_all add: sample_migration_def ambiguous_def)
  have "upgrade ?s \<noteq> None"
    by (simp add: upgrade_def create_table_def create_index_def ix_def users_table_def recordings_table_def
        tasks_table_def col_def asc_inj)
  then have "r = Inr ()"
    using run by (auto simp: run_migrations_def run_env_def run_async_migrations_def do_run_migrations_def f
        split: option.splits)
  with migrations_at_start [OF run f(1) f(2) f(3) f(4) f(5) f(6) refl f(4)] run f(7) show ?thesis by simp
qed

end
