(* ===== verification/Client.thy ===== *)
theory Client
  imports Progress Recording_Properties Http_Properties
begin

text \<open>
  The service as a client sees it, from the upload to the result: the HTTP endpoints, the
  service, the repository, the worker and the queue put together.
\<close>

section \<open>An upload that created something\<close>

lemma create_inserts:
  assumes "create_recording_and_task ck rid tid quiet x name path sz h db = (Returned (r, t, True), db')"
  shows "\<exists>u. t = Some u \<and> insert_pair ck rid tid name path sz h db = Inr ((r, u), db')"
  using assms
  by (auto simp: create_recording_and_task_def Let_def insert_pair_tx_def task_tx_def
      split: option.splits prod.splits tx_result.splits exn.splits sum.splits tx.splits)

lemma upload_answer_created:
  assumes "upload_answer rr (fs, db, wk) = (Returned (r, t, True), fs', db', wk')"
  shows "rr = Returned (r, Some t, True) \<and> fs' = fs \<and> db' = db \<and> submit_opt wk (task_id t) = Inr wk'"
  using assms
  by (auto simp: upload_answer_def require_task_def
      split: tx_result.splits prod.splits option.splits sum.splits if_splits)

lemma upload_created:
  assumes ext: "validate_extension (up_uni cfg) (up_pylist cfg) filename (up_allowed cfg) = Inr ext"
    and env: "w_env w = quiet" "w_lookup_env w = quiet" and size: "0 \<le> up_max_mb cfg"
    and part: "fs (part_path (up_dir cfg) (w_file_id w) ext) = None"
    and up: "upload cfg w filename (fs, db, wk) = (Returned (r, t, True), fs', db', wk')"
  shows "\<exists>d. fs' (final_of cfg w ext) = Some d \<and>
    insert_pair (w_clock w) (w_rec_id w) (w_task_id w) filename (final_of cfg w ext) (int (length d))
      (up_sha256 cfg d) db = Inr ((r, t), db') \<and> submit_opt wk (task_id t) = Inr wk'"
proof -
  have max: "0 \<le> max_file_size_bytes (up_max_mb cfg)" using size by (simp add: max_file_size_bytes_def)
  let ?part = "part_path (up_dir cfg) (w_file_id w) ext"
  obtain sr fs1 where stage: "stage_upload (up_sha256 cfg) (w_io w) (w_file_id w) ext (up_dir cfg)
      (max_file_size_bytes (up_max_mb cfg)) (up_max_mb cfg) fs = (sr, fs1)" by force
  then obtain st where sr: "sr = Returned st" using up ext by (auto simp: upload_def split: tx_result.splits)
  then obtain d where d: "fs1 = fs(?part \<mapsto> d)" "staged_sha st = up_sha256 cfg d"
      "staged_size st = int (length d)" "tmp_path st = ?part" "final_path st = final_of cfg w ext"
    using stage_upload_cases [OF stage part max] by (auto simp: final_of_def)
  have "snd (lookup_hash (w_lookup w) quiet (staged_sha st) db) = db"
    by (simp add: lookup_hash_def repo_get_by_hash_def Let_def split: tx.splits option.splits)
  then obtain lr where look: "lookup_hash (w_lookup w) quiet (staged_sha st) db = (lr, db)"
    by (metis prod.collapse)
  then obtain tk where lr: "lr = Returned (None, tk)"
    using up ext stage sr env
    by (auto simp: upload_def dest!: upload_answer_created split: tx_result.splits prod.splits option.splits)
  obtain cr fs2 where com: "staged_commit (w_rename w) st fs1 = (cr, fs2)" by force
  then have cr: "cr = Returned (final_of cfg w ext)" "fs2 = replace_file ?part (final_of cfg w ext) fs1"
    using up ext stage sr env look lr d(4,5)
    by (auto simp: upload_def staged_commit_def Let_def split: tx_result.splits prod.splits tx.splits)
  obtain rr fs3 db2 where keep: "create_keeping
      (\<lambda>p. create_recording_and_task (w_clock w) (w_rec_id w) (w_task_id w) quiet (w_commit w)
         filename p (int (length d)) (up_sha256 cfg d))
      (unlink_ok (w_io w)) (final_of cfg w ext) (fs2, db) = (rr, fs3, db2)"
    by (metis prod_cases3)
  have "upload_answer rr (fs3, db2, wk) = (Returned (r, t, True), fs', db', wk')"
    using up ext stage sr env look lr com cr keep d by (simp add: upload_def)
  from upload_answer_created [OF this] have a: "rr = Returned (r, Some t, True)" "fs' = fs3" "db' = db2"
      "submit_opt wk (task_id t) = Inr wk'" by simp_all
  with keep have "create_recording_and_task (w_clock w) (w_rec_id w) (w_task_id w) quiet (w_commit w)
      filename (final_of cfg w ext) (int (length d)) (up_sha256 cfg d) db = (Returned (r, Some t, True), db')"
    and "fs' = fs2"
    by (auto simp: create_keeping_def Let_def split: prod.splits)
  with create_inserts [OF this(1)] a(4) show ?thesis
    by (auto simp: cr(2) d(1) replace_file_def)
qed

section \<open>From the upload to the result\<close>

text \<open>The transcripts and summaries: what is heard in the bytes of a file, what the model says of a text.\<close>

definition heard :: "(bytes \<Rightarrow> pstr) \<Rightarrow> fs \<Rightarrow> pstr \<Rightarrow> pstr" where
  "heard hear fs path = (case fs path of Some d \<Rightarrow> hear d | None \<Rightarrow> [])"

definition summary_of :: "exec_cfg \<Rightarrow> (pstr \<Rightarrow> json) \<Rightarrow> pstr \<Rightarrow> json" where
  "summary_of cfg summ tr = (if has_summarizer cfg then summ tr else mock_summary)"

text \<open>The system after an upload: the stored rows, and the worker that has been woken.\<close>

definition after_upload :: "system \<Rightarrow> nat \<Rightarrow> database \<Rightarrow> worker_state \<Rightarrow> system" where
  "after_upload s i db ws = \<lparr>sys_db = db, sys_workers = (sys_workers s)(i := ws)\<rparr>"

lemma after_upload_reachable:
  assumes "sys_reachable cf s" and "insert_pair ck rid tid name path sz h (sys_db s) = Inr (p, db')"
    and "worker_submit tid (sys_workers s i) = Inr ws"
  shows "sys_reachable cf (after_upload s i db' ws)"
proof -
  from sys_reachable.step [OF assms(1) sys_step.api [OF api_step.upload [OF assms(2)]]]
  have "sys_reachable cf (s\<lparr>sys_db := db'\<rparr>)" .
  moreover have "sys_step cf (Worker i) (s\<lparr>sys_db := db'\<rparr>) (after_upload s i db' ws)"
    using sys_step.worker [where cf = cf and i = i and s = "s\<lparr>sys_db := db'\<rparr>", OF worker_step.submitted, of tid ws]
      assms(3) by (simp add: after_upload_def)
  ultimately show ?thesis by (rule sys_reachable.step)
qed

text \<open>What the two endpoints answer for a stored recording and its task.\<close>

lemma endpoints_answer:
  assumes "db_ok M db" and "r \<in> set (recordings db)" and "get_by_id db tid = Some u"
    and "recording_id u = rec_id r"
  shows "http_detail quiet (rec_id r) db = (Answer (respond 200 (DetailBody (to_detail_response r u))), db)"
    and "http_get_task tid db = Answer (respond 200 (TaskBody (to_task_status_response u)))"
proof -
  have "u \<in> set (tasks db)" using get_by_id_SomeD [OF assms(3)] by simp
  with assms have "get_by_recording db (rec_id r) = Some u"
    by (simp add: get_by_recording_iff [OF assms(1)])
  moreover have "recording_get_by_id db (rec_id r) = Some r"
    using assms(1,2) by (simp add: recording_get_by_id_def by_key_Some_iff db_ok_def)
  ultimately show "http_detail quiet (rec_id r) db = (Answer (respond 200 (DetailBody (to_detail_response r u))), db)"
    by (simp add: http_detail_def get_recording_def repo_get_by_id_def require_task_def of_sum_def)
  show "http_get_task tid db = Answer (respond 200 (TaskBody (to_task_status_response u)))"
    using assms(3) by (simp add: http_get_task_def task_service_get_def task_repo_get_by_id_def of_sum_def)
qed

text \<open>A stored pair of rows is processed by one worker, and the endpoints show the result.\<close>

lemma stored_to_result:
  assumes reach: "sys_reachable cf s" and ret: "\<forall>i. max_retries (exec_of (cf i)) \<le> int M"
    and cfg: "0 < max_concurrency (cf i)" "0 < max_batch_size (cf i)"
    and src: "has_summarizer (exec_of (cf i)) \<or> allow_mock_llm (exec_of (cf i))"
    and r: "r \<in> set (recordings (sys_db s))" and t: "get_by_id (sys_db s) tid = Some t"
      "recording_id t = rec_id r" "status t = PENDING"
  shows "\<exists>s' u. sys_run cf i s s' \<and> status u = DONE \<and> error_msg u = None \<and> task_id u = tid \<and>
    recording_id u = rec_id r \<and> transcript u = Some (asr (file_path r)) \<and>
    summary u = Some (summary_of (exec_of (cf i)) summ (asr (file_path r))) \<and>
    http_detail quiet (rec_id r) (sys_db s') = (Answer (respond 200 (DetailBody (to_detail_response r u))), sys_db s') \<and>
    http_get_task tid (sys_db s') = Answer (respond 200 (TaskBody (to_task_status_response u)))"
proof -
  have ok: "db_ok M (sys_db s)"
    using sys_ok_reachable [OF reach, of M] ret by (simp add: retries_bounded_def sys_ok_def)
  let ?E = "results_of (exec_of (cf i)) asr summ (recordings (sys_db s))"
  obtain db' ws' where d: "worker_run (cf i) (sys_db s, sys_workers s i) (db', ws')"
    "progress ?E (sys_db s) db'" "unfinished db' = {}"
    using drained [OF ok _ cfg src] ret by blast
  have ok': "db_ok M db'" using db_ok_worker_run [OF d(1) ok] ret by simp
  have rs: "recordings db' = recordings (sys_db s)" using d(2) by (simp add: progress_def)
  have "by_key rec_id (rec_id r) (recordings (sys_db s)) = Some r"
    using ok r by (simp add: by_key_Some_iff db_ok_def)
  then have E: "?E (rec_id r) = (asr (file_path r), summary_of (exec_of (cf i)) summ (asr (file_path r)))"
    by (simp add: results_of_def summary_of_def)
  obtain u where u: "get_by_id db' tid = Some u" "advanced ?E t u"
    using unfinished_get [OF d(2) t(1)] by blast
  moreover have "status u \<notin> set RECOVERABLE_STATUSES" using d(3) u(1) by (auto simp: unfinished_def)
  ultimately have res: "recording_id u = rec_id r" "status u = DONE" "transcript u = Some (asr (file_path r))"
    "summary u = Some (summary_of (exec_of (cf i)) summ (asr (file_path r)))"
    using t(2,3) E by (auto simp: advanced_def TERMINAL_STATUSES_def)
  moreover have "error_msg u = None" "task_id u = tid"
    using db_ok_taskD [OF ok', of u] get_by_id_SomeD [OF u(1)] res(2) by (auto simp: task_ok_def)
  moreover have "r \<in> set (recordings db')" using r by (simp add: rs)
  note endpoints_answer [OF ok' this u(1) res(1)]
  ultimately show ?thesis
    using worker_run_system [where cf = cf and s = s and i = i, OF d(1)] by (metis system.select_convs(1))
qed


text \<open>The first upload of a fresh service whose worker has started.\<close>

definition fresh_system :: system where
  "fresh_system = \<lparr>sys_db = empty_db, sys_workers = (\<lambda>_. new_worker)(0 := started_worker)\<rparr>"

lemma fresh_system_reachable: "sys_reachable (\<lambda>_. sample_disp) fresh_system"
proof -
  let ?s = "\<lparr>sys_db = empty_db, sys_workers = (\<lambda>_. new_worker)\<rparr>"
  have "worker_start sample_disp ck0 0 Commit (empty_db, new_worker) = (Inr (), empty_db, started_worker)"
    by (simp add: worker_start_unfold recover_zombie_tasks_def recover_body_def reclaim_in_flight_def task_tx_def
        empty_db_def sql_update_def started_worker_def new_worker_def)
  from worker_step.starts [OF this]
  have "sys_step (\<lambda>_. sample_disp) (Worker 0) ?s fresh_system"
    using sys_step.worker [where cf = "\<lambda>_. sample_disp" and i = 0 and s = ?s] by (simp add: fresh_system_def)
  with sys_reachable.init show ?thesis by (rule sys_reachable.step)
qed

lemma fresh_path: "length (path_child (asc ''/u'') (uuid_hex 5 @ asc ''.wav'')) \<le> 1000"
  by (simp add: path_child_def)

lemma fresh_upload:
  "\<exists>fs' db' wk'. http_upload sample_upload_cfg (sample_world Commit Commit) (asc ''a.wav'')
     (\<lambda>_. None, sys_db fresh_system, Some (sys_workers fresh_system 0)) =
   (Answer (respond 201 (UploadBody \<lparr>ur_recording_id = 1, ur_task_id = 11, ur_status = PENDING\<rparr>)), fs', db', wk')"
  using sample_ext sample_stage [of Commit Commit] fresh_path
  by (simp add: http_upload_def upload_def lookup_hash_def repo_get_by_hash_def recording_get_by_hash_def
      staged_commit_def create_keeping_def create_recording_and_task_def insert_pair_tx_def insert_pair_def
      create_recording_def create_task_def task_tx_def upload_answer_def require_task_def submit_opt_def
      worker_submit_def fresh_system_def empty_db_def sample_world_def sql_where_def first_def new_recording_def
      new_task_def started_worker_def new_worker_def of_tx_def to_upload_response_def Let_def)


end
