(* ===== verification/Service_Logs.thy ===== *)
theory Service_Logs
  imports Log_Calls Worker_Logs Recording_Properties Task_Service_Properties Transcriber Identity
begin

text \<open>
  What the services write to the log: the calls of \<open>logger\<close> in \<open>api/service/recording.py\<close>,
  \<open>task.py\<close>, \<open>transcriber.py\<close>, \<open>api/worker/worker.py\<close> and \<open>identity.py\<close>, each in the context of
  ids it is made in, beside the operations that make them.  The log of an upload tells how it
  ended, with the ids and the file of the rows that are stored.
\<close>

section \<open>Messages\<close>

text \<open>"upload request received".\<close>

definition msg_log_received :: pstr where
    [msg_defs]: "msg_log_received = [25910, 21040, 19978, 20256, 35831, 27714]"

text \<open>"the upload is on disk".\<close>

definition msg_log_staged :: pstr where
    [msg_defs]: "msg_log_staged = [19978, 20256, 24050, 33853, 30424]"

text \<open>"the upload is known content".\<close>

definition msg_log_idempotent :: pstr where
    [msg_defs]: "msg_log_idempotent = [19978, 20256, 21629, 20013, 24130, 31561]"

text \<open>"task created".\<close>

definition msg_log_created :: pstr where
    [msg_defs]: "msg_log_created = [20219, 21153, 24050, 21019, 24314]"

text \<open>"known task found in a race".\<close>

definition msg_log_race :: pstr where
    [msg_defs]: "msg_log_race = [24182, 21457, 19979, 21629, 20013, 24050, 26377, 20219, 21153]"

text \<open>"recordings listed".\<close>

definition msg_log_list :: pstr where
    [msg_defs]: "msg_log_list = [26597, 35810, 24405, 38899, 21015, 34920]"

text \<open>"recording details read".\<close>

definition msg_log_fetched :: pstr where
    [msg_defs]: "msg_log_fetched = [26597, 35810, 24405, 38899, 35814, 24773]"

text \<open>"recording deleted".\<close>

definition msg_log_deleted :: pstr where
    [msg_defs]: "msg_log_deleted = [24405, 38899, 24050, 21024, 38500]"

text \<open>"stored summary reused".\<close>

definition msg_log_reuse :: pstr where
    [msg_defs]: "msg_log_reuse = [22797, 29992, 24050, 23384, 25688, 35201]"

text \<open>"stream of a summary started".\<close>

definition msg_log_stream :: pstr where
    [msg_defs]: "msg_log_stream = [24320, 22987, 27969, 24335, 25688, 35201]"

text \<open>"task read".\<close>

definition msg_log_task :: pstr where
    [msg_defs]: "msg_log_task = [26597, 35810, 20219, 21153]"

text \<open>"task requeued".\<close>

definition msg_log_requeued :: pstr where
    [msg_defs]: "msg_log_requeued = [20219, 21153, 24050, 37325, 20837, 38431]"

text \<open>"the retry request is idempotent".\<close>

definition msg_log_retry_known :: pstr where
    [msg_defs]: "msg_log_retry_known = [37325, 35797, 35831, 27714, 24130, 31561, 21629, 20013]"

text \<open>"task requeued after a race".\<close>

definition msg_log_requeued_race :: pstr where
    [msg_defs]: "msg_log_requeued_race = [20219, 21153, 31454, 24577, 21518, 37325, 20837, 38431]"

text \<open>"TaskWorker started".\<close>

definition msg_log_started :: pstr where
    [msg_defs]: "msg_log_started = asc ''TaskWorker '' @ [24050, 21551, 21160]"

text \<open>"TaskWorker has stopped (no task in flight)".\<close>

definition msg_log_stopped_idle :: pstr where
    [msg_defs]: "msg_log_stopped_idle = asc ''TaskWorker '' @ [24050, 20248, 38597, 36864, 20986,
     65288, 26080, 22312, 36884, 20219, 21153, 65289]"

text \<open>"waiting for the tasks in flight".\<close>

definition msg_log_stopping :: pstr where
    [msg_defs]: "msg_log_stopping = [27491, 22312, 31561, 24453, 22312, 36884, 20219, 21153, 25191,
     34892, 23436, 27605]"

text \<open>"tasks in flight not finished in time, cancelled and reset in the database".\<close>

definition msg_log_shutdown :: pstr where
    [msg_defs]: "msg_log_shutdown = [22312, 36884, 20219, 21153, 36229, 26102, 26410, 23436, 25104,
     65292, 24378, 21046, 21462, 28040, 24182, 37325, 32622] @ asc '' DB''"

text \<open>"TaskWorker has been shut down".\<close>

definition msg_log_stopped :: pstr where
    [msg_defs]: "msg_log_stopped = asc ''TaskWorker '' @ [20248, 38597, 20851, 38381, 23436, 25104]"

text \<open>"task submitted, waiting for a worker".\<close>

definition msg_log_submitted :: pstr where
    [msg_defs]: "msg_log_submitted = [20219, 21153, 24050, 25552, 20132, 65292, 31561, 24453] @ asc
     '' worker '' @ [25342, 21462]"

text \<open>"reading the worker's identity file failed".\<close>

definition msg_log_id_read :: pstr where
    [msg_defs]: "msg_log_id_read = [35835, 21462] @ asc '' worker '' @ [26631, 35782, 25991, 20214,
     22833, 36133]"

text \<open>"writing the worker's identity file failed, after a restart its tasks are only recovered when their leases have expired".\<close>

definition msg_log_id_write :: pstr where
    [msg_defs]: "msg_log_id_write = [20889, 20837] @ asc '' worker '' @ [26631, 35782, 25991, 20214,
     22833, 36133, 65292, 37325, 21551, 21518, 38656, 31561, 31199, 32422, 36807, 26399, 25165,
     33021, 22238, 25910, 33258, 36523, 20219, 21153]"

text \<open>"the worker's identity is persisted".\<close>

definition msg_log_id_persisted :: pstr where
    [msg_defs]: "msg_log_id_persisted = asc ''worker '' @ [26631, 35782, 24050, 25345, 20037,
     21270]"

text \<open>"the worker's identity cannot be persisted, using one for this process (after a restart the leases must expire)".\<close>

definition msg_log_id_ephemeral :: pstr where
    [msg_defs]: "msg_log_id_ephemeral = [26080, 27861, 25345, 20037, 21270] @ asc '' worker '' @
     [26631, 35782, 65292, 20351, 29992, 20020, 26102, 26631, 35782, 65288, 37325, 21551, 21518,
     38656, 31561, 31199, 32422, 36807, 26399, 65289]"

text \<open>"ASR has transcribed".\<close>

definition msg_log_asr :: pstr where
    [msg_defs]: "msg_log_asr = asc ''ASR '' @ [36716, 20889, 23436, 25104]"

section \<open>Calls\<close>

text \<open>A call with the context it is made in.\<close>

type_synonym ctx_call = "log_ctx \<times> log_call"

definition log_received :: "pstr \<Rightarrow> pstr \<Rightarrow> log_call" where
  "log_received filename ext =
     (let fmt = lstrip_by (\<lambda>c. c = 46) ext
      in log_info msg_log_received (asc ''upload.received'')
           [(asc ''file_name'', JStr filename), (asc ''file_format'', JStr (if fmt = [] then asc ''unknown'' else fmt))])"

definition file_fields :: "pstr \<Rightarrow> staged_upload \<Rightarrow> (pstr \<times> json) list" where
  "file_fields filename st =
     [(asc ''file_name'', JStr filename), (asc ''file_size'', JInt (staged_size st)),
      (asc ''file_hash'', JStr (staged_sha st))]"

definition status_field :: "task \<Rightarrow> pstr \<times> json" where
  "status_field t = (asc ''status'', JStr (status_value (status t)))"

definition log_staged :: "pstr \<Rightarrow> staged_upload \<Rightarrow> log_call" where
  "log_staged filename st = log_info msg_log_staged (asc ''upload.staged'') (file_fields filename st)"

definition log_idempotent :: "task \<Rightarrow> log_call" where
  "log_idempotent t = log_info msg_log_idempotent (asc ''upload.idempotent_hit'') [status_field t]"

definition log_created :: "pstr \<Rightarrow> staged_upload \<Rightarrow> task \<Rightarrow> log_call" where
  "log_created filename st t = log_info msg_log_created (asc ''task.created'') (status_field t # file_fields filename st)"

definition log_race :: "task \<Rightarrow> log_call" where
  "log_race t = log_info msg_log_race (asc ''task.created.race'') [status_field t]"

definition log_submitted :: "uuid \<Rightarrow> log_call" where
  "log_submitted tid = log_info msg_log_submitted (asc ''task.submitted'') [(asc ''task_id'', JStr (uuid_str tid))]"

section \<open>Uploading\<close>

text \<open>\<open>TaskWorker.submit\<close> logs once it knows that the worker has been started.\<close>

definition submit_logs :: "worker_state option \<Rightarrow> uuid \<Rightarrow> log_call list" where
  "submit_logs wk tid =
     (case wk of None \<Rightarrow> [] | Some ws \<Rightarrow> (if started ws then [log_submitted tid] else []))"

text \<open>After the repository has stored the recording, or has found that of another upload.\<close>

definition stored_logs ::
  "log_ctx \<Rightarrow> pstr \<Rightarrow> staged_upload \<Rightarrow> worker_state option \<Rightarrow>
     (recording \<times> task option \<times> bool) tx_result \<Rightarrow> ctx_call list" where
  "stored_logs c filename st wk res =
     (case res of
        Returned (r, Some t, created) \<Rightarrow>
          map (Pair (bound (Some (task_id t)) (Some (rec_id r)) c))
            (if created then log_created filename st t # submit_logs wk (task_id t) else [log_race t])
      | _ \<Rightarrow> [])"

definition known_logs :: "log_ctx \<Rightarrow> recording \<Rightarrow> task option \<Rightarrow> ctx_call list" where
  "known_logs c r t =
     (case t of
        None \<Rightarrow> []
      | Some t \<Rightarrow> [(bound (Some (task_id t)) (Some (rec_id r)) c, log_idempotent t)])"

definition upload_logs ::
  "upload_cfg \<Rightarrow> upload_world \<Rightarrow> pstr \<Rightarrow> log_ctx \<Rightarrow> fs \<times> database \<times> worker_state option \<Rightarrow> ctx_call list" where
  "upload_logs cfg w filename c s =
     (case s of (fs, db, wk) \<Rightarrow>
        (case validate_extension (up_uni cfg) (up_pylist cfg) filename (up_allowed cfg) of
           Inl e \<Rightarrow> []
         | Inr ext \<Rightarrow>
             (c, log_received filename ext) #
             (case stage_upload (up_sha256 cfg) (w_io w) (w_file_id w) ext (up_dir cfg)
                     (max_file_size_bytes (up_max_mb cfg)) (up_max_mb cfg) fs of
                (Returned st, fs1) \<Rightarrow>
                  (c, log_staged filename st) #
                  (case lookup_hash (w_lookup w) (w_lookup_env w) (staged_sha st) db of
                     (Returned (Some r, t), db1) \<Rightarrow> known_logs c r t
                   | (Returned (None, _), db1) \<Rightarrow>
                       (case staged_commit (w_rename w) st fs1 of
                          (Returned path, fs2) \<Rightarrow>
                            stored_logs c filename st wk
                              (fst (create_keeping
                                 (\<lambda>p. create_recording_and_task (w_clock w) (w_rec_id w) (w_task_id w)
                                    (w_env w) (w_commit w) filename p (staged_size st) (staged_sha st))
                                 (unlink_ok (w_io w)) path (fs2, w_lookup_env w 1 db1)))
                        | _ \<Rightarrow> [])
                   | _ \<Rightarrow> [])
              | _ \<Rightarrow> [])))"

text \<open>The shapes of the log, by the way an upload ends.\<close>

definition upload_told ::
  "log_ctx \<Rightarrow> pstr \<Rightarrow> worker_state option \<Rightarrow> (recording \<times> task \<times> bool) tx_result \<Rightarrow> ctx_call list \<Rightarrow> bool" where
  "upload_told c filename wk res L \<longleftrightarrow>
     (case res of
        Returned (r, t, created) \<Rightarrow>
          (\<exists>ext st calls. L = [(c, log_received filename ext), (c, log_staged filename st)] @
               map (Pair (bound (Some (task_id t)) (Some (rec_id r)) c)) calls \<and>
             (if created
              then calls = log_created filename st t # submit_logs wk (task_id t) \<and>
                file_name r = filename \<and> file_size r = staged_size st \<and> file_hash r = staged_sha st
              else calls = [log_idempotent t] \<or> calls = [log_race t]))
      | _ \<Rightarrow>
          (\<forall>p \<in> set L. lc_event (snd p) = asc ''upload.received'' \<or> lc_event (snd p) = asc ''upload.staged'' \<or>
             lc_event (snd p) = asc ''task.created'' \<and> res = Raised (RuntimeError msg_not_started)))"

lemmas service_calls =
  log_received_def log_staged_def log_created_def log_idempotent_def log_race_def log_submitted_def

lemma log_events [simp]:
  "lc_event (log_received filename ext) = asc ''upload.received''"
  "lc_event (log_staged filename st) = asc ''upload.staged''"
  "lc_event (log_created filename st t) = asc ''task.created''"
  "lc_event (log_idempotent t) = asc ''upload.idempotent_hit''"
  "lc_event (log_race t) = asc ''task.created.race''"
  "lc_event (log_submitted tid) = asc ''task.submitted''"
  by (simp_all add: service_calls log_info_def Let_def)

lemma submit_opt_logs:
  "submit_opt wk tid = Inl e \<Longrightarrow> submit_logs wk tid = [] \<and> e = RuntimeError msg_not_started"
  by (auto simp: submit_opt_def submit_logs_def worker_submit_def split: option.splits sum.splits if_splits)

lemma told_known:
  assumes "call = log_idempotent t \<or> call = log_race t"
  shows "upload_told c filename wk (Returned (r, t, False))
    [(c, log_received filename ext), (c, log_staged filename st), (bound (Some (task_id t)) (Some (rec_id r)) c, call)]"
  unfolding upload_told_def tx_result.case prod.case
  by (rule exI [of _ ext], rule exI [of _ st], rule exI [of _ "[call]"]) (use assms in simp)

lemma told_stored:
  assumes "create_keeping (\<lambda>p. create_recording_and_task ck rid tid env x filename p (staged_size st) (staged_sha st))
      unl path (fs, db) = (rr, fs1, db1)"
    and "upload_answer rr (fs1, db1, wk) = (res, s)"
  shows "upload_told c filename wk res
    ((c, log_received filename ext) # (c, log_staged filename st) # stored_logs c filename st wk rr)"
proof (cases "\<exists>r t created. rr = Returned (r, Some t, created)")
  case False
  then have "stored_logs c filename st wk rr = []" "\<forall>v. res \<noteq> Returned v"
    using assms(2) by (auto simp: stored_logs_def upload_answer_def require_task_def split: tx_result.splits option.splits)
  then show ?thesis by (auto simp: upload_told_def split: tx_result.splits)
next
  case True
  then obtain r t created where rr: "rr = Returned (r, Some t, created)" by blast
  show ?thesis
  proof (cases created)
    case False
    then have "res = Returned (r, t, False)"
      using assms(2) by (simp add: rr upload_answer_def require_task_def)
    then show ?thesis
      using False told_known [of "log_race t" t] by (simp add: stored_logs_def rr)
  next
    case True
    then have "create_recording_and_task ck rid tid env x filename path (staged_size st) (staged_sha st) db =
        (Returned (r, Some t, True), db1)"
      using assms(1) by (auto simp: create_keeping_def Let_def rr split: prod.splits)
    from create_created(1) [OF this] have "file_name r = filename \<and> file_size r = staged_size st \<and> file_hash r = staged_sha st"
      by (simp add: new_recording_def)
    then show ?thesis
      using assms(2) True submit_opt_logs [of wk "task_id t"]
      by (auto simp: upload_told_def stored_logs_def rr upload_answer_def require_task_def split: sum.splits)
  qed
qed

lemma upload_log_told:
  assumes "upload cfg w filename (fs, db, wk) = (res, s)"
  shows "upload_told c filename wk res (upload_logs cfg w filename c (fs, db, wk))"
proof (cases "validate_extension (up_uni cfg) (up_pylist cfg) filename (up_allowed cfg)")
  case (Inl e)
  then show ?thesis using assms by (auto simp: upload_def upload_logs_def upload_told_def)
next
  case ext: (Inr ext)
  obtain sr fs1 where stage: "stage_upload (up_sha256 cfg) (w_io w) (w_file_id w) ext (up_dir cfg)
      (max_file_size_bytes (up_max_mb cfg)) (up_max_mb cfg) fs = (sr, fs1)" by force
  show ?thesis
  proof (cases sr)
    case (Returned st)
    obtain lr db1 where look: "lookup_hash (w_lookup w) (w_lookup_env w) (staged_sha st) db = (lr, db1)" by force
    show ?thesis
    proof (cases lr)
      case lk: (Returned p)
      obtain ro tk where p: "p = (ro, tk)" by (cases p)
      show ?thesis
      proof (cases ro)
        case (Some r)
        then have L: "upload_logs cfg w filename c (fs, db, wk) =
            (c, log_received filename ext) # (c, log_staged filename st) # known_logs c r tk"
          using ext stage Returned look lk p by (simp add: upload_logs_def)
        show ?thesis
        proof (cases tk)
          case None
          then show ?thesis
            using assms Some ext stage Returned look lk p L
            by (auto simp: upload_def upload_told_def known_logs_def upload_answer_def require_task_def)
        next
          case tk: (Some t)
          then have "res = Returned (r, t, False)"
            using assms Some ext stage Returned look lk p by (simp add: upload_def upload_answer_def require_task_def)
          then show ?thesis using L tk told_known [of "log_idempotent t" t] by (simp add: known_logs_def)
        qed
      next
        case None
        obtain cr fs2 where com: "staged_commit (w_rename w) st fs1 = (cr, fs2)" by force
        show ?thesis
        proof (cases cr)
          case cm: (Returned path)
          obtain rr fs3 db2 where keep: "create_keeping
              (\<lambda>p. create_recording_and_task (w_clock w) (w_rec_id w) (w_task_id w) (w_env w) (w_commit w)
                 filename p (staged_size st) (staged_sha st))
              (unlink_ok (w_io w)) path (fs2, w_lookup_env w 1 db1) = (rr, fs3, db2)"
            by (metis prod_cases3)
          have "upload_answer rr (fs3, db2, wk) = (res, s)"
            using assms ext stage Returned look lk p None com cm keep by (simp add: upload_def)
          from told_stored [OF keep this] show ?thesis
            using ext stage Returned look lk p None com cm keep by (simp add: upload_logs_def)
        qed (use assms ext stage Returned look lk p None com in \<open>auto simp: upload_def upload_logs_def upload_told_def\<close>)
      qed
    qed (use assms ext stage Returned look in \<open>auto simp: upload_def upload_logs_def upload_told_def\<close>)
  qed (use assms ext stage in \<open>auto simp: upload_def upload_logs_def upload_told_def\<close>)
qed

definition ctx_line ::
  "(time \<Rightarrow> pstr) \<Rightarrow> (extra_val \<Rightarrow> pstr) \<Rightarrow> (exn \<Rightarrow> log_exc) \<Rightarrow> pstr list \<Rightarrow> pstr option \<Rightarrow>
     pstr \<Rightarrow> time \<Rightarrow> ctx_call \<Rightarrow> (pstr \<times> json) list" where
  "ctx_line iso_ts str describe active inst name t p =
     call_line iso_ts str describe active (fst p) inst name t (snd p)"

lemma ctx_line_ids:
  assumes "set active \<subseteq> {asc ''json'', asc ''console'', asc ''plain''}"
  shows "map_of (ctx_line iso_ts str describe active inst name t p) (asc ''request_id'') =
      Some (case map_of (lc_fields (snd p)) (asc ''request_id'') of Some j \<Rightarrow> j | None \<Rightarrow> opt_json (fst p RequestId))"
    and "map_of (ctx_line iso_ts str describe active inst name t p) (asc ''task_id'') =
      Some (case map_of (lc_fields (snd p)) (asc ''task_id'') of Some j \<Rightarrow> j | None \<Rightarrow> opt_json (fst p TaskId))"
    and "map_of (ctx_line iso_ts str describe active inst name t p) (asc ''recording_id'') =
      Some (case map_of (lc_fields (snd p)) (asc ''recording_id'') of Some j \<Rightarrow> j | None \<Rightarrow> opt_json (fst p RecordingId))"
    and "map_of (ctx_line iso_ts str describe active inst name t p) (asc ''event'') = Some (JStr (lc_event (snd p)))"
  unfolding ctx_line_def
  by (rule call_line_ctx [OF _ assms], simp add: ctx_fields_def)+ (rule call_line_event [OF assms])

lemma log_fields [simp]:
  "map_of (lc_fields (log_received filename ext)) (asc ''request_id'') = None"
  "map_of (lc_fields (log_staged filename st)) (asc ''request_id'') = None"
  "map_of (lc_fields (log_created filename st t)) (asc ''request_id'') = None"
  "map_of (lc_fields (log_created filename st t)) (asc ''task_id'') = None"
  "map_of (lc_fields (log_created filename st t)) (asc ''recording_id'') = None"
  "map_of (lc_fields (log_idempotent t)) (asc ''request_id'') = None"
  "map_of (lc_fields (log_idempotent t)) (asc ''task_id'') = None"
  "map_of (lc_fields (log_idempotent t)) (asc ''recording_id'') = None"
  "map_of (lc_fields (log_race t)) (asc ''request_id'') = None"
  "map_of (lc_fields (log_race t)) (asc ''task_id'') = None"
  "map_of (lc_fields (log_race t)) (asc ''recording_id'') = None"
  "map_of (lc_fields (log_submitted tid)) (asc ''request_id'') = None"
  "map_of (lc_fields (log_submitted tid)) (asc ''task_id'') = Some (JStr (uuid_str tid))"
  "map_of (lc_fields (log_submitted tid)) (asc ''recording_id'') = None"
  by (simp_all add: service_calls log_info_def Let_def file_fields_def status_field_def asc_inj)

lemma submit_logs_in: "call \<in> set (submit_logs wk tid) \<Longrightarrow> call = log_submitted tid"
  by (auto simp: submit_logs_def split: option.splits if_splits)

text \<open>No call of an upload gives a request id of its own or changes that of the context.\<close>

definition keeps_request :: "log_ctx \<Rightarrow> ctx_call \<Rightarrow> bool" where
  "keeps_request c p \<longleftrightarrow> fst p RequestId = c RequestId \<and> map_of (lc_fields (snd p)) (asc ''request_id'') = None"

lemma known_logs_request: "list_all (keeps_request c) (known_logs c r t)"
  by (simp add: known_logs_def keeps_request_def split: option.split)

lemma stored_logs_request: "list_all (keeps_request c) (stored_logs c filename st wk res)"
  by (auto simp: stored_logs_def keeps_request_def list_all_iff dest: submit_logs_in
      split: tx_result.split prod.split option.split)

lemma upload_logs_request: "list_all (keeps_request c) (upload_logs cfg w filename c s)"
  by (simp add: upload_logs_def known_logs_request stored_logs_request
      split: prod.split sum.split tx_result.split option.split)
    (simp add: keeps_request_def)

text \<open>C21.
  The log of an upload.  It opens with the request and, once the file is on disk, its size and
  hash.  A new recording is logged with the name, size and hash its row has and handed to the
  worker; known content ends with the record that says so; an upload that fails logs neither,
  except for the created task that could not be handed to a worker that is not running.  Every
  line names its event and carries the id of the request, and the line that tells the outcome
  the ids of the recording and the task that are returned.
\<close>

theorem upload_logged:
  assumes "upload cfg w filename (fs, db, wk) = (res, s')"
    and "set active \<subseteq> {asc ''json'', asc ''console'', asc ''plain''}"
  shows "upload_told c filename wk res (upload_logs cfg w filename c (fs, db, wk)) \<and>
    (\<forall>p \<in> set (upload_logs cfg w filename c (fs, db, wk)).
      map_of (ctx_line iso_ts str describe active inst name ts p) (asc ''event'') = Some (JStr (lc_event (snd p))) \<and>
      map_of (ctx_line iso_ts str describe active inst name ts p) (asc ''request_id'') = Some (opt_json (c RequestId))) \<and>
    (\<forall>r t created. res = Returned (r, t, created) \<longrightarrow>
      (\<forall>p \<in> set (drop 2 (upload_logs cfg w filename c (fs, db, wk))).
        map_of (ctx_line iso_ts str describe active inst name ts p) (asc ''recording_id'') = Some (JStr (uuid_str (rec_id r))) \<and>
        map_of (ctx_line iso_ts str describe active inst name ts p) (asc ''task_id'') = Some (JStr (uuid_str (task_id t)))))"
proof (intro conjI allI ballI impI)
  note told = upload_log_told [OF assms(1), of c]
  then show "upload_told c filename wk res (upload_logs cfg w filename c (fs, db, wk))" .
  fix p
  note ids = ctx_line_ids [OF assms(2), of iso_ts str describe inst name ts p]
  {
    assume "p \<in> set (upload_logs cfg w filename c (fs, db, wk))"
    with upload_logs_request [of c cfg w filename "(fs, db, wk)"] have "keeps_request c p"
      by (simp add: list_all_iff)
    with ids(1,4)
    show "map_of (ctx_line iso_ts str describe active inst name ts p) (asc ''event'') = Some (JStr (lc_event (snd p)))"
      and "map_of (ctx_line iso_ts str describe active inst name ts p) (asc ''request_id'') = Some (opt_json (c RequestId))"
      by (simp_all add: keeps_request_def)
  }
  fix r t created
  assume res: "res = Returned (r, t, created)" and "p \<in> set (drop 2 (upload_logs cfg w filename c (fs, db, wk)))"
  then have "\<exists>call. p = (bound (Some (task_id t)) (Some (rec_id r)) c, call) \<and>
      map_of (lc_fields call) (asc ''recording_id'') = None \<and>
      map_of (lc_fields call) (asc ''task_id'') \<in> {None, Some (JStr (uuid_str (task_id t)))}"
    using told by (cases created) (auto simp: upload_told_def dest!: submit_logs_in)
  then show "map_of (ctx_line iso_ts str describe active inst name ts p) (asc ''recording_id'') = Some (JStr (uuid_str (rec_id r)))"
    and "map_of (ctx_line iso_ts str describe active inst name ts p) (asc ''task_id'') = Some (JStr (uuid_str (task_id t)))"
    using ids(2,3) by (auto simp: opt_json_def)
qed

lemma sample_upload_created:
  "\<exists>r t s. upload sample_upload_cfg (sample_world Commit Commit) (asc ''a.wav'') (\<lambda>_. None, empty_db, None) =
     (Returned (r, t, True), s)"
proof -
  have "length (path_child (asc ''/u'') (uuid_hex 5 @ asc ''.wav'')) \<le> 1000" by (simp add: path_child_def)
  then show ?thesis
    using sample_ext sample_stage [of Commit Commit]
    by (simp add: upload_def lookup_hash_def repo_get_by_hash_def recording_get_by_hash_def
        staged_commit_def create_keeping_def create_recording_and_task_def insert_pair_tx_def insert_pair_def
        create_recording_def create_task_def task_tx_def upload_answer_def require_task_def submit_opt_def
        empty_db_def sample_world_def sql_where_def first_def new_recording_def new_task_def Let_def)
qed

theorem upload_logged_witness:
  "\<exists>r t s ext st. upload sample_upload_cfg (sample_world Commit Commit) (asc ''a.wav'') (\<lambda>_. None, empty_db, None) =
     (Returned (r, t, True), s) \<and>
   map snd (upload_logs sample_upload_cfg (sample_world Commit Commit) (asc ''a.wav'') (\<lambda>_. None) (\<lambda>_. None, empty_db, None)) =
     [log_received (asc ''a.wav'') ext, log_staged (asc ''a.wav'') st, log_created (asc ''a.wav'') st t] \<and>
   file_hash r = staged_sha st"
proof -
  obtain r t s where u: "upload sample_upload_cfg (sample_world Commit Commit) (asc ''a.wav'') (\<lambda>_. None, empty_db, None) =
     (Returned (r, t, True), s)" using sample_upload_created by blast
  have "upload_told (\<lambda>_. None) (asc ''a.wav'') None (Returned (r, t, True))
     (upload_logs sample_upload_cfg (sample_world Commit Commit) (asc ''a.wav'') (\<lambda>_. None) (\<lambda>_. None, empty_db, None))"
    using upload_logged [OF u, of "[]" "\<lambda>_. None"] by simp
  with u show ?thesis by (fastforce simp: upload_told_def submit_logs_def)
qed

section \<open>Reading and deleting\<close>

definition log_list :: "int \<Rightarrow> int \<Rightarrow> int \<Rightarrow> nat \<Rightarrow> log_call" where
  "log_list page page_size n k = log_info msg_log_list (asc ''recording.list'')
     [(asc ''page'', JInt page), (asc ''page_size'', JInt page_size), (asc ''total'', JInt n),
      (asc ''returned'', JInt (int k))]"

definition list_logs :: "log_ctx \<Rightarrow> interference \<Rightarrow> int \<Rightarrow> int \<Rightarrow> database \<Rightarrow> ctx_call list" where
  "list_logs c env page page_size db =
     (case fst (list_recordings env page page_size db) of
        Inl e \<Rightarrow> [] | Inr (items, n) \<Rightarrow> [(c, log_list page page_size n (length items))])"

definition log_fetched :: "task \<Rightarrow> log_call" where
  "log_fetched t = log_info msg_log_fetched (asc ''recording.fetched'') [status_field t]"

definition get_recording_logs :: "log_ctx \<Rightarrow> interference \<Rightarrow> uuid \<Rightarrow> database \<Rightarrow> ctx_call list" where
  "get_recording_logs c env rid db =
     (case fst (get_recording env rid db) of
        Inl e \<Rightarrow> [] | Inr (r, t) \<Rightarrow> [(bound (Some (task_id t)) (Some (rec_id r)) c, log_fetched t)])"

definition log_deleted :: "pstr \<Rightarrow> log_call" where
  "log_deleted path = log_info msg_log_deleted (asc ''recording.deleted'') [(asc ''path'', JStr path)]"

text \<open>
  \<open>remove_file\<close> swallows every \<open>OSError\<close>, so the branch of \<open>delete_recording\<close> that warns
  of a file left behind is never taken.
\<close>

definition delete_logs :: "log_ctx \<Rightarrow> interference \<Rightarrow> tx \<Rightarrow> uuid \<Rightarrow> database \<Rightarrow> ctx_call list" where
  "delete_logs c env x rid db =
     (case fst (repo_delete env x rid db) of
        Returned (Some path) \<Rightarrow> [(bound None (Some rid) c, log_deleted path)]
      | _ \<Rightarrow> [])"

definition log_reuse :: "uuid \<Rightarrow> log_call" where
  "log_reuse tid = log_info msg_log_reuse (asc ''summary.reuse'') [(asc ''task_id'', JStr (uuid_str tid))]"

definition log_stream :: "uuid \<Rightarrow> pstr \<Rightarrow> log_call" where
  "log_stream tid tr = log_info msg_log_stream (asc ''summary.stream.start'')
     [(asc ''task_id'', JStr (uuid_str tid)), (asc ''transcript_chars'', JInt (int (length tr)))]"

definition prepare_logs ::
  "log_ctx \<Rightarrow> interference \<Rightarrow> summarizer_service option \<Rightarrow> uuid \<Rightarrow> database \<Rightarrow> ctx_call list" where
  "prepare_logs c env sm rid db =
     (case fst (prepare_summary_stream env sm rid db) of
        Inl e \<Rightarrow> []
      | Inr ctx \<Rightarrow>
          [(bound None (Some rid) c,
            if sc_existing ctx \<noteq> None then log_reuse (sc_task_id ctx)
            else log_stream (sc_task_id ctx) (sc_transcript ctx))])"

text \<open>
  A deletion is logged exactly if the row is deleted; that line is also written when the file
  could not be removed.
\<close>

lemma deletion_logged:
  assumes "delete_recording env x unl rid (fs, db) = (res, fs', db')"
  shows "delete_logs c env x rid db \<noteq> [] \<longleftrightarrow> res = Returned ()"
    and "\<forall>p \<in> set (delete_logs c env x rid db). \<exists>path. p = (bound None (Some rid) c, log_deleted path) \<and>
      (if unl path then fs' path = None else fs' = fs)"
  using assms
  by (auto simp: delete_recording_def delete_logs_def remove_file_def
      split: prod.splits tx_result.splits option.splits if_splits)

section \<open>Tasks\<close>

definition log_task :: "task \<Rightarrow> log_call" where
  "log_task t = log_info msg_log_task (asc ''task.fetched'') [status_field t]"

definition task_get_logs :: "log_ctx \<Rightarrow> uuid \<Rightarrow> database \<Rightarrow> ctx_call list" where
  "task_get_logs c tid db =
     (case task_service_get tid db of Inl e \<Rightarrow> [] | Inr t \<Rightarrow> [(bound (Some tid) None c, log_task t)])"

definition log_requeued :: "bool \<Rightarrow> task \<Rightarrow> log_call" where
  "log_requeued again t =
     log_info (if again then msg_log_requeued_race else msg_log_requeued) (asc ''task.retry'') [status_field t]"

definition log_retry_known :: "task \<Rightarrow> log_call" where
  "log_retry_known t = log_info msg_log_retry_known (asc ''task.retry.idempotent'') [status_field t]"

definition retry_calls ::
  "clock \<Rightarrow> interference \<Rightarrow> tx \<Rightarrow> tx \<Rightarrow> uuid \<Rightarrow> database \<Rightarrow> worker_state option \<Rightarrow> log_call list" where
  "retry_calls ck env x1 x2 tid db wk =
     (case task_repo_requeue_failed ck x1 tid db of
        (Returned (Some t), db1) \<Rightarrow> log_requeued False t # submit_logs wk (task_id t)
      | (Returned None, db1) \<Rightarrow>
          (let db2 = env 0 db1 in
           case task_repo_get_by_id tid db2 of
             None \<Rightarrow> []
           | Some t \<Rightarrow>
               (if status t \<in> set RECOVERABLE_STATUSES then [log_retry_known t]
                else if status t = FAILED then
                  (case fst (task_repo_requeue_failed ck x2 tid (env 1 db2)) of
                     Returned (Some t') \<Rightarrow> log_requeued True t' # submit_logs wk (task_id t')
                   | _ \<Rightarrow> [])
                else []))
      | _ \<Rightarrow> [])"

definition retry_logs ::
  "log_ctx \<Rightarrow> clock \<Rightarrow> interference \<Rightarrow> tx \<Rightarrow> tx \<Rightarrow> uuid \<Rightarrow> database \<Rightarrow> worker_state option \<Rightarrow> ctx_call list" where
  "retry_logs c ck env x1 x2 tid db wk =
     map (Pair (bound (Some tid) None c)) (retry_calls ck env x1 x2 tid db wk)"

text \<open>
  What a retry logs tells what it did: a requeue is logged with the row it returns and then
  handed to the worker, a task already in the queue is logged as such; when the second attempt
  finds it requeued by somebody else nothing is logged.
\<close>

definition retry_told :: "worker_state option \<Rightarrow> task tx_result \<Rightarrow> log_call list \<Rightarrow> bool" where
  "retry_told wk res calls \<longleftrightarrow>
     (case res of
        Returned t \<Rightarrow>
          (\<exists>again. calls = log_requeued again t # submit_logs wk (task_id t)) \<or>
          (calls = [log_retry_known t] \<or> calls = []) \<and> status t \<in> set RECOVERABLE_STATUSES
      | _ \<Rightarrow> calls = [] \<or> res = Raised (RuntimeError msg_not_started) \<and> (\<exists>again t. calls = [log_requeued again t]))"

lemma retry_told_submitted:
  assumes "submitted wk (task_id t) t db1 = (res, s)"
  shows "retry_told wk res (log_requeued again t # submit_logs wk (task_id t))"
  using assms submit_opt_logs [of wk "task_id t"]
  by (auto simp: submitted_def retry_told_def split: sum.splits) blast+

lemma retry_logged:
  assumes "task_service_retry ck env x1 x2 tid db wk = (res, s)"
  shows "retry_told wk res (retry_calls ck env x1 x2 tid db wk)"
proof -
  have empty: "retry_told wk res []" if "\<forall>t. res = Returned t \<longrightarrow> status t \<in> set RECOVERABLE_STATUSES"
    using that by (auto simp: retry_told_def split: tx_result.splits)
  obtain r1 db1 where q1: "task_repo_requeue_failed ck x1 tid db = (r1, db1)" by force
  note defs = task_service_retry_def retry_calls_def q1 Let_def
  consider (other) "\<forall>v. r1 \<noteq> Returned v" | (first) t where "r1 = Returned (Some t)"
    | (none) "r1 = Returned None"
    by (metis option.exhaust)
  then show ?thesis
  proof cases
    case other
    then show ?thesis using assms empty by (auto simp: defs split: tx_result.splits)
  next
    case first
    then show ?thesis using assms retry_told_submitted by (simp add: defs)
  next
    case none
    note defs = defs none
    show ?thesis
    proof (cases "task_repo_get_by_id tid (env 0 db1)")
      case None
      then show ?thesis using assms empty by (auto simp: defs)
    next
      case (Some t)
      note defs = defs Some
      show ?thesis
      proof (cases "status t = FAILED")
        case False
        then show ?thesis using assms empty by (auto simp: defs retry_told_def split: if_splits)
      next
        case True
        obtain r2 db3 where q2: "task_repo_requeue_failed ck x2 tid (env (Suc 0) (env 0 db1)) = (r2, db3)" by force
        note defs = defs q2 True
        show ?thesis
        proof (cases "\<exists>t'. r2 = Returned (Some t')")
          case True
          then obtain t' where "r2 = Returned (Some t')" by blast
          then show ?thesis
            using assms retry_told_submitted [of wk t' db3 res s True] by (simp add: defs)
        next
          case False
          then have "retry_calls ck env x1 x2 tid db wk = []"
            by (simp add: defs split: tx_result.split option.split)
          moreover have "\<forall>v. res = Returned v \<longrightarrow> status v \<in> set RECOVERABLE_STATUSES"
            using assms False
            by (cases r2; cases "task_repo_get_by_id tid (env 2 db3)") (auto simp: defs split: option.splits if_splits)
          ultimately show ?thesis using empty by simp
        qed
      qed
    qed
  qed
qed

section \<open>The worker\<close>

text \<open>\<open>TaskWorker.start\<close>; \<open>ri\<close> is the printed reclaim interval, a float.\<close>

definition log_started :: "disp_cfg \<Rightarrow> pstr \<Rightarrow> log_call" where
  "log_started cfg ri = log_info msg_log_started (asc ''worker.started'')
     [(asc ''max_concurrency'', JInt (max_concurrency cfg)), (asc ''lease_seconds'', JInt (lease_seconds (exec_of cfg))),
      (asc ''reclaim_interval'', JFloat ri), (asc ''allow_mock_llm'', JBool (allow_mock_llm (exec_of cfg)))]"

definition start_logs ::
  "disp_cfg \<Rightarrow> clock \<Rightarrow> time \<Rightarrow> tx \<Rightarrow> pstr \<Rightarrow> database \<times> worker_state \<Rightarrow> log_call list" where
  "start_logs cfg ck mt x ri s =
     (case fst (worker_start cfg ck mt x s) of
        Inl e \<Rightarrow> []
      | Inr _ \<Rightarrow> recover_logs True (fst (recover_body cfg ck True (fst s))) @ [log_started cfg ri])"

text \<open>
  \<open>TaskWorker.stop\<close>: \<open>n\<close> coroutines are registered when it begins; \<open>ws\<close> is the state when the
  wait for them ends; \<open>cl\<close> says that closing the summarizer did not raise.
\<close>

definition log_stopping :: "nat \<Rightarrow> log_call" where
  "log_stopping n = log_info msg_log_stopping (asc ''worker.stopping'') [(asc ''in_flight'', JInt (int n))]"

definition log_shutdown :: "pstr list \<Rightarrow> log_call" where
  "log_shutdown keys = log_warning msg_log_shutdown (asc ''worker.shutdown_timeout'')
     [(asc ''pending'', JInt (int (length keys))), (asc ''task_ids'', JList (map JStr keys))]"

definition stop_logs ::
  "disp_cfg \<Rightarrow> clock \<Rightarrow> tx \<Rightarrow> nat \<Rightarrow> bool \<Rightarrow> database \<times> worker_state \<Rightarrow> log_call list" where
  "stop_logs cfg ck x n cl s =
     (if n = 0 then [log_info msg_log_stopped_idle (asc ''worker.stopped'') []]
      else case s of (db, ws) \<Rightarrow>
        let keys = map fst (pending_of (worker_stop_loop ws));
            fin = (if cl then [log_info msg_log_stopped (asc ''worker.stopped'') []] else [])
        in log_stopping n #
           (if keys = [] then fin
            else log_shutdown keys #
              (case (fst (executor_reset_aborted (exec_of cfg) ck x keys db), as_uuids keys) of
                 (Inr _, Inr ids) \<Rightarrow>
                   reset_logs (fst (reset_aborted ck ids (worker_id (exec_of cfg)) msg_aborted db)) @ fin
               | _ \<Rightarrow> [])))"

section \<open>The identity and the transcriber\<close>

text \<open>\<open>_load_or_create\<close> and \<open>resolve_worker_id\<close>; \<open>path\<close> is the state file.\<close>

definition load_logs :: "id_io \<Rightarrow> pstr \<Rightarrow> id_file \<Rightarrow> log_call list" where
  "load_logs io path f =
     (if id_read_fails io then [log_warning msg_log_id_read (asc ''worker.identity.read_failed'') [(asc ''path'', JStr path)]]
      else if f = Undecodable \<or> (case f of Holds s \<Rightarrow> strip s | _ \<Rightarrow> []) \<noteq> [] \<or> \<not> id_write_fails io then []
      else [log_warning msg_log_id_write (asc ''worker.identity.write_failed'') [(asc ''path'', JStr path)]])"

definition identity_logs ::
  "(nat \<Rightarrow> bool) \<Rightarrow> id_io \<Rightarrow> pstr option \<Rightarrow> uuid \<Rightarrow> uuid \<Rightarrow> pstr option \<Rightarrow> pstr \<Rightarrow> id_file \<Rightarrow> log_call list" where
  "identity_logs alnum io host u v setting path f =
     (if or_str setting [] \<noteq> [] then []
      else load_logs io path f @
        (case fst (load_or_create alnum io host u f) of
           Inl e \<Rightarrow> []
         | Inr p \<Rightarrow>
             (if or_str p [] \<noteq> []
              then [log_info msg_log_id_persisted (asc ''worker.identity.persisted'')
                      [(asc ''worker_id'', JStr (or_str p [])), (asc ''path'', JStr path)]]
              else [log_warning msg_log_id_ephemeral (asc ''worker.identity.ephemeral'')
                      [(asc ''worker_id'', JStr (new_worker_id alnum host v))]])))"

definition transcribe_logs :: "pstr \<Rightarrow> pstr \<Rightarrow> exn + pstr \<Rightarrow> log_call list" where
  "transcribe_logs path ms r =
     (case r of
        Inl e \<Rightarrow> []
      | Inr tr \<Rightarrow> [log_info msg_log_asr (asc ''asr.completed'')
          [(asc ''file_path'', JStr path), (asc ''transcript_chars'', JInt (int (length tr))),
           (asc ''duration_ms'', JFloat ms)]])"

text \<open>
  The last line of the identity names the identity the worker takes, and calls it persisted
  exactly if the next start will find it: a fallback is preceded by a warning that says why.
\<close>

lemma identity_told:
  assumes "resolve_worker_id alnum io host u v setting f = (Inr w, f')" and "or_str setting [] = []"
    and "\<forall>c. alnum c \<longrightarrow> \<not> is_space c"
  shows "report (last (identity_logs alnum io host u v setting path f)) (asc ''worker_id'') = Some (JStr w) \<and>
    (lc_event (last (identity_logs alnum io host u v setting path f)) = asc ''worker.identity.persisted'' \<longleftrightarrow>
       (\<exists>s. f' = Holds s \<and> take max_worker_id_len (strip s) = w \<and> \<not> id_read_fails io)) \<and>
    (length (identity_logs alnum io host u v setting path f) = 2 \<longleftrightarrow>
       lc_event (last (identity_logs alnum io host u v setting path f)) = asc ''worker.identity.ephemeral'')"
proof -
  have ne: "new_worker_id alnum host k \<noteq> []" "strip (new_worker_id alnum host k) = new_worker_id alnum host k"
    "take max_worker_id_len (new_worker_id alnum host k) = new_worker_id alnum host k" for k
    using new_worker_id_ne new_worker_id_strip [OF assms(3)] new_worker_id_length [of alnum host k]
    by (simp_all add: max_worker_id_len_def)
  show ?thesis
    using assms(1,2) ne not_sym [OF ne(1)]
    by (cases f) (auto simp: resolve_worker_id_def load_or_create_def identity_logs_def load_logs_def Let_def or_str_def
        log_info_def log_warning_def report_def asc_inj max_worker_id_len_def split: if_splits)
qed

end
