(* ===== verification/Llm_Logs.thy ===== *)
theory Llm_Logs
  imports Log_Calls Llm_Properties
begin

text \<open>
  What the LLM client writes to the log: the calls of \<open>logger\<close> in \<open>api/core/llm/llm.py\<close>, beside
  the retry loop.  Every request that is made leaves one record, the attempts are numbered
  without a gap, a reported pause is the one that is made, and the last record tells the outcome.
\<close>

section \<open>Messages\<close>

text \<open>"LLM summary generated".\<close>

definition msg_llm_ok :: pstr where
    [msg_defs]: "msg_llm_ok = asc ''LLM '' @ [25688, 35201, 29983, 25104, 25104, 21151]"

text \<open>"LLM summary could not be parsed or validated".\<close>

definition msg_llm_parse :: pstr where
    [msg_defs]: "msg_llm_parse = asc ''LLM '' @ [25688, 35201, 35299, 26512] @ asc ''/'' @ [26657,
     39564, 22833, 36133]"

text \<open>"LLM rate limit, will be retried later".\<close>

definition msg_llm_limited :: pstr where
    [msg_defs]: "msg_llm_limited = asc ''LLM '' @ [38480, 27969, 65292, 31245, 21518, 37325, 35797]"

text \<open>"LLM call failed (timeout or connection)".\<close>

definition msg_llm_connection :: pstr where
    [msg_defs]: "msg_llm_connection = asc ''LLM '' @ [35843, 29992, 22833, 36133, 65288, 36229,
     26102] @ asc ''/'' @ [36830, 25509, 65289]"

text \<open>"LLM HTTP error that is not retried".\<close>

definition msg_llm_fatal_status :: pstr where
    [msg_defs]: "msg_llm_fatal_status = asc ''LLM '' @ [19981, 21487, 37325, 35797, 30340] @ asc ''
     HTTP '' @ [38169, 35823]"

text \<open>"LLM HTTP error, will be retried later".\<close>

definition msg_llm_status :: pstr where
    [msg_defs]: "msg_llm_status = asc ''LLM HTTP '' @ [38169, 35823, 65292, 31245, 21518, 37325,
     35797]"

text \<open>"LLM unknown error".\<close>

definition msg_llm_unknown :: pstr where
    [msg_defs]: "msg_llm_unknown = asc ''LLM '' @ [26410, 30693, 38169, 35823]"

text \<open>"the retries of the LLM summary are used up".\<close>

definition msg_llm_exhausted :: pstr where
    [msg_defs]: "msg_llm_exhausted = asc ''LLM '' @ [25688, 35201, 37325, 35797, 32791, 23613]"

text \<open>"LLM streamed summary failed".\<close>

definition msg_llm_stream :: pstr where
    [msg_defs]: "msg_llm_stream = asc ''LLM '' @ [27969, 24335, 25688, 35201, 22833, 36133]"

text \<open>The warning of \<open>_call_llm\<close>; loguru does not fill the placeholder in.\<close>

definition msg_llm_gateway :: pstr where
  [msg_defs]: "msg_llm_gateway = asc ''Gateway may not support response_format=json_object; retrying without it: %s''"

section \<open>Calls\<close>

text \<open>\<open>Bare\<close> is a call without an event, as the warning of \<open>_call_llm\<close> is.\<close>

datatype llm_log = Event log_call | Bare pstr pstr

definition log_llm_ok :: "nat \<Rightarrow> pstr \<Rightarrow> llm_log" where
  "log_llm_ok k raw = Event \<lparr>lc_level = asc ''DEBUG'', lc_message = msg_llm_ok, lc_event = asc ''llm.summarize.ok'',
     lc_fields = [(asc ''attempt'', JInt (int k)), (asc ''chars'', JInt (int (length raw)))], lc_exc = None\<rparr>"

text \<open>\<open>error={"type": type(e).__name__, "message": str(e)}\<close>.\<close>

definition error_field :: "(llm_error \<Rightarrow> pstr) \<Rightarrow> (llm_error \<Rightarrow> pstr) \<Rightarrow> llm_error \<Rightarrow> pstr \<times> json" where
  "error_field err_type err_str e =
     (asc ''error'', JDict [(asc ''type'', JStr (err_type e)), (asc ''message'', JStr (err_str e))])"

definition attempt_fields :: "llm_cfg \<Rightarrow> nat \<Rightarrow> (pstr \<times> json) list" where
  "attempt_fields cfg k = [(asc ''attempt'', JInt (int k)), (asc ''max_retries'', JInt (int (llm_max_retries cfg)))]"

definition log_llm_failed :: "pstr \<Rightarrow> (pstr \<times> json) list \<Rightarrow> pstr \<Rightarrow> llm_log" where
  "log_llm_failed m fs t = Event ((log_exception m (asc ''llm.summarize.failed'') (OtherError t))\<lparr>lc_fields := fs\<rparr>)"

text \<open>The handler of a failed attempt; \<open>secs\<close> prints a pause.\<close>

definition failure_log ::
  "(pstr \<Rightarrow> time option) \<Rightarrow> (time \<Rightarrow> pstr) \<Rightarrow> (llm_error \<Rightarrow> pstr) \<Rightarrow> (llm_error \<Rightarrow> pstr) \<Rightarrow> llm_cfg \<Rightarrow>
   llm_error \<Rightarrow> nat \<Rightarrow> llm_log" where
  "failure_log float_of secs err_type err_str cfg e k =
     (case e of
        LLMParseError _ \<Rightarrow> Event (log_warning msg_llm_parse (asc ''llm.summarize.parse_error'')
          (attempt_fields cfg k @ [error_field err_type err_str e]))
      | ValidationError _ \<Rightarrow> Event (log_warning msg_llm_parse (asc ''llm.summarize.parse_error'')
          (attempt_fields cfg k @ [error_field err_type err_str e]))
      | RateLimitError h \<Rightarrow> Event (log_warning msg_llm_limited (asc ''llm.summarize.rate_limited'')
          (attempt_fields cfg k @ [(asc ''sleep_seconds'', JFloat (secs (rate_limit_delay float_of cfg h k))),
             error_field err_type err_str e]))
      | APIConnectionError _ \<Rightarrow> Event (log_warning msg_llm_connection (asc ''llm.summarize.retry'')
          (attempt_fields cfg k @ [error_field err_type err_str e]))
      | APIStatusError c _ \<Rightarrow>
          (if is_retriable_api_status c
           then Event (log_warning msg_llm_status (asc ''llm.summarize.retry'')
             (attempt_fields cfg k @ [(asc ''status'', JInt c), error_field err_type err_str e]))
           else log_llm_failed msg_llm_fatal_status [(asc ''status'', JInt c)] (err_str e))
      | UnknownError _ \<Rightarrow> log_llm_failed msg_llm_unknown [] (err_str e))"

definition log_llm_exhausted :: "llm_cfg \<Rightarrow> llm_log" where
  "log_llm_exhausted cfg = Event (log_error msg_llm_exhausted (asc ''llm.summarize.exhausted'')
     [(asc ''max_retries'', JInt (int (llm_max_retries cfg)))])"

section \<open>The loop\<close>

definition gateway_logs :: "llm_cfg \<Rightarrow> answers \<Rightarrow> nat \<Rightarrow> pstr \<Rightarrow> llm_log list" where
  "gateway_logs cfg ans k transcript =
     (case ans k (llm_request_of cfg transcript True False) of
        Inl e \<Rightarrow> (if status_code e = Some 400 then [Bare (asc ''WARNING'') msg_llm_gateway] else [])
      | Inr _ \<Rightarrow> [])"

definition attempt_logs where
  "attempt_logs fl float_of secs err_type err_str validate cfg ans k transcript =
     gateway_logs cfg ans k transcript @
     [case fst (llm_attempt fl validate cfg ans k transcript) of
        Inl e \<Rightarrow> failure_log float_of secs err_type err_str cfg e k
      | Inr r \<Rightarrow> log_llm_ok k (projr (fst (call_llm cfg ans k transcript)))]"

fun loop_logs ::
  "(pstr \<Rightarrow> pstr) \<Rightarrow> (pstr \<Rightarrow> time option) \<Rightarrow> (time \<Rightarrow> pstr) \<Rightarrow> (llm_error \<Rightarrow> pstr) \<Rightarrow> (llm_error \<Rightarrow> pstr) \<Rightarrow>
   ((pstr \<times> json) list \<Rightarrow> pstr + summary_result) \<Rightarrow> llm_cfg \<Rightarrow> answers \<Rightarrow> pstr \<Rightarrow> nat \<Rightarrow> nat \<Rightarrow> llm_log list" where
  "loop_logs fl float_of secs err_type err_str validate cfg ans transcript k 0 = [log_llm_exhausted cfg]"
| "loop_logs fl float_of secs err_type err_str validate cfg ans transcript k (Suc left) =
     attempt_logs fl float_of secs err_type err_str validate cfg ans k transcript @
     (case fst (llm_attempt fl validate cfg ans k transcript) of
        Inr r \<Rightarrow> []
      | Inl e \<Rightarrow>
          (case retry_delay float_of cfg e k of
             None \<Rightarrow> []
           | Some d \<Rightarrow> loop_logs fl float_of secs err_type err_str validate cfg ans transcript (Suc k) left))"

definition summarize_logs where
  "summarize_logs fl float_of secs err_type err_str validate cfg ans transcript =
     (if strip transcript = [] then []
      else loop_logs fl float_of secs err_type err_str validate cfg ans transcript 1 (llm_max_retries cfg))"

text \<open>\<open>summarize_stream\<close>: the handler of an exception of the stream.\<close>

definition stream_logs :: "(llm_error \<Rightarrow> pstr) \<Rightarrow> llm_cfg \<Rightarrow> (llm_request \<Rightarrow> llm_stream) \<Rightarrow> pstr \<Rightarrow> llm_log list" where
  "stream_logs err_str cfg ans transcript =
     (if strip transcript = [] then []
      else let broken = (\<lambda>e. [Event (log_exception msg_llm_stream (asc ''llm.stream.failed'') (OtherError (err_str e)))])
           in case ans (llm_request_of cfg transcript False True) of
                Inl e \<Rightarrow> broken e
              | Inr (cs, brk) \<Rightarrow> (case brk of Some e \<Rightarrow> broken e | None \<Rightarrow> []))"

section \<open>What the records tell\<close>

definition event_of :: "llm_log \<Rightarrow> pstr" where
  "event_of l = (case l of Event c \<Rightarrow> lc_event c | Bare _ _ \<Rightarrow> [])"

definition field_of :: "llm_log \<Rightarrow> pstr \<Rightarrow> json option" where
  "field_of l k = (case l of Event c \<Rightarrow> report c k | Bare _ _ \<Rightarrow> None)"

text \<open>The attempts that are reported, in the order of the log.\<close>

definition attempts_of :: "llm_log list \<Rightarrow> json list" where
  "attempts_of L = map the (filter (\<lambda>x. x \<noteq> None) (map (\<lambda>l. field_of l (asc ''attempt'')) L))"

lemma attempts_append [simp]: "attempts_of (L @ M) = attempts_of L @ attempts_of M"
  by (simp add: attempts_of_def)

lemma attempts_Cons: "attempts_of (l # L) = (case field_of l (asc ''attempt'') of None \<Rightarrow> [] | Some j \<Rightarrow> [j]) @ attempts_of L"
  by (simp add: attempts_of_def split: option.split)

lemmas llm_calls = failure_log_def log_llm_failed_def log_llm_ok_def log_llm_exhausted_def attempt_fields_def error_field_def
  event_of_def field_of_def report_def log_warning_def log_error_def log_exception_def

lemma ok_fields [simp]:
  "event_of (log_llm_ok k raw) = asc ''llm.summarize.ok''"
  "field_of (log_llm_ok k raw) (asc ''attempt'') = Some (JInt (int k))"
  by (simp_all add: llm_calls asc_inj)

lemma exhausted_fields [simp]:
  "event_of (log_llm_exhausted cfg) = asc ''llm.summarize.exhausted''"
  "field_of (log_llm_exhausted cfg) (asc ''attempt'') = None"
  by (simp_all add: llm_calls asc_inj)

lemma failure_retried:
  assumes "retry_delay float_of cfg e k = Some d"
  shows "field_of (failure_log float_of secs err_type err_str cfg e k) (asc ''attempt'') = Some (JInt (int k))"
    and "field_of (failure_log float_of secs err_type err_str cfg e k) (asc ''sleep_seconds'') \<in> {None, Some (JFloat (secs d))}"
  using assms by (cases e; auto simp: retry_delay_def llm_calls asc_inj split: if_splits)+

lemma failure_fatal:
  assumes "retry_delay float_of cfg e k = None"
  shows "field_of (failure_log float_of secs err_type err_str cfg e k) (asc ''attempt'') = None"
    and "event_of (failure_log float_of secs err_type err_str cfg e k) = asc ''llm.summarize.failed''"
  using assms by (cases e; auto simp: retry_delay_def llm_calls asc_inj split: if_splits)+

lemma gateway_attempts [simp]: "attempts_of (gateway_logs cfg ans k transcript) = []"
  by (simp add: gateway_logs_def attempts_of_def field_of_def split: sum.split)

text \<open>One record for each request of an attempt.\<close>

lemma attempt_logs_length:
  "length (attempt_logs fl float_of secs err_type err_str validate cfg ans k transcript) =
     length (snd (llm_attempt fl validate cfg ans k transcript))"
  by (auto simp: attempt_logs_def gateway_logs_def llm_attempt_def call_llm_def Let_def
      split: sum.split prod.split)

text \<open>
  The log of a loop that begins with the k-th attempt, makes the requests \<open>made\<close> and the pauses
  \<open>slept\<close>, and ends with \<open>res\<close>.
\<close>

definition outcome_told :: "nat \<Rightarrow> (exn + summary_result) \<Rightarrow> pstr \<Rightarrow> bool" where
  "outcome_told mx res ev \<longleftrightarrow>
     (case res of
        Inr r \<Rightarrow> ev = asc ''llm.summarize.ok''
      | Inl e \<Rightarrow>
          ev = asc ''llm.summarize.failed'' \<and> (\<exists>m. e = RuntimeError (msg_failed m)) \<or>
          ev = asc ''llm.summarize.exhausted'' \<and> (\<exists>m. e = RuntimeError (msg_exhausted mx m)))"

definition loop_told ::
  "(time \<Rightarrow> pstr) \<Rightarrow> nat \<Rightarrow> nat \<Rightarrow> (exn + summary_result) \<Rightarrow> nat \<Rightarrow> time list \<Rightarrow> llm_log list \<Rightarrow> bool" where
  "loop_told secs mx k res requests slept L \<longleftrightarrow>
     L \<noteq> [] \<and> outcome_told mx res (event_of (last L)) \<and>
     length L = requests + (if event_of (last L) = asc ''llm.summarize.exhausted'' then 1 else 0) \<and>
     (\<exists>n. attempts_of L = map (\<lambda>j. JInt (int j)) [k..<k + n] \<and> length slept \<le> n \<and> n \<le> Suc (length slept)) \<and>
     (\<forall>i < length slept. \<exists>l \<in> set L. field_of l (asc ''attempt'') = Some (JInt (int (k + i))) \<and>
        field_of l (asc ''sleep_seconds'') \<in> {None, Some (JFloat (secs (slept ! i)))})"

lemma loop_told_last:
  assumes "outcome_told mx res (event_of l)"
    and "event_of l = asc ''llm.summarize.exhausted'' \<Longrightarrow> requests = 0"
    and "event_of l \<noteq> asc ''llm.summarize.exhausted'' \<Longrightarrow> requests = Suc (length G)"
    and "field_of l (asc ''attempt'') \<in> {None, Some (JInt (int k))}" and "attempts_of G = []"
    and "event_of l = asc ''llm.summarize.exhausted'' \<Longrightarrow> G = []"
  shows "loop_told secs mx k res requests [] (G @ [l])"
proof -
  have "\<exists>n. attempts_of (G @ [l]) = map (\<lambda>j. JInt (int j)) [k..<k + n] \<and> n \<le> Suc 0"
  proof (cases "field_of l (asc ''attempt'')")
    case None
    then show ?thesis using assms(5) by (intro exI [of _ 0]) (simp add: attempts_Cons, simp add: attempts_of_def)
  next
    case (Some j)
    then have "attempts_of (G @ [l]) = [JInt (int k)]"
      using assms(4,5) by (simp add: attempts_Cons) (simp add: attempts_of_def)
    then show ?thesis by (intro exI [of _ 1]) simp
  qed
  then show ?thesis
    using assms(1-3,6) by (auto simp: loop_told_def)
qed

text \<open>An attempt that is retried, before the rest of the loop.\<close>

lemma loop_told_retried:
  assumes "loop_told secs mx (Suc k) res requests slept L"
    and "field_of l (asc ''attempt'') = Some (JInt (int k))" and "attempts_of G = []"
    and "field_of l (asc ''sleep_seconds'') \<in> {None, Some (JFloat (secs d))}"
    and "length M = Suc (length G)" and "M = G @ [l]"
  shows "loop_told secs mx k res (length M + requests) (d # slept) (M @ L)"
proof -
  obtain n where n: "attempts_of L = map (\<lambda>j. JInt (int j)) [Suc k..<Suc k + n]" "length slept \<le> n" "n \<le> Suc (length slept)"
    using assms(1) by (auto simp: loop_told_def)
  have "attempts_of (M @ L) = map (\<lambda>j. JInt (int j)) [k..<k + Suc n]"
    using n(1) assms(2,3,6) by (simp add: attempts_Cons upt_conv_Cons attempts_of_def)
  moreover have "\<exists>x \<in> set (M @ L). field_of x (asc ''attempt'') = Some (JInt (int (k + i))) \<and>
      field_of x (asc ''sleep_seconds'') \<in> {None, Some (JFloat (secs ((d # slept) ! i)))}"
    if i: "i < length (d # slept)" for i
  proof (cases i)
    case 0
    then show ?thesis using assms(2,4,6) by (intro bexI [of _ l]) auto
  next
    case (Suc j)
    then have "j < length slept" using i by simp
    with assms(1) obtain x where "x \<in> set L" "field_of x (asc ''attempt'') = Some (JInt (int (Suc k + j)))"
      "field_of x (asc ''sleep_seconds'') \<in> {None, Some (JFloat (secs (slept ! j)))}"
      unfolding loop_told_def by blast
    then show ?thesis using Suc by (intro bexI [of _ x]) auto
  qed
  ultimately have "\<exists>n. attempts_of (M @ L) = map (\<lambda>j. JInt (int j)) [k..<k + n] \<and> length (d # slept) \<le> n \<and>
      n \<le> Suc (length (d # slept))"
    and "\<forall>i < length (d # slept). \<exists>x \<in> set (M @ L). field_of x (asc ''attempt'') = Some (JInt (int (k + i))) \<and>
      field_of x (asc ''sleep_seconds'') \<in> {None, Some (JFloat (secs ((d # slept) ! i)))}"
    using n(2,3) by (metis Suc_le_mono length_Cons, blast)
  moreover have "M @ L \<noteq> []" "event_of (last (M @ L)) = event_of (last L)" using assms(1) by (simp_all add: loop_told_def)
  ultimately show ?thesis
    using assms(1) unfolding loop_told_def by (simp only: length_append) simp
qed

lemma loop_told_exhausted:
  assumes "field_of l (asc ''attempt'') = Some (JInt (int k))" and "attempts_of G = []"
    and "length M = Suc (length G)" and "M = G @ [l]" and "llm_max_retries cfg = mx"
  shows "loop_told secs mx k (Inl (RuntimeError (msg_exhausted mx t))) (length M) [] (M @ [log_llm_exhausted cfg])"
proof -
  have "attempts_of (M @ [log_llm_exhausted cfg]) = map (\<lambda>j. JInt (int j)) [k..<k + 1]"
    using assms(1,2,4) by (simp add: attempts_Cons) (simp add: attempts_of_def)
  then have "\<exists>n. attempts_of (M @ [log_llm_exhausted cfg]) = map (\<lambda>j. JInt (int j)) [k..<k + n] \<and> n \<le> Suc 0"
    by (intro exI [of _ 1]) simp
  then show ?thesis by (auto simp: loop_told_def outcome_told_def simp del: attempts_append)
qed

text \<open>The loop and its log.\<close>

lemma loop_logs_told:
  assumes "llm_loop fl float_of err_str validate cfg ans transcript k left prev tr = (res, tr')"
    and "k + left = Suc (llm_max_retries cfg)" and "0 < left"
  shows "\<exists>made slept. tr_requests tr' = tr_requests tr @ made \<and> tr_sleeps tr' = tr_sleeps tr @ slept \<and>
    loop_told secs (llm_max_retries cfg) k res (length made) slept
      (loop_logs fl float_of secs err_type err_str validate cfg ans transcript k left)"
  using assms
proof (induction left arbitrary: k prev tr)
  case (Suc left)
  let ?L = "attempt_logs fl float_of secs err_type err_str validate cfg ans k transcript"
  let ?G = "gateway_logs cfg ans k transcript"
  obtain r made where a: "llm_attempt fl validate cfg ans k transcript = (r, made)" by force
  have len: "length ?L = length made" using attempt_logs_length [of fl float_of secs err_type err_str validate cfg ans k transcript] a by simp
  show ?case
  proof (cases r)
    case (Inr v)
    have L: "?L = ?G @ [log_llm_ok k (projr (fst (call_llm cfg ans k transcript)))]"
      by (simp add: attempt_logs_def a Inr)
    have "loop_told secs (llm_max_retries cfg) k (Inr v) (length made) [] ?L"
      using len unfolding L by (intro loop_told_last) (simp_all add: outcome_told_def asc_inj)
    then show ?thesis using Suc.prems(1) by (intro exI [of _ made] exI [of _ "[]"]) (auto simp: a Inr)
  next
    case (Inl e)
    define l where "l = failure_log float_of secs err_type err_str cfg e k"
    have L: "?L = ?G @ [l]" by (simp add: attempt_logs_def a Inl l_def)
    show ?thesis
    proof (cases "retry_delay float_of cfg e k")
      case None
      note ff = failure_fatal [OF None, of secs err_type err_str, folded l_def]
      have "loop_told secs (llm_max_retries cfg) k (Inl (RuntimeError (msg_failed (err_str e)))) (length made) [] ?L"
        using len ff unfolding L by (intro loop_told_last) (auto simp: outcome_told_def asc_inj)
      then show ?thesis using Suc.prems(1) by (intro exI [of _ made] exI [of _ "[]"]) (auto simp: a Inl None)
    next
      case (Some d)
      note fr = failure_retried [OF Some, of secs err_type err_str, folded l_def]
      let ?tr = "tr\<lparr>tr_requests := tr_requests tr @ made,
          tr_sleeps := tr_sleeps tr @ (if k < llm_max_retries cfg then [d] else [])\<rparr>"
      have loop: "llm_loop fl float_of err_str validate cfg ans transcript (Suc k) left (Some e) ?tr = (res, tr')"
        using Suc.prems(1) by (simp add: a Inl Some)
      have logs: "loop_logs fl float_of secs err_type err_str validate cfg ans transcript k (Suc left) =
          ?L @ loop_logs fl float_of secs err_type err_str validate cfg ans transcript (Suc k) left"
        by (simp add: a Inl Some)
      have len': "length ?L = Suc (length ?G)" by (simp add: L)
      show ?thesis
      proof (cases left)
        case 0
        then have "\<not> k < llm_max_retries cfg" using Suc.prems(2) by simp
        with loop 0 obtain t where "res = Inl (RuntimeError (msg_exhausted (llm_max_retries cfg) t))"
          "tr_requests tr' = tr_requests tr @ made" "tr_sleeps tr' = tr_sleeps tr" by auto
        then show ?thesis
          using loop_told_exhausted [OF fr(1) gateway_attempts len' L refl, where secs = secs and t = t] len 0 logs
          by (intro exI [of _ made] exI [of _ "[]"]) simp
      next
        case (Suc left')
        then have k: "k < llm_max_retries cfg" "Suc k + left = Suc (llm_max_retries cfg)" "0 < left" using Suc.prems(2) by simp_all
        from Suc.IH [OF loop k(2,3)] obtain made' slept where ih: "tr_requests tr' = tr_requests ?tr @ made'"
          "tr_sleeps tr' = tr_sleeps ?tr @ slept"
          "loop_told secs (llm_max_retries cfg) (Suc k) res (length made') slept
             (loop_logs fl float_of secs err_type err_str validate cfg ans transcript (Suc k) left)" by blast
        from loop_told_retried [OF ih(3) fr(1) gateway_attempts fr(2) len' L]
        show ?thesis
          unfolding logs using ih(1,2) k(1) len
          by (intro exI [of _ "made @ made'"] exI [of _ "d # slept"]) simp
      qed
    qed
  qed
qed simp

section \<open>The log of a summary\<close>

text \<open>C31.
  The log accounts for a summary.  Every request to the endpoint leaves exactly one record, and
  the only other one is that the retries are used up; the attempts are reported in their order
  without a gap, all but one that ends the call with an error; every pause that is made follows a
  record of its attempt, which, if it names a pause, names that one; and the last record tells
  whether the call returned a summary, met an error that is not retried, or ran out of attempts.
\<close>

theorem llm_log_accounts:
  assumes "summarize_model fl float_of err_str validate cfg ans transcript = (res, tr)"
    and "1 \<le> llm_max_retries cfg" and "strip transcript \<noteq> []"
    and "L = summarize_logs fl float_of secs err_type err_str validate cfg ans transcript"
  shows "length L = length (tr_requests tr) + (if event_of (last L) = asc ''llm.summarize.exhausted'' then 1 else 0) \<and>
    (\<exists>n. attempts_of L = map (\<lambda>j. JInt (int j)) [1..<Suc n] \<and> length (tr_sleeps tr) \<le> n \<and> n \<le> Suc (length (tr_sleeps tr))) \<and>
    (\<forall>i < length (tr_sleeps tr). \<exists>l \<in> set L. field_of l (asc ''attempt'') = Some (JInt (int (Suc i))) \<and>
       field_of l (asc ''sleep_seconds'') \<in> {None, Some (JFloat (secs (tr_sleeps tr ! i)))}) \<and>
    (case res of
       Inr r \<Rightarrow> event_of (last L) = asc ''llm.summarize.ok''
     | Inl e \<Rightarrow>
         event_of (last L) = asc ''llm.summarize.failed'' \<and> (\<exists>m. e = RuntimeError (msg_failed m)) \<or>
         event_of (last L) = asc ''llm.summarize.exhausted'' \<and>
           (\<exists>m. e = RuntimeError (msg_exhausted (llm_max_retries cfg) m)))"
proof -
  have "llm_loop fl float_of err_str validate cfg ans transcript 1 (llm_max_retries cfg) None
      \<lparr>tr_requests = [], tr_sleeps = []\<rparr> = (res, tr)"
    using assms(1,3) by (simp add: summarize_model_def)
  from loop_logs_told [OF this, of secs err_type] assms(2-4)
  have "loop_told secs (llm_max_retries cfg) 1 res (length (tr_requests tr)) (tr_sleeps tr) L"
    by (simp add: summarize_logs_def)
  then show ?thesis by (simp add: loop_told_def outcome_told_def)
qed

text \<open>The gateway that is down at first: two requests, two records.\<close>

theorem llm_log_accounts_witness:
  "length (summarize_logs (\<lambda>t. t) (\<lambda>_. None) (\<lambda>_. []) (\<lambda>_. []) (\<lambda>_. []) sample_validate sample_llm sample_answers
      (asc ''hi'')) = 2"
proof -
  let ?sum = "summarize_model (\<lambda>t. t) (\<lambda>_. None) (\<lambda>_. []) sample_validate sample_llm sample_answers (asc ''hi'')"
  let ?L = "summarize_logs (\<lambda>t. t) (\<lambda>_. None) (\<lambda>_. []) (\<lambda>_. []) (\<lambda>_. []) sample_validate sample_llm sample_answers (asc ''hi'')"
  have "\<forall>j. 1 \<le> j \<and> j \<le> 1 \<longrightarrow>
      attempt_delay (\<lambda>t. t) (\<lambda>_. None) sample_validate sample_llm sample_answers (asc ''hi'') j \<noteq> None"
    using sample_attempts(1) by (auto simp: le_antisym)
  moreover have "attempt_delay (\<lambda>t. t) (\<lambda>_. None) sample_validate sample_llm sample_answers (asc ''hi'') (Suc 1) = None"
    using sample_attempts(2) by (simp add: attempt_delay_def numeral_2_eq_2)
  moreover have m: "llm_max_retries sample_llm = 3" by (simp add: sample_llm_def)
  ultimately have sum: "\<exists>r tr. ?sum = (Inr r, tr) \<and> length (tr_requests tr) = 2"
    using summarize_run [OF sample_transcript, of 1 sample_llm "\<lambda>t. t" "\<lambda>_. None" sample_validate sample_answers "\<lambda>_. []"]
      sample_attempts
    by (simp add: numeral_2_eq_2 attempt_requests_def)
      (simp add: llm_attempt_def call_llm_def sample_answers_def status_code_def)
  then obtain r tr where s: "?sum = (Inr r, tr)" "length (tr_requests tr) = 2" by blast
  from llm_log_accounts [OF s(1) _ sample_transcript refl, of "\<lambda>_. []" "\<lambda>_. []"] m s(2)
  show ?thesis by (auto simp: asc_inj)
qed

text \<open>
  The warnings of a rate limit and of a retriable status say that the call will be retried; after
  the last attempt it is not, and the pause the record names is not made.
\<close>

lemma announced_pause_not_made:
  assumes "llm_max_retries cfg = 1" and "strip transcript \<noteq> []" and "\<forall>k rq. ans k rq = Inl (RateLimitError h)"
  shows "tr_sleeps (snd (summarize_model fl float_of err_str validate cfg ans transcript)) = [] \<and>
    (\<exists>l. summarize_logs fl float_of secs err_type err_str validate cfg ans transcript = [l, log_llm_exhausted cfg] \<and>
       field_of l (asc ''sleep_seconds'') = Some (JFloat (secs (rate_limit_delay float_of cfg h 1))))"
  using assms
  by (simp add: summarize_model_def summarize_logs_def llm_attempt_def call_llm_def status_code_def retry_delay_def
      attempt_logs_def gateway_logs_def failure_log_def field_of_def report_def log_warning_def attempt_fields_def asc_inj)

end
