(* ===== verification/Http_Logs.thy ===== *)
theory Http_Logs
  imports Service_Logs Http_Properties
begin

text \<open>
  What a request writes to the log: the access record of the middleware \<open>request_context\<close> in
  \<open>app.py\<close>, the record of the handler \<open>unhandled\<close> in \<open>core/errors.py\<close>, and around the records
  of the services the request id they are all bound to.
\<close>

section \<open>The records\<close>

text \<open>"HTTP request failed", "HTTP request finished" and "unhandled exception".\<close>

definition msg_log_http_error :: pstr where
  [msg_defs]: "msg_log_http_error = [72, 84, 84, 80, 32, 35831, 27714, 24322, 24120]"

definition msg_log_http :: pstr where
  [msg_defs]: "msg_log_http = [72, 84, 84, 80, 32, 35831, 27714, 23436, 25104]"

definition msg_log_unhandled :: pstr where
  [msg_defs]: "msg_log_unhandled = [26410, 22788, 29702, 24322, 24120]"

text \<open>\<open>ms\<close> is the printed duration.\<close>

definition access_fields :: "pstr \<Rightarrow> pstr \<Rightarrow> int \<Rightarrow> pstr \<Rightarrow> (pstr \<times> json) list" where
  "access_fields meth path st ms =
     [(asc ''method'', JStr meth), (asc ''path'', JStr path), (asc ''status'', JInt st), (asc ''duration_ms'', JFloat ms)]"

definition log_request_error :: "pstr \<Rightarrow> pstr \<Rightarrow> pstr \<Rightarrow> log_call" where
  "log_request_error meth path ms =
     log_error msg_log_http_error (asc ''http.request.error'') (access_fields meth path 500 ms)"

definition log_request :: "pstr \<Rightarrow> pstr \<Rightarrow> int \<Rightarrow> pstr \<Rightarrow> log_call" where
  "log_request meth path st ms = log_info msg_log_http (asc ''http.request'') (access_fields meth path st ms)"

definition log_unhandled :: "exn \<Rightarrow> log_call" where
  "log_unhandled e = log_exception msg_log_unhandled (asc ''http.unhandled_error'') e"

section \<open>The middleware and its context\<close>

definition bind_request_id :: "pstr option \<Rightarrow> log_ctx \<Rightarrow> ctx_token \<times> log_ctx" where
  "bind_request_id value c = bind_var RequestId value c"

text \<open>
  The access record and the context the middleware leaves: reset after an answer, but not when an
  exception goes through it (\<open>r\<close> is what comes out of the handlers inside).
\<close>

definition request_calls ::
  "pstr \<Rightarrow> pstr \<Rightarrow> pstr \<Rightarrow> http_response http_result \<Rightarrow> ctx_token \<times> log_ctx \<Rightarrow> ctx_call list \<times> log_ctx" where
  "request_calls meth path ms r b =
     (case b of
        (token, c1) \<Rightarrow>
          (case r of
             Escapes e \<Rightarrow> ([(c1, log_request_error meth path ms)], c1)
           | NoAnswer \<Rightarrow> ([], c1)
           | Answer resp \<Rightarrow>
               (if path = asc ''/health'' then [] else [(c1, log_request meth path (rs_status resp) ms)],
                reset_var token c1)))"

text \<open>
  \<open>unhandled\<close> runs outside, after the middleware; every exception that is not one of the code's
  has a handler inside.
\<close>

definition unhandled_calls :: "http_response http_result \<Rightarrow> log_ctx \<Rightarrow> ctx_call list" where
  "unhandled_calls r c =
     (case r of Escapes (CodeExn x) \<Rightarrow> [(c, log_unhandled x)] | _ \<Rightarrow> [])"

text \<open>
  The log of a request: what the endpoint logs in the context with the request id, then the
  records of the middleware and of \<open>unhandled\<close>.  (What a stream logs
  while its body is sent, after that, is in \<open>Llm_Logs\<close>.)
\<close>

definition request_trace ::
  "pstr \<Rightarrow> pstr \<Rightarrow> pstr \<Rightarrow> pstr \<Rightarrow> (log_ctx \<Rightarrow> ctx_call list) \<Rightarrow> http_response http_result \<Rightarrow> log_ctx \<Rightarrow>
     ctx_call list \<times> log_ctx" where
  "request_trace meth path rid ms endpoint r c =
     (let b = bind_request_id (Some rid) c; r' = run_handlers r in
      case request_calls meth path ms r' b of
        (calls, c') \<Rightarrow> (endpoint (snd b) @ calls @ unhandled_calls r' c', c'))"

section \<open>The records of the endpoints carry the id of the request\<close>

lemma submit_logs_request: "call \<in> set (submit_logs wk tid) \<Longrightarrow> map_of (lc_fields call) (asc ''request_id'') = None"
  by (auto dest!: submit_logs_in)

lemma field_not_request [simp]:
  "map_of (lc_fields (log_list page page_size n k)) (asc ''request_id'') = None"
  "map_of (lc_fields (log_fetched t)) (asc ''request_id'') = None"
  "map_of (lc_fields (log_deleted path)) (asc ''request_id'') = None"
  "map_of (lc_fields (log_reuse tid)) (asc ''request_id'') = None"
  "map_of (lc_fields (log_stream tid tr)) (asc ''request_id'') = None"
  "map_of (lc_fields (log_task t)) (asc ''request_id'') = None"
  "map_of (lc_fields (log_requeued again t)) (asc ''request_id'') = None"
  "map_of (lc_fields (log_retry_known t)) (asc ''request_id'') = None"
  "map_of (lc_fields (log_request meth path st ms)) (asc ''request_id'') = None"
  "map_of (lc_fields (log_request_error meth path ms)) (asc ''request_id'') = None"
  "map_of (lc_fields (log_unhandled e)) (asc ''request_id'') = None"
  by (simp_all add: log_list_def log_fetched_def log_deleted_def log_reuse_def log_stream_def log_task_def
      log_requeued_def log_retry_known_def log_request_def log_request_error_def log_unhandled_def
      access_fields_def log_info_def log_error_def log_exception_def status_field_def asc_inj)

lemma retry_calls_request:
  "call \<in> set (retry_calls ck env x1 x2 tid db wk) \<Longrightarrow> map_of (lc_fields call) (asc ''request_id'') = None"
  by (auto simp: retry_calls_def Let_def dest: submit_logs_request
      split: tx_result.splits option.splits prod.splits if_splits)

lemma endpoint_logs_request:
  "list_all (keeps_request c) (upload_logs cfg w filename c s)"
  "list_all (keeps_request c) (list_logs c env page page_size db)"
  "list_all (keeps_request c) (get_recording_logs c env rid db)"
  "list_all (keeps_request c) (delete_logs c env x rid db)"
  "list_all (keeps_request c) (prepare_logs c env sm rid db)"
  "list_all (keeps_request c) (task_get_logs c tid db)"
  "list_all (keeps_request c) (retry_logs c ck env x1 x2 tid db wk)"
  by (rule upload_logs_request)
    (auto simp: list_logs_def get_recording_logs_def delete_logs_def prepare_logs_def
      task_get_logs_def retry_logs_def keeps_request_def list_all_iff retry_calls_request
      split: sum.split prod.split tx_result.split option.split)

section \<open>The trace of a request\<close>

lemma request_id_nonempty: "request_id_of xreq xtrace u \<noteq> []"
proof -
  have "uuid_hex u \<noteq> []" using length_uuid_hex [of u] by (metis length_0_conv zero_neq_numeral)
  then show ?thesis by (simp add: request_id_of_def Let_def)
qed

lemma request_id_sent:
  assumes "\<not> (\<forall>x \<in> set q. is_space x)"
  shows "request_id_of (Some q) xtrace u = strip q"
    and "request_id_of None (Some q) u = strip q"
    and "request_id_of (Some []) (Some q) u = strip q"
  using assms strip_by_eq_Nil_iff [of is_space q]
  by (auto simp: request_id_of_def Let_def or_str_def strip_def)

text \<open>The records of \<open>Http.request_context\<close> are those calls without method and duration.\<close>

definition access_view :: "log_call \<Rightarrow> http_log option" where
  "access_view call =
     (case (report call (asc ''path''), report call (asc ''status'')) of
        (Some (JStr path), Some (JInt st)) \<Rightarrow>
          Some (if lc_event call = asc ''http.request'' then RequestLogged path st else RequestErrorLogged path)
      | _ \<Rightarrow> None)"

lemma request_calls_view:
  "map (access_view \<circ> snd) (fst (request_calls meth path ms r b)) = map Some (snd (request_context path rid r))"
  by (auto simp: request_calls_def request_context_def access_view_def report_def log_request_def
      log_request_error_def access_fields_def log_info_def log_error_def asc_inj
      split: http_result.split prod.split)

lemma code_exn_escapes:
  assumes "run_handlers r = Escapes e"
  shows "\<exists>x. e = CodeExn x \<and> r = Escapes (CodeExn x)"
  using assms by (auto simp: run_handlers_def domain_handler_def
      split: http_result.splits option.splits http_exn.splits)

lemma trace_request:
  assumes "\<And>c. list_all (keeps_request c) (endpoint c)"
    and "p \<in> set (fst (request_trace meth path rid ms endpoint r c))"
  shows "keeps_request (c(RequestId := Some rid)) p"
  using assms(2) assms(1) [of "c(RequestId := Some rid)"]
  by (auto simp: request_trace_def request_calls_def unhandled_calls_def bind_request_id_def bind_var_def
      reset_var_def Let_def list_all_iff keeps_request_def
      split: http_result.splits http_exn.splits if_splits)

text \<open>What is told of a request with the answer \<open>resp\<close>.\<close>

definition answer_told ::
  "pstr \<Rightarrow> pstr \<Rightarrow> pstr \<Rightarrow> pstr \<Rightarrow> http_response http_result \<Rightarrow> http_response \<Rightarrow> log_call list \<Rightarrow> bool" where
  "answer_told meth path rid ms r resp own \<longleftrightarrow>
     own = (if path = asc ''/health'' then [] else [log_request meth path (rs_status resp) ms]) \<and>
       (asc ''X-Request-ID'', rid) \<in> set (rs_headers resp) \<or>
     (\<exists>x. r = Escapes (CodeExn x) \<and> own = [log_request_error meth path ms, log_unhandled x] \<and>
       rs_status resp = 500 \<and> rs_headers resp = [])"

lemma serve_told:
  assumes "serve path rid r = (Answer resp, l)"
  shows "\<exists>own. map snd (fst (request_trace meth path rid ms endpoint r c)) =
      map snd (endpoint (c(RequestId := Some rid))) @ own \<and> answer_told meth path rid ms r resp own"
proof (cases "run_handlers r")
  case (Answer q)
  then show ?thesis using assms
    by (auto simp: serve_def request_context_def request_trace_def request_calls_def unhandled_calls_def
        bind_request_id_def bind_var_def answer_told_def)
next
  case (Escapes e)
  obtain x where "e = CodeExn x" "r = Escapes (CodeExn x)" using code_exn_escapes [OF Escapes] by blast
  with Escapes assms show ?thesis
    by (auto simp: serve_def request_context_def request_trace_def request_calls_def unhandled_calls_def
        bind_request_id_def bind_var_def answer_told_def unhandled_handler_def error_json_def respond_def)
next
  case NoAnswer
  then show ?thesis using assms by (simp add: serve_def request_context_def)
qed

lemma serve_context:
  "snd (request_trace meth path rid ms endpoint r c) =
     (case run_handlers r of Answer resp \<Rightarrow> c | _ \<Rightarrow> c(RequestId := Some rid))"
  by (auto simp: request_trace_def request_calls_def bind_request_id_def bind_var_def reset_var_def
      split: http_result.split)

text \<open>
  Every line of a request names its event and carries the request's id, which is never empty;
  an answered request is logged with its status and answered with its id, and one that fails
  with the exception, in a line that still carries the id; afterwards the context is as before.
\<close>

lemma request_traced:
  assumes "\<And>c. list_all (keeps_request c) (endpoint c)"
    and rid: "rid = request_id_of xreq xtrace u" and serve: "serve path rid r = (Answer resp, l)"
    and trace: "request_trace meth path rid ms endpoint r c = (calls, c')"
    and act: "set active \<subseteq> {asc ''json'', asc ''console'', asc ''plain''}"
  shows "rid \<noteq> []"
    and "\<exists>own. map snd calls = map snd (endpoint (c(RequestId := Some rid))) @ own \<and>
      answer_told meth path rid ms r resp own"
    and "p \<in> set calls \<Longrightarrow>
      map_of (ctx_line iso_ts str describe active inst name ts p) (asc ''request_id'') = Some (JStr rid)"
    and "p \<in> set calls \<Longrightarrow>
      map_of (ctx_line iso_ts str describe active inst name ts p) (asc ''event'') = Some (JStr (lc_event (snd p)))"
    and "(asc ''X-Request-ID'', rid) \<in> set (rs_headers resp) \<Longrightarrow> c' = c"
proof -
  note line = ctx_line_ids [OF act, of iso_ts str describe inst name ts p]
  show "rid \<noteq> []" by (simp add: rid request_id_nonempty)
  show "\<exists>own. map snd calls = map snd (endpoint (c(RequestId := Some rid))) @ own \<and>
      answer_told meth path rid ms r resp own"
    using serve_told [OF serve, of meth ms endpoint c] by (simp add: trace)
  show "map_of (ctx_line iso_ts str describe active inst name ts p) (asc ''event'') = Some (JStr (lc_event (snd p)))"
    by (rule line(4))
  show "map_of (ctx_line iso_ts str describe active inst name ts p) (asc ''request_id'') = Some (JStr rid)"
    if "p \<in> set calls"
    using trace_request [OF assms(1), of p meth path rid ms r c] that line(1)
    by (simp add: trace keeps_request_def opt_json_def)
  show "c' = c" if "(asc ''X-Request-ID'', rid) \<in> set (rs_headers resp)"
  proof (cases "run_handlers r")
    case (Escapes e)
    with serve that show ?thesis
      by (auto simp: serve_def request_context_def unhandled_handler_def error_json_def respond_def)
  qed (use serve_context [of meth path rid ms endpoint r c] serve in
        \<open>simp_all add: trace serve_def request_context_def\<close>)
qed

text \<open>The trace of an upload, as every endpoint with its records: nothing in it is without the id.\<close>

lemma upload_traced:
  assumes "serve path (request_id_of xreq xtrace u) (fst (http_upload cfg w filename (fs, db, wk))) = (Answer resp, l)"
    and "set active \<subseteq> {asc ''json'', asc ''console'', asc ''plain''}"
    and "p \<in> set (fst (request_trace (asc ''POST'') path (request_id_of xreq xtrace u) ms
      (\<lambda>c. upload_logs cfg w filename c (fs, db, wk)) (fst (http_upload cfg w filename (fs, db, wk))) c))"
  shows "map_of (ctx_line iso_ts str describe active inst name ts p) (asc ''request_id'') =
    Some (JStr (request_id_of xreq xtrace u))"
  using request_traced(3) [OF endpoint_logs_request(1) refl assms(1) prod.collapse [symmetric] assms(2,3)] .

end
