(* ===== verification/Spec2Isabelle.thy ===== *)
theory Spec2Isabelle
  imports Queue_Properties System_Properties Repository_Properties Task_Service_Properties Recording_Properties
    Http_Properties Logger_Properties Schema_Properties Transcriber Application_Properties Test_Data
    Progress Storage Worker_Logs Wiring Client Service_Logs Llm_Logs Http_Logs
begin

text \<open>
  A model of the recording transcription service (\<open>src/api\<close>): users upload audio files; a
  worker transcribes each and has the transcript summarised; tasks are queued in a PostgreSQL
  table that any number of processes share; results are read over HTTP, the summary also as a
  stream of server-sent events.

  \<^bold>\<open>The parts and how they interact.\<close>  A request goes through the HTTP layer to
  \<open>RecordingService\<close> or \<open>TaskService\<close>, which stage files, call the repositories and wake the
  worker.  A \<open>TaskWorker\<close> is a dispatcher that claims tasks with \<open>TaskDao\<close> and spawns one
  \<open>TaskExecutor.process\<close> coroutine for each; that transcribes, summarises and writes the result
  back, renewing its lease meanwhile.  Workers know each other only through the rows: \<open>locked_by\<close>
  and \<open>lease_expires_at\<close> are the lock, \<open>status\<close> the state.  \<open>lifespan\<close> starts and stops all
  of it in one process.

  \<^bold>\<open>Theories.\<close>  Each theory opens with what it holds; the order is that of the imports.

  \<^item> \<open>Py_Base\<close>, \<open>Py_Str\<close>: Python values (texts are lists of code points, times integers in
    microseconds, UUIDs words of 128 bits), exceptions, dictionaries in insertion order, slices,
    \<open>strip\<close>, numerals, the text of a UUID.  \<open>Sql_Table\<close>: a table is the list of its rows;
    \<open>SELECT\<close>, \<open>UPDATE\<close> and \<open>DELETE\<close> as functions on it; the locales \<open>keyed_update\<close> and
    \<open>guarded_update\<close> say what an update of the rows under a guard promises.
  \<^item> \<open>Task_Types\<close>, \<open>Task_Dao\<close>, \<open>Task_Queue\<close>, \<open>Queue_Properties\<close>:
    \<open>repository/dao/task_types.py\<close>, \<open>task.py\<close>, the rows of \<open>recording.py\<close>.  Each statement of
    \<open>TaskDao\<close> is its \<open>WHERE\<close> (\<open>pick_guard\<close>, \<open>owner_guard\<close>, \<open>reclaim_guard\<close>, ...) and its \<open>SET\<close>
    (\<open>claim_set\<close>, \<open>failure_set\<close>, ...).  \<open>Task_Dao\<close> interprets the locale \<open>task_update\<close> for every
    one of them, which gives the preservation of \<open>db_ok\<close> and what each row becomes.
    \<open>FOR UPDATE SKIP LOCKED\<close> is the set of rows other transactions have locked.
  \<^item> \<open>Sessions\<close>: \<open>task_tx\<close> of \<open>worker/common.py\<close>; a transaction commits, raises or is
    cancelled, in the last two cases with its commit applied or not; \<open>interference\<close> is what other
    sessions commit between two statements of one method.
  \<^item> \<open>Repositories\<close>, \<open>Repository_Properties\<close>: \<open>repository/dao/recording.py\<close>,
    \<open>repository/recording.py\<close>, \<open>repository/task.py\<close>, with the race of two uploads for one hash.
  \<^item> \<open>Executor\<close>, \<open>Executor_Properties\<close>: \<open>worker/executor.py\<close>.  \<open>process\<close> is cut at its
    \<open>await\<close>s: \<open>pc\<close> is where it waits, \<open>event\<close> what it is given, \<open>exec_step\<close> the code in
    between, with the lease-renewal loop beside it.
  \<^item> \<open>Dispatcher\<close>, \<open>Dispatcher_Properties\<close>: \<open>worker/dispatcher.py\<close>, \<open>worker/worker.py\<close>: the
    claim loop with its program point, \<open>running_tasks\<close>, the callbacks of finished coroutines,
    start, submit and stop.
  \<^item> \<open>System\<close>, \<open>System_Properties\<close>: any number of workers and the API on one database, as
    step relations, with crashes; \<open>life\<close> is the abstract state of a task, and every step of the
    system is a step of \<open>life\<close>.  \<open>Progress\<close>: from every reachable state one worker can drain the
    queue; the proof goes by rounds of a restart, a claim and a run of \<open>process\<close>.
    \<open>Client\<close> puts all parts together: from an upload over HTTP to the answers that show its result.
  \<^item> \<open>Task_Service\<close>, \<open>Task_Service_Properties\<close>: \<open>service/task.py\<close>.  \<open>File_Util\<close>,
    \<open>File_Properties\<close>: \<open>utils/file.py\<close>.  \<open>Recording_Service\<close>, \<open>Recording_Properties\<close>:
    \<open>service/recording.py\<close> over the file system, the database and the worker together; the locale
    \<open>recording_store\<close> is what the service needs of a repository, interpreted on the model's.
    \<open>Storage\<close>: the upload directory and the table of recordings with any number of uploads and
    deletions under way, cut into the steps between which others can come (\<open>storage_step\<close>), and
    the service's operations as runs of these steps.
  \<^item> \<open>Json_Codec\<close>, \<open>Json_Properties\<close>: \<open>json.dumps\<close> and \<open>json.loads\<close>.  \<open>Llm\<close>,
    \<open>Llm_Properties\<close>: \<open>core/llm/llm.py\<close>, \<open>service/summarizer.py\<close>: the retry loop, the search for
    the JSON object in an answer, the streams.
  \<^item> \<open>Http\<close>, \<open>Http_Properties\<close>: \<open>controller/*.py\<close>, \<open>schema/*.py\<close>, \<open>core/errors.py\<close>, the
    middleware of \<open>app.py\<close>.  \<open>Logger\<close>, \<open>Logger_Properties\<close>: \<open>core/logger/__init__.py\<close>.
    \<open>Log_Calls\<close>: a call of the logger, the context of ids it is made in and what is in its line.
    \<open>Worker_Logs\<close>, \<open>Service_Logs\<close>, \<open>Llm_Logs\<close>, \<open>Http_Logs\<close>: the calls the executor, the
    dispatcher, the services, the LLM client and the HTTP layer make, beside the steps and
    operations that make them.
  \<^item> \<open>Identity\<close>: \<open>worker/identity.py\<close>.  \<open>Schema\<close>, \<open>Schema_Properties\<close>: the Alembic migration, the
    rows as values of columns.  \<open>Transcriber\<close>, \<open>Mock_Transcripts\<close>: \<open>service/transcriber.py\<close>,
    \<open>service/mock_transcripts.py\<close>.
  \<^item> \<open>Settings\<close>, \<open>Application\<close>, \<open>Application_Properties\<close>: \<open>config/settings.py\<close>,
    \<open>TaskWorker.__init__\<close>, the life of the summarizer's HTTP client, \<open>lifespan\<close>.  \<open>Wiring\<close>:
    \<open>core/db/db_connector.py\<close>, \<open>core/db/migrate.py\<close>, \<open>alembic/env.py\<close>, \<open>depends/__init__.py\<close>.
    \<open>Test_Data\<close>: \<open>scripts/generate_testdata.py\<close>.

  \<^bold>\<open>What the properties show.\<close>  The queue: a claim takes the oldest claimable tasks;
  overlapping claims have the effect of serial ones; only the holder of a lock changes a task; a
  task is attempted \<open>max_retries + 1\<close> times with doubling pauses; a reclaim frees exactly the
  expired tasks and, at a restart, the worker's own.  The system: an invariant of every reachable
  state, the refinement of \<open>life\<close>, an uploaded task is processed to \<open>DONE\<close> once a worker with a
  free slot runs, from every reachable state a worker can bring all unfinished tasks to \<open>DONE\<close>
  (so that a client which has uploaded a file can read its transcript and summary), and a finished
  task stays as it is.  The coroutine: it waits at most eight times,
  every exception of its work is booked, and it never writes without its lock.  Uploads: in every
  way an upload can end, files and rows match, and they match in every state of any interleaving
  of uploads, deletions and work; known content changes nothing; a race has one winner.  Summaries: which attempt decides, bounds on requests and waiting, what is found in an
  answer, what a stream consists of and that a client reads back what was sent.  The logs: a JSON
  line always parses back; the trail of a task ends with its outcome, carries its id, and reports
  what the database holds; the log of an upload tells how it ended and names the rows; the log of
  a summary accounts for every request, attempt and pause; every line of a request carries the id
  it is answered with.  The schema: every reachable row fits its columns, and the migration
  can be undone, is applied once, and fails without effect when two processes start together.
  The process: what holds before the first request, what a restart recovers, and what a shutdown
  closes.

  \<^bold>\<open>Bounds and fuel.\<close>  The JSON parser recurses on fuel; \<open>json_fuel\<close>, twice the length of the
  text and some more, is enough for every text (\<open>Json_Properties\<close>: the parser never answers that
  it is out of fuel).  \<open>stage_loop\<close> and \<open>fill_zeros\<close> end because each round writes a byte below
  their limit.  \<open>llm_loop\<close> counts its remaining attempts.  Counters and sizes are Python's
  unbounded integers; that they fit the 32-bit columns is a property of the schema.

  \<^bold>\<open>Parameters.\<close>  What the code asks of others is an argument: the clock (with the offset of the
  session's time zone, since \<open>_sql_utc_now\<close> yields a timestamp without one), fresh UUIDs, the
  answers of the file system, the network, the LLM endpoint and the speech recognition, the
  validation by pydantic, SHA-256, the random draws, Unicode's tables for characters that are not
  ASCII, the printing of times, \<open>str\<close> of library exceptions and the decision of Alembic which
  revisions to run.  A float of JSON is the text of its literal; the delays and the rate of the
  mock transcriber are exact reals.

  \<^bold>\<open>Not modelled.\<close>
  \<^item> Loguru's levels, filters and rotating files (what becomes of a record once it is logged is
    modelled).
  \<^item> Routing, the parsing of requests and the serialisation of response models (FastAPI's), the
    reading of settings from the environment (pydantic's), connection pooling (SQLAlchemy's), and the
    order of the revisions and the comparison of types and defaults (Alembic's).
  \<^item> JSONB's own changes to a value (the order of keys, duplicate keys, the NUL character it
    refuses) and texts with lone surrogates: a summary is stored as it is written.
  \<^item> Cancellation inside a sleep or a wait of the dispatcher is the end of its loop; cancellation
    of \<open>start\<close> and of \<open>stop\<close> is their failure.
\<close>

end
